theory Spec2Isabelle
  imports Main
begin

section \<open>Python strings and builtins used by addcomputer.py\<close>

text \<open>
  Strings are \<^typ>\<open>string\<close> (character lists); a character is a code point below
  256. \<open>None\<close>-able values are options.
  \<open>py_split c s\<close> is \<open>s.split(c)\<close> for a one-character separator: it cuts at
  every occurrence and never returns the empty list.
\<close>

fun py_split :: "char \<Rightarrow> string \<Rightarrow> string list" where
  "py_split c [] = [[]]"
| "py_split c (x # xs) =
     (if x = c then [] # py_split c xs
      else (case py_split c xs of
              [] \<Rightarrow> [[x]]
            | w # ws \<Rightarrow> (x # w) # ws))"

definition endswith :: "string \<Rightarrow> char \<Rightarrow> bool" where
  "endswith s c = (s \<noteq> [] \<and> last s = c)"

text \<open>\<open>'%s' % v\<close> for a value that may be \<open>None\<close>.\<close>

definition fmt :: "string option \<Rightarrow> string" where
  "fmt v = (case v of None \<Rightarrow> ''None'' | Some s \<Rightarrow> s)"

definition ascii_lowercase :: string where
  "ascii_lowercase = ''abcdefghijklmnopqrstuvwxyz''"

definition ascii_uppercase :: string where
  "ascii_uppercase = ''ABCDEFGHIJKLMNOPQRSTUVWXYZ''"

definition ascii_letters :: string where
  "ascii_letters = ascii_lowercase @ ascii_uppercase"

definition digits :: string where
  "digits = ''0123456789''"

text \<open>
  \<open>str.lower()\<close>: among the code points below 256 the capitals are \<open>A\<close> to \<open>Z\<close>
  and \<open>0xC0\<close> to \<open>0xDE\<close> without the multiplication sign \<open>0xD7\<close>; each has its
  small letter 32 places further.
\<close>

definition is_capital :: "char \<Rightarrow> bool" where
  "is_capital c =
     (let n = (of_char c :: nat) in
      (65 \<le> n \<and> n \<le> 90) \<or> (192 \<le> n \<and> n \<le> 222 \<and> n \<noteq> 215))"

definition lower_char :: "char \<Rightarrow> char" where
  "lower_char c = (if is_capital c then char_of (of_char c + (32::nat)) else c)"

definition lower :: "string \<Rightarrow> string" where
  "lower s = map lower_char s"

section \<open>Exceptions, events and the state of one run\<close>

text \<open>
  The result dictionary of a directory operation (\<open>ldapConn.result\<close>): its
  \<open>'result'\<close> code and its \<open>'message'\<close>.
\<close>

record ldap_result =
  result :: nat
  message :: string

text \<open>
  A message is a string, or \<open>str(ldapConn.result)\<close>, whose rendering the library owns,
  or a string followed by it.
\<close>

datatype msg = Str string | StrOfResult ldap_result | StrWithResult string ldap_result

text \<open>
  The subclasses of \<open>Exception\<close> that the script raises or tests for. Exceptions of
  the protocol libraries carry their own message; \<open>DCERPCSessionError\<close> also carries
  its \<open>error_code\<close>.
\<close>

datatype exn =
    ValueError string
  | IndexError string
  | TypeError string
  | KeyError string
  | DCERPCSessionError nat string
  | LDAPSocketOpenError string
  | Exception msg
  | LibraryError string

fun str_exn :: "exn \<Rightarrow> msg" where
  "str_exn (ValueError m) = Str m"
| "str_exn (IndexError m) = Str m"
| "str_exn (TypeError m) = Str m"
| "str_exn (KeyError m) = Str m"
| "str_exn (DCERPCSessionError c m) = Str m"
| "str_exn (LDAPSocketOpenError m) = Str m"
| "str_exn (Exception t) = t"
| "str_exn (LibraryError m) = Str m"

datatype level = DEBUG | INFO | WARNING | ERROR | CRITICAL

type_synonym handle = nat

datatype access = DELETE | USER_FORCE_PASSWORD_CHANGE | MAXIMUM_ALLOWED

datatype tls_version = PROTOCOL_TLSv1_2 | PROTOCOL_TLSv1

datatype credential = NoCredential | HashCredential "string option" | PasswordCredential string

text \<open>
  The attribute dictionary \<open>ucd\<close> of the new computer entry (lines 298--304); the
  password is kept as the quoted string, before its UTF-16 encoding.
\<close>

record ucd =
  dnsHostName :: string
  userAccountControl :: nat
  servicePrincipalName :: "string list"
  sAMAccountName :: string
  unicodePwd :: string

text \<open>
  What an \<open>add\<close> is given: the computer attributes, or the security descriptor
  \<open>ACL_ALLOW_EVERYONE_EVERYTHING\<close> with the control \<open>sdflags=0x04\<close>.
\<close>

datatype attrs = ComputerAttrs ucd | SecurityDescriptorAttrs

text \<open>
  Everything the script does to the outside world, in the order it does it: log
  records, the traceback print, and the calls to the protocol collaborators with
  their arguments.
\<close>

datatype event =
    Log level msg
  | PrintExc exn
  | Hept_map "string option"
  | DCERPCTransportFactory string
  | Set_dport "nat option"
  | SetRemoteHost "string option"
  | SetRemoteName "string option"
  | Set_credentials string string string string string "string option"
  | Set_kerberos bool "string option"
  | Get_dce_rpc
  | Connect
  | Bind
  | HSamrConnect5 string
  | HSamrEnumerateDomainsInSamServer handle
  | HSamrLookupDomainInSamServer handle string
  | HSamrOpenDomain handle string
  | HSamrLookupNamesInDomain handle "string option"
  | HSamrOpenUser handle access nat
  | HSamrCreateUser2InDomain handle "string option"
  | HSamrDeleteUser handle
  | HSamrSetPasswordInternal4New handle "string option"
  | HSamrSetInformationUser2 handle
  | HSamrCloseHandle handle
  | Disconnect
  | LdapTls tls_version
  | LdapServer "string option" "nat option"
  | LdapConnection credential
  | Ldap3_kerberos_login
  | LdapBind
  | LdapSearch "string option" string
  | LdapSchemaNamingContext
  | LdapAdd string "string list" attrs
  | LdapModify string "string option"
  | LdapDelete string

text \<open>The attributes of the \<open>ADDCOMPUTER\<close> object (\<open>self.__xxx\<close>).\<close>

record addcomputer =
  username :: string
  password :: string
  domain :: string
  lmhash :: string
  nthash :: string
  hashes :: "string option"
  aesKey :: "string option"
  doKerberos :: bool
  target :: "string option"
  kdcHost :: "string option"
  computerName :: "string option"
  computerPassword :: "string option"
  methodName :: string
  port :: "nat option"
  domainNetbios :: "string option"
  noAdd :: bool
  delete :: bool
  targetIp :: "string option"
  baseDN :: "string option"
  computerGroup :: "string option"

text \<open>The parsed command line (\<open>cmdLineOptions\<close>).\<close>

record options =
  opt_hashes :: "string option"
  opt_aesKey :: "string option"
  opt_k :: bool
  opt_dc_host :: "string option"
  opt_computer_name :: "string option"
  opt_computer_pass :: "string option"
  opt_method :: string
  opt_port :: "nat option"
  opt_domain_netbios :: "string option"
  opt_no_add :: bool
  opt_delete :: bool
  opt_dc_ip :: "string option"
  opt_baseDN :: "string option"
  opt_computer_group :: "string option"

text \<open>
  The state of a run: the object, the events so far, the position in the random
  source, and the three local handle variables of \<open>doSAMRAdd\<close>, which its
  \<open>finally\<close> block reads after an exception.
\<close>

record state =
  self :: addcomputer
  trace :: "event list"
  rng :: nat
  servHandle :: "handle option"
  domainHandle :: "handle option"
  userHandle :: "handle option"

text \<open>
  A computation either raises or returns, in a new state; \<open>None\<close> is a run that
  never returns.
\<close>

type_synonym 'a comp = "state \<Rightarrow> ((exn + 'a) \<times> state) option"

definition returns :: "'a \<Rightarrow> 'a comp" where
  "returns x = (\<lambda>s. Some (Inr x, s))"

definition raise :: "exn \<Rightarrow> 'a comp" where
  "raise e = (\<lambda>s. Some (Inl e, s))"

definition bnd :: "'a comp \<Rightarrow> ('a \<Rightarrow> 'b comp) \<Rightarrow> 'b comp" where
  "bnd m f = (\<lambda>s. case m s of
                     None \<Rightarrow> None
                   | Some (Inl e, s') \<Rightarrow> Some (Inl e, s')
                   | Some (Inr x, s') \<Rightarrow> f x s')"

definition thn :: "'a comp \<Rightarrow> 'b comp \<Rightarrow> 'b comp" where
  "thn m n = bnd m (\<lambda>_. n)"

definition if_then :: "bool \<Rightarrow> unit comp \<Rightarrow> unit comp" where
  "if_then c m = (if c then m else returns ())"

text \<open>\<open>try: m except Exception as e: h e\<close>\<close>

definition try_except :: "'a comp \<Rightarrow> (exn \<Rightarrow> 'a comp) \<Rightarrow> 'a comp" where
  "try_except m h = (\<lambda>s. case m s of
                     None \<Rightarrow> None
                   | Some (Inl e, s') \<Rightarrow> h e s'
                   | Some (Inr x, s') \<Rightarrow> Some (Inr x, s'))"

text \<open>
  \<open>try: m finally: fin\<close>: the finalizer always runs; if it raises, its exception
  replaces the outcome of \<open>m\<close>.
\<close>

definition try_finally :: "'a comp \<Rightarrow> unit comp \<Rightarrow> 'a comp" where
  "try_finally m fin = (\<lambda>s. case m s of
                     None \<Rightarrow> None
                   | Some (r, s') \<Rightarrow>
                       (case fin s' of
                          None \<Rightarrow> None
                        | Some (Inl e, s'') \<Rightarrow> Some (Inl e, s'')
                        | Some (Inr _, s'') \<Rightarrow> Some (r, s'')))"

definition gets :: "(state \<Rightarrow> 'a) \<Rightarrow> 'a comp" where
  "gets f = (\<lambda>s. Some (Inr (f s), s))"

definition modify :: "(state \<Rightarrow> state) \<Rightarrow> unit comp" where
  "modify f = (\<lambda>s. Some (Inr (), f s))"

definition set_self :: "(addcomputer \<Rightarrow> addcomputer) \<Rightarrow> unit comp" where
  "set_self f = modify (\<lambda>s. s\<lparr>self := f (self s)\<rparr>)"

definition logging :: "level \<Rightarrow> msg \<Rightarrow> unit comp" where
  "logging l t = modify (\<lambda>s. s\<lparr>trace := trace s @ [Log l t]\<rparr>)"

text \<open>
  A call to a collaborator appends the call to the trace and asks the oracle what the
  collaborator does after that history: return a value or raise.
\<close>

definition call :: "(event list \<Rightarrow> exn + 'a) \<Rightarrow> event \<Rightarrow> 'a comp" where
  "call oracle ev = (\<lambda>s. let tr = trace s @ [ev] in Some (oracle tr, s\<lparr>trace := tr\<rparr>))"

text \<open>
  \<open>random.choice(seq)\<close> on a non-empty sequence returns one of its elements; the
  random source is a stream of naturals read at position \<open>rng\<close>.
\<close>

definition random_choice :: "(nat \<Rightarrow> nat) \<Rightarrow> 'a list \<Rightarrow> 'a comp" where
  "random_choice rand seq =
     (\<lambda>s. Some (Inr (seq ! (rand (rng s) mod length seq)), s\<lparr>rng := Suc (rng s)\<rparr>))"

text \<open>\<open>''.join(random.choice(alphabet) for _ in range(n))\<close>\<close>

fun random_string :: "(nat \<Rightarrow> nat) \<Rightarrow> string \<Rightarrow> nat \<Rightarrow> string comp" where
  "random_string rand alphabet 0 = returns []"
| "random_string rand alphabet (Suc n) =
     bnd (random_choice rand alphabet) (\<lambda>c.
     bnd (random_string rand alphabet n) (\<lambda>cs.
     returns (c # cs)))"

section \<open>\<open>ADDCOMPUTER.__init__\<close>: resolving the options\<close>

text \<open>Lines 54--74: the attributes are copied from the arguments.\<close>

definition init_fields :: "string \<Rightarrow> string \<Rightarrow> string \<Rightarrow> options \<Rightarrow> addcomputer" where
  "init_fields usr pwd dmn opts =
     \<lparr> username = usr, password = pwd, domain = dmn, lmhash = [], nthash = [],
       hashes = opt_hashes opts, aesKey = opt_aesKey opts, doKerberos = opt_k opts,
       target = opt_dc_host opts, kdcHost = opt_dc_host opts,
       computerName = opt_computer_name opts, computerPassword = opt_computer_pass opts,
       methodName = opt_method opts, port = opt_port opts,
       domainNetbios = opt_domain_netbios opts, noAdd = opt_no_add opts,
       delete = opt_delete opts, targetIp = opt_dc_ip opts, baseDN = opt_baseDN opts,
       computerGroup = opt_computer_group opts \<rparr>"

text \<open>\<open>a, b = s.split(':')\<close>: unpacking anything but two parts is a \<open>ValueError\<close>.\<close>

definition unpack_hashes :: "string \<Rightarrow> (string \<times> string) comp" where
  "unpack_hashes s =
     (case py_split CHR '':'' s of
        [a, b] \<Rightarrow> returns (a, b)
      | [a] \<Rightarrow> raise (ValueError ''not enough values to unpack (expected 2, got 1)'')
      | _ \<Rightarrow> raise (ValueError ''too many values to unpack (expected 2)''))"

text \<open>Lines 76--79.\<close>

definition init_hashes :: "unit comp" where
  "init_hashes =
     bnd (gets (\<lambda>s. hashes (self s))) (\<lambda>h.
     bnd (case h of None \<Rightarrow> returns ([], []) | Some hs \<Rightarrow> unpack_hashes hs) (\<lambda>(lm, nt).
     if_then (lm = [] \<and> length nt = 32)
       (set_self (\<lambda>a. a\<lparr> lmhash := ''aad3b435b51404eeaad3b435b51404ee'',
                         hashes := Some (''aad3b435b51404eeaad3b435b51404ee'' @ '':'' @ nt) \<rparr>))))"

text \<open>Lines 81--94.\<close>

definition init_checks :: "options \<Rightarrow> unit comp" where
  "init_checks opts =
     bnd (gets self) (\<lambda>a.
     thn (if_then (targetIp a \<noteq> None) (set_self (\<lambda>a. a\<lparr>kdcHost := targetIp a\<rparr>)))
    (thn (if_then (methodName a \<notin> {''SAMR'', ''LDAPS''})
            (raise (ValueError (''Unsupported method '' @ methodName a))))
    (thn (if_then (doKerberos a \<and> opt_dc_host opts = None)
            (raise (ValueError
              ''Kerberos auth requires DNS name of the target DC. Use -dc-host.'')))
    (thn (if_then (methodName a = ''LDAPS'' \<and> CHR ''.'' \<notin> set (domain a))
            (logging WARNING (Str ([CHR 0x27] @ domain a @ [CHR 0x27] @
              '' doesn't look like a FQDN. Generating baseDN will probably fail.''))))
         (case opt_hashes opts of
            None \<Rightarrow> returns ()
          | Some hs \<Rightarrow>
              bnd (unpack_hashes hs) (\<lambda>(lm, nt).
              set_self (\<lambda>a. a\<lparr>lmhash := lm, nthash := nt\<rparr>)))))))"

text \<open>
  Lines 96--103. \<open>self.__computerName[-1]\<close> on the empty string is an
  \<open>IndexError\<close>.
\<close>

definition init_computerName :: "unit comp" where
  "init_computerName =
     bnd (gets self) (\<lambda>a.
     case computerName a of
       None \<Rightarrow>
         if noAdd a then
           raise (ValueError ''You have to provide a computer name when using -no-add.'')
         else if delete a then
           raise (ValueError ''You have to provide a computer name when using -delete.'')
         else returns ()
     | Some n \<Rightarrow>
         if n = [] then raise (IndexError ''string index out of range'')
         else if_then (last n \<noteq> CHR ''$'')
                (set_self (\<lambda>a. a\<lparr>computerName := Some (n @ ''$'')\<rparr>)))"

text \<open>Lines 105--132.\<close>

definition init_defaults :: "(nat \<Rightarrow> nat) \<Rightarrow> unit comp" where
  "init_defaults rand =
     bnd (gets self) (\<lambda>a.
     thn (if_then (computerPassword a = None)
            (bnd (random_string rand (ascii_letters @ digits) 32) (\<lambda>pw.
             set_self (\<lambda>a. a\<lparr>computerPassword := Some pw\<rparr>))))
    (thn (if_then (target a = None)
            (thn (if_then (CHR ''.'' \<notin> set (domain a))
                    (logging WARNING (Str (''No DC host set and '' @ [CHR 0x27] @ domain a @
                       [CHR 0x27] @ '' doesn't look like a FQDN. '' @
                       ''DNS resolution of short names will probably fail.''))))
                 (set_self (\<lambda>a. a\<lparr>target := Some (domain a)\<rparr>))))
    (thn (if_then (port a = None)
            (if methodName a = ''SAMR'' then set_self (\<lambda>a. a\<lparr>port := Some 445\<rparr>)
             else if methodName a = ''LDAPS'' then set_self (\<lambda>a. a\<lparr>port := Some 636\<rparr>)
             else returns ()))
    (thn (if_then (domainNetbios a = None)
            (set_self (\<lambda>a. a\<lparr>domainNetbios := Some (domain a)\<rparr>)))
    (thn (if_then (methodName a = ''LDAPS'' \<and> baseDN a = None)
            (set_self (\<lambda>a. a\<lparr>baseDN :=
               Some (butlast (concat (map (\<lambda>i. ''dc='' @ i @ '','')
                                        (py_split CHR ''.'' (domain a)))))\<rparr>)))
         (bnd (gets self) (\<lambda>a.
          if_then (methodName a = ''LDAPS'' \<and> computerGroup a = None)
            (case baseDN a of
               None \<Rightarrow> raise (TypeError ''can only concatenate str (not \"NoneType\") to str'')
             | Some b \<Rightarrow> set_self (\<lambda>a. a\<lparr>computerGroup := Some (''CN=Computers,'' @ b)\<rparr>)))))))))"

definition init :: "(nat \<Rightarrow> nat) \<Rightarrow> string \<Rightarrow> string \<Rightarrow> string \<Rightarrow> options \<Rightarrow> unit comp" where
  "init rand usr pwd dmn opts =
     thn (set_self (\<lambda>_. init_fields usr pwd dmn opts))
    (thn init_hashes
    (thn (init_checks opts)
    (thn init_computerName
         (init_defaults rand))))"

section \<open>The protocol collaborators\<close>

text \<open>
  What a directory search leaves in the connection: the value \<open>search\<close> returned,
  \<open>ldapConn.entries\<close>, and for each item of \<open>ldapConn.response\<close> its
  \<open>['attributes']['possSuperiors']\<close> (\<open>None\<close> when a key is missing).
\<close>

record ldap_entry =
  entry_dn :: string
  objectSid :: "string option"

record search_result =
  found :: bool
  entries :: "ldap_entry list"
  response :: "string list option list"

text \<open>
  The collaborators are oracles: each is asked with the whole history of events, the
  call itself last, and answers with the value the call returns or the exception it
  raises. One oracle per type of answer; \<open>random_source\<close> is the random source,
  \<open>has_set_credentials\<close> is \<open>hasattr(rpctransport, 'set_credentials')\<close> and
  \<open>debug\<close> is \<open>logging.getLogger().level == logging.DEBUG\<close>.
\<close>

record backend =
  ret_unit :: "event list \<Rightarrow> exn + unit"
  ret_string :: "event list \<Rightarrow> exn + string"
  ret_handle :: "event list \<Rightarrow> exn + handle"
  ret_names :: "event list \<Rightarrow> exn + string list"
  ret_rids :: "event list \<Rightarrow> exn + nat list"
  ret_search :: "event list \<Rightarrow> exn + search_result"
  ret_result :: "event list \<Rightarrow> exn + bool \<times> ldap_result"
  random_source :: "nat \<Rightarrow> nat"
  has_set_credentials :: bool
  debug :: bool

text \<open>
  Lines 448--453 and 323--328: the handler of \<open>except Exception as e\<close>, the same in
  both engines.
\<close>

definition except_handler :: "backend \<Rightarrow> exn \<Rightarrow> unit comp" where
  "except_handler be e =
     thn (if_then (debug be) (modify (\<lambda>s. s\<lparr>trace := trace s @ [PrintExc e]\<rparr>)))
         (logging CRITICAL (str_exn e))"

text \<open>Lines 339--340.\<close>

definition generateComputerName :: "backend \<Rightarrow> string comp" where
  "generateComputerName be =
     bnd (random_string (random_source be) (ascii_uppercase @ digits) 8) (\<lambda>cs.
     returns (''DESKTOP-'' @ (cs @ ''$'')))"

section \<open>The RPC engine: \<open>run_samr\<close> and \<open>doSAMRAdd\<close>\<close>

text \<open>Lines 357--371: the choice of the domain among the enumerated ones.\<close>

fun log_each :: "level \<Rightarrow> msg list \<Rightarrow> unit comp" where
  "log_each l [] = returns ()"
| "log_each l (t # ts) = thn (logging l t) (log_each l ts)"

definition select_domain :: "string option \<Rightarrow> string list \<Rightarrow> string comp" where
  "select_domain netbios domains =
     (let domainsWithoutBuiltin = filter (\<lambda>x. lower x \<noteq> ''builtin'') domains in
      if length domainsWithoutBuiltin > 1 then
        (let dmn = filter (\<lambda>x. Some (lower x) = netbios) domains in
         if length dmn \<noteq> 1 then
           thn (logging CRITICAL (Str (''This server provides multiple domains and '' @
                  [CHR 0x27] @ fmt netbios @ [CHR 0x27] @ '' isn't one of them.'')))
          (thn (logging CRITICAL (Str ''Available domain(s):''))
          (thn (log_each ERROR (map (\<lambda>d. Str ('' * '' @ d)) domains))
          (thn (logging CRITICAL (Str
                  ''Consider using -domain-netbios argument to specify which one you meant.''))
               (raise (Exception (Str []))))))
         else returns (hd dmn))
      else
        (case domainsWithoutBuiltin of
           [] \<Rightarrow> raise (IndexError ''list index out of range'')
         | d # _ \<Rightarrow> returns d))"

text \<open>
  Lines 348--379: connect, bind, open the server, choose and open the domain. Returns
  the local variables \<open>selectedDomain\<close> and \<open>domainHandle\<close>.
\<close>

definition samr_open_domain :: "backend \<Rightarrow> (string \<times> handle) comp" where
  "samr_open_domain be =
     thn (call (ret_unit be) Connect)
    (thn (call (ret_unit be) Bind)
    (bnd (gets self) (\<lambda>a.
     bnd (call (ret_handle be)
            (HSamrConnect5 ([CHR 0x5C, CHR 0x5C] @ fmt (target a) @ [CHR 0x00]))) (\<lambda>sh.
     thn (modify (\<lambda>s. s\<lparr>servHandle := Some sh\<rparr>))
    (bnd (call (ret_names be) (HSamrEnumerateDomainsInSamServer sh)) (\<lambda>domains.
     bnd (select_domain (domainNetbios a) domains) (\<lambda>selectedDomain.
     bnd (call (ret_string be) (HSamrLookupDomainInSamServer sh selectedDomain)) (\<lambda>domainSID.
     thn (if_then (debug be)
            (logging INFO (Str (''Opening domain '' @ selectedDomain @ ''...''))))
    (bnd (call (ret_handle be) (HSamrOpenDomain sh domainSID)) (\<lambda>dh.
     thn (modify (\<lambda>s. s\<lparr>domainHandle := Some dh\<rparr>))
         (returns (selectedDomain, dh))))))))))))"

text \<open>\<open>x[0]\<close> on a list.\<close>

definition first :: "'a list \<Rightarrow> 'a comp" where
  "first xs = (case xs of [] \<Rightarrow> raise (IndexError ''list index out of range'')
               | x # _ \<Rightarrow> returns x)"

text \<open>
  Lines 383--405: SetPassword and Delete look the name up and open the user. An
  \<open>except samr.DCERPCSessionError\<close> clause lets every other exception through.
\<close>

definition samr_open_existing :: "backend \<Rightarrow> string \<Rightarrow> handle \<Rightarrow> handle comp" where
  "samr_open_existing be selectedDomain dh =
     bnd (gets self) (\<lambda>a.
     bnd (try_except (call (ret_rids be) (HSamrLookupNamesInDomain dh (computerName a)))
            (\<lambda>e. case e of
                    DCERPCSessionError c m \<Rightarrow>
                      if c = 0xc0000073 then
                        raise (Exception (Str (''Account '' @ fmt (computerName a) @
                                 '' not found in domain '' @ selectedDomain @ ''!'')))
                      else raise e
                  | _ \<Rightarrow> raise e)) (\<lambda>checkForUser.
     bnd (first checkForUser) (\<lambda>userRID.
     bnd (returns (if delete a then (DELETE, ''delete'')
                   else (USER_FORCE_PASSWORD_CHANGE, ''set password for''))) (\<lambda>(acc, message).
     bnd (try_except (call (ret_handle be) (HSamrOpenUser dh acc userRID))
            (\<lambda>e. case e of
                    DCERPCSessionError c m \<Rightarrow>
                      if c = 0xc0000022 then
                        raise (Exception (Str (''User '' @ username a @
                                 '' doesn't have right to '' @ message @ '' '' @
                                 fmt (computerName a) @ ''!'')))
                      else raise e
                  | _ \<Rightarrow> raise e)) (\<lambda>uh.
     thn (modify (\<lambda>s. s\<lparr>userHandle := Some uh\<rparr>))
         (returns uh))))))"

text \<open>
  Lines 408--413: Create with a given name. The lookup must fail with
  \<open>0xc0000073\<close>; when it succeeds the \<open>raise\<close> inside the \<open>try\<close> is not a
  \<open>DCERPCSessionError\<close> and so leaves the \<open>try\<close>.
\<close>

definition samr_check_absent :: "backend \<Rightarrow> handle \<Rightarrow> unit comp" where
  "samr_check_absent be dh =
     bnd (gets self) (\<lambda>a.
     try_except
       (thn (call (ret_rids be) (HSamrLookupNamesInDomain dh (computerName a)))
            (raise (Exception (Str (''Account '' @ fmt (computerName a) @
               '' already exists! If you just want to set a password, use -no-add.'')))))
       (\<lambda>e. case e of
               DCERPCSessionError c m \<Rightarrow> if c \<noteq> 0xc0000073 then raise e else returns ()
             | _ \<Rightarrow> raise e))"

text \<open>
  Lines 417--424: one round of the loop; returns the new value of \<open>foundUnused\<close>.
\<close>

definition samr_probe_once :: "backend \<Rightarrow> handle \<Rightarrow> bool comp" where
  "samr_probe_once be dh =
     bnd (generateComputerName be) (\<lambda>n.
     thn (set_self (\<lambda>a. a\<lparr>computerName := Some n\<rparr>))
         (try_except
            (thn (call (ret_rids be) (HSamrLookupNamesInDomain dh (Some n)))
                 (returns False))
            (\<lambda>e. case e of
                    DCERPCSessionError c m \<Rightarrow> if c = 0xc0000073 then returns True else raise e
                  | _ \<Rightarrow> raise e)))"

text \<open>Lines 415--424: \<open>while not foundUnused\<close>.\<close>

partial_function (option) samr_probe ::
    "backend \<Rightarrow> handle \<Rightarrow> state \<Rightarrow> ((exn + unit) \<times> state) option" where
  "samr_probe be dh s =
     (case samr_probe_once be dh s of
        None \<Rightarrow> None
      | Some (r, s') \<Rightarrow>
          (case r of
             Inl e \<Rightarrow> Some (Inl e, s')
           | Inr foundUnused \<Rightarrow>
               if foundUnused then Some (Inr (), s') else samr_probe be dh s'))"

text \<open>Lines 382--427: the user handle, by operation.\<close>

definition samr_open_user :: "backend \<Rightarrow> string \<Rightarrow> handle \<Rightarrow> handle comp" where
  "samr_open_user be selectedDomain dh =
     bnd (gets self) (\<lambda>a.
     if noAdd a \<or> delete a then samr_open_existing be selectedDomain dh
     else
       thn (if computerName a \<noteq> None then samr_check_absent be dh else samr_probe be dh)
      (bnd (gets self) (\<lambda>a.
       bnd (call (ret_handle be) (HSamrCreateUser2InDomain dh (computerName a))) (\<lambda>uh.
       thn (modify (\<lambda>s. s\<lparr>userHandle := Some uh\<rparr>))
           (returns uh)))))"

text \<open>Lines 429--446: delete, or set the password and, for Create, the account type.\<close>

definition samr_apply :: "backend \<Rightarrow> handle \<Rightarrow> handle \<Rightarrow> unit comp" where
  "samr_apply be dh uh =
     bnd (gets self) (\<lambda>a.
     if delete a then
       thn (call (ret_unit be) (HSamrDeleteUser uh))
      (thn (logging INFO (Str (''Successfully deleted '' @ fmt (computerName a) @ ''.'')))
           (modify (\<lambda>s. s\<lparr>userHandle := None\<rparr>)))
     else
       thn (call (ret_unit be) (HSamrSetPasswordInternal4New uh (computerPassword a)))
           (if noAdd a then
              logging INFO (Str (''Successfully set password of '' @ fmt (computerName a) @
                '' to '' @ fmt (computerPassword a) @ ''.''))
            else
              bnd (call (ret_rids be) (HSamrLookupNamesInDomain dh (computerName a)))
                (\<lambda>checkForUser.
              bnd (first checkForUser) (\<lambda>userRID.
              bnd (call (ret_handle be) (HSamrOpenUser dh MAXIMUM_ALLOWED userRID)) (\<lambda>uh2.
              thn (modify (\<lambda>s. s\<lparr>userHandle := Some uh2\<rparr>))
             (thn (call (ret_unit be) (HSamrSetInformationUser2 uh2))
                  (logging INFO (Str (''Successfully added machine account '' @
                     fmt (computerName a) @ '' with password '' @
                     fmt (computerPassword a) @ ''.'')))))))))"

text \<open>Lines 348--446: the body of the \<open>try\<close>.\<close>

definition doSAMRAdd_try :: "backend \<Rightarrow> unit comp" where
  "doSAMRAdd_try be =
     bnd (samr_open_domain be) (\<lambda>(selectedDomain, dh).
     bnd (samr_open_user be selectedDomain dh) (\<lambda>uh.
     samr_apply be dh uh))"

text \<open>Lines 454--461: the \<open>finally\<close> block.\<close>

definition close_if_set :: "backend \<Rightarrow> handle option \<Rightarrow> unit comp" where
  "close_if_set be h =
     (case h of None \<Rightarrow> returns () | Some x \<Rightarrow> call (ret_unit be) (HSamrCloseHandle x))"

definition doSAMRAdd_finally :: "backend \<Rightarrow> unit comp" where
  "doSAMRAdd_finally be =
     bnd (gets userHandle) (\<lambda>uh.
     thn (close_if_set be uh)
    (bnd (gets domainHandle) (\<lambda>dh.
     thn (close_if_set be dh)
    (bnd (gets servHandle) (\<lambda>sh.
     thn (close_if_set be sh)
         (call (ret_unit be) Disconnect))))))"

text \<open>Lines 342--461.\<close>

definition doSAMRAdd :: "backend \<Rightarrow> unit comp" where
  "doSAMRAdd be =
     thn (call (ret_unit be) Get_dce_rpc)
    (thn (modify (\<lambda>s. s\<lparr>servHandle := None, domainHandle := None, userHandle := None\<rparr>))
         (try_finally (try_except (doSAMRAdd_try be) (except_handler be))
                      (doSAMRAdd_finally be)))"

text \<open>Lines 136--154.\<close>

definition run_samr :: "backend \<Rightarrow> unit comp" where
  "run_samr be =
     bnd (gets self) (\<lambda>a.
     bnd (call (ret_string be)
            (Hept_map (if targetIp a \<noteq> None then targetIp a else target a))) (\<lambda>stringBinding.
     thn (call (ret_unit be) (DCERPCTransportFactory stringBinding))
    (thn (call (ret_unit be) (Set_dport (port a)))
    (thn (if_then (targetIp a \<noteq> None)
            (thn (call (ret_unit be) (SetRemoteHost (targetIp a)))
                 (call (ret_unit be) (SetRemoteName (target a)))))
    (thn (if_then (has_set_credentials be)
            (call (ret_unit be) (Set_credentials (username a) (password a) (domain a)
               (lmhash a) (nthash a) (aesKey a))))
    (thn (call (ret_unit be) (Set_kerberos (doKerberos a) (kdcHost a)))
         (doSAMRAdd be)))))))"

section \<open>The directory engine: \<open>run_ldaps\<close>\<close>

text \<open>The result codes of \<open>ldap3.core.results\<close> that the script compares with.\<close>

definition RESULT_INSUFFICIENT_ACCESS_RIGHTS :: nat where
  "RESULT_INSUFFICIENT_ACCESS_RIGHTS = 50"

definition RESULT_UNWILLING_TO_PERFORM :: nat where
  "RESULT_UNWILLING_TO_PERFORM = 53"

text \<open>
  \<open>escape_filter_chars\<close> of \<open>ldap3.utils.conv\<close>: backslash, asterisk, parentheses
  and NUL are replaced by their escapes.
\<close>

definition escape_filter_chars :: "string \<Rightarrow> string" where
  "escape_filter_chars s =
     concat (map (\<lambda>c. if c = CHR 0x5C then [CHR 0x5C] @ ''5c''
                        else if c = CHR ''*'' then [CHR 0x5C] @ ''2a''
                        else if c = CHR ''('' then [CHR 0x5C] @ ''28''
                        else if c = CHR '')'' then [CHR 0x5C] @ ''29''
                        else if c = CHR 0x00 then [CHR 0x5C] @ ''00''
                        else [c]) s)"

text \<open>
  \<open>str.isspace()\<close> on one character: below 256 the white space is tab to carriage
  return, the four separators \<open>0x1C\<close> to \<open>0x1F\<close>, the space, the next-line control
  \<open>0x85\<close> and the no-break space \<open>0xA0\<close>. \<open>py_strip\<close> is \<open>s.strip()\<close>.
\<close>

definition is_space :: "char \<Rightarrow> bool" where
  "is_space c = (c \<in> {CHR 0x20, CHR 0x09, CHR 0x0A, CHR 0x0B, CHR 0x0C, CHR 0x0D,
                        CHR 0x1C, CHR 0x1D, CHR 0x1E, CHR 0x1F, CHR 0x85, CHR 0xA0})"

definition py_strip :: "string \<Rightarrow> string" where
  "py_strip s = rev (dropWhile is_space (rev (dropWhile is_space s)))"

text \<open>
  \<open>repr(s)\<close> of a string: in single quotes, or in double quotes when the string has a
  single quote and no double quote; the backslash, the chosen quote, newline, carriage
  return and tab are escaped, every other unprintable character is written \<open>\xNN\<close>.
  Below 256 the printable characters are \<open>0x20\<close> to \<open>0x7E\<close> and \<open>0xA1\<close> to \<open>0xFF\<close>
  without the soft hyphen \<open>0xAD\<close>.
\<close>

definition is_printable :: "char \<Rightarrow> bool" where
  "is_printable c =
     (let n = (of_char c :: nat) in
      (32 \<le> n \<and> n \<le> 126) \<or> (161 \<le> n \<and> n \<le> 255 \<and> n \<noteq> 173))"

definition hex2 :: "char \<Rightarrow> string" where
  "hex2 c =
     (let n = (of_char c :: nat) in
      [''0123456789abcdef'' ! (n div 16), ''0123456789abcdef'' ! (n mod 16)])"

definition repr_char :: "char \<Rightarrow> char \<Rightarrow> string" where
  "repr_char q c =
     (if c = CHR 0x5C then [CHR 0x5C, CHR 0x5C]
      else if c = q then [CHR 0x5C, q]
      else if c = CHR 0x0A then [CHR 0x5C, CHR ''n'']
      else if c = CHR 0x0D then [CHR 0x5C, CHR ''r'']
      else if c = CHR 0x09 then [CHR 0x5C, CHR ''t'']
      else if is_printable c then [c]
      else [CHR 0x5C, CHR ''x''] @ hex2 c)"

definition py_repr :: "string \<Rightarrow> string" where
  "py_repr s =
     (let q = (if CHR 0x27 \<in> set s \<and> CHR 0x22 \<notin> set s then CHR 0x22 else CHR 0x27)
      in [q] @ concat (map (repr_char q) s) @ [q])"

text \<open>
  \<open>int(s, 16)\<close>: surrounding white space, an optional sign, an optional \<open>0x\<close> prefix,
  then hexadecimal digits, single underscores allowed between them; anything else is a
  \<open>ValueError\<close> that quotes the literal (format \<open>%.200R\<close>: at most 200 characters
  of its \<open>repr\<close>).
\<close>

definition hex_digit :: "char \<Rightarrow> nat option" where
  "hex_digit c =
     (let n = (of_char c :: nat) in
      if 48 \<le> n \<and> n \<le> 57 then Some (n - 48)
      else if 65 \<le> n \<and> n \<le> 70 then Some (n - 55)
      else if 97 \<le> n \<and> n \<le> 102 then Some (n - 87)
      else None)"

fun hex_digits :: "nat \<Rightarrow> string \<Rightarrow> nat option" where
  "hex_digits acc [] = None"
| "hex_digits acc [c] = map_option (\<lambda>d. acc * 16 + d) (hex_digit c)"
| "hex_digits acc (c # d # cs) =
     (case hex_digit c of
        None \<Rightarrow> None
      | Some v \<Rightarrow> if d = CHR ''_'' then hex_digits (acc * 16 + v) cs
                  else hex_digits (acc * 16 + v) (d # cs))"

definition int16 :: "string \<Rightarrow> int comp" where
  "int16 s =
     (let t = py_strip s;
          (neg, u) = (case t of
                        [] \<Rightarrow> (False, t)
                      | c # r \<Rightarrow> if c = CHR ''-'' then (True, r)
                                 else if c = CHR ''+'' then (False, r) else (False, t));
          v = (case u of
                 c # x # r \<Rightarrow>
                   if c = CHR ''0'' \<and> (x = CHR ''x'' \<or> x = CHR ''X'') then
                     (case r of [] \<Rightarrow> r | y # r' \<Rightarrow> if y = CHR ''_'' then r' else r)
                   else u
               | _ \<Rightarrow> u)
      in case hex_digits 0 v of
           None \<Rightarrow> raise (ValueError (''invalid literal for int() with base 16: '' @
                          take 200 (py_repr s)))
         | Some n \<Rightarrow> returns (if neg then - int n else int n))"

text \<open>
  Lines 221--231 and 236--248: one attempt to open the session. Only the second
  attempt checks the result of \<open>bind\<close>, and only with hashes.
\<close>

definition ldap_login :: "backend \<Rightarrow> string option \<Rightarrow> bool \<Rightarrow> unit comp" where
  "ldap_login be connectTo second =
     bnd (gets self) (\<lambda>a.
     thn (call (ret_unit be) (LdapServer connectTo (port a)))
         (if doKerberos a then
            thn (call (ret_unit be) (LdapConnection NoCredential))
                (call (ret_unit be) Ldap3_kerberos_login)
          else if hashes a \<noteq> None then
            thn (call (ret_unit be) (LdapConnection (HashCredential (hashes a))))
                (bnd (call (ret_result be) LdapBind) (\<lambda>(bind_res, res).
                 if_then (second \<and> \<not> bind_res) (raise (Exception (StrOfResult res)))))
          else
            thn (call (ret_unit be) (LdapConnection (PasswordCredential (password a))))
                (bnd (call (ret_result be) LdapBind) (\<lambda>_. returns ()))))"

text \<open>Lines 219--248: TLS 1.2 first, TLS 1 after an \<open>LDAPSocketOpenError\<close>.\<close>

definition ldap_session :: "backend \<Rightarrow> string option \<Rightarrow> unit comp" where
  "ldap_session be connectTo =
     thn (call (ret_unit be) (LdapTls PROTOCOL_TLSv1_2))
         (try_except (ldap_login be connectTo False)
            (\<lambda>e. case e of
                    LDAPSocketOpenError m \<Rightarrow>
                      thn (call (ret_unit be) (LdapTls PROTOCOL_TLSv1))
                          (ldap_login be connectTo True)
                  | _ \<Rightarrow> raise e))"

text \<open>Lines 331--337.\<close>

definition LDAPComputerExists :: "backend \<Rightarrow> string option \<Rightarrow> bool comp" where
  "LDAPComputerExists be computerName' =
     bnd (gets self) (\<lambda>a.
     bnd (call (ret_search be)
            (LdapSearch (baseDN a) (''(sAMAccountName='' @ fmt computerName' @ '')''))) (\<lambda>r.
     returns (length (entries r) = 1)))"

definition LDAPGetComputer :: "backend \<Rightarrow> string option \<Rightarrow> ldap_entry comp" where
  "LDAPGetComputer be computerName' =
     bnd (gets self) (\<lambda>a.
     bnd (call (ret_search be)
            (LdapSearch (baseDN a) (''(sAMAccountName='' @ fmt computerName' @ '')''))) (\<lambda>r.
     first (entries r)))"

text \<open>Lines 156--164; \<open>None\<close> is the \<open>False\<close> it returns.\<close>

definition getUserInfo :: "backend \<Rightarrow> string \<Rightarrow> (string \<times> string) option comp" where
  "getUserInfo be username' =
     bnd (gets self) (\<lambda>a.
     bnd (call (ret_search be)
            (LdapSearch (baseDN a)
               (''(sAMAccountName='' @ escape_filter_chars username' @ '')''))) (\<lambda>r.
     case entries r of
       [] \<Rightarrow> thn (logging ERROR (Str (''User not found in LDAP: '' @ username')))
                 (returns None)
     | e # _ \<Rightarrow>
         (case objectSid e of
            None \<Rightarrow> raise (KeyError ''objectSid'')
          | Some sid \<Rightarrow> returns (Some (entry_dn e, sid)))))"

text \<open>
  Lines 166--211; the value is \<open>Some False\<close> for \<open>return False\<close> and \<open>None\<close> at the
  end of the function.
\<close>

definition computer_classes :: "string list" where
  "computer_classes = [''top'', ''person'', ''organizationalPerson'', ''user'', ''computer'']"

definition bypass_with_msExchStorageGroup :: "backend \<Rightarrow> ucd \<Rightarrow> bool option comp" where
  "bypass_with_msExchStorageGroup be ucd' =
     thn (logging INFO (Str
       ''Checking if `msExchStorageGroup` object exists within the schema and is vulnerable''))
    (bnd (call (ret_string be) LdapSchemaNamingContext) (\<lambda>ctx.
     bnd (call (ret_search be) (LdapSearch (Some ctx) ''(cn=ms-Exch-Storage-Group)'')) (\<lambda>r.
     if \<not> found r then
       thn (logging ERROR (Str (''Object `msExchStorageGroup` does not exist within the '' @
              ''schema, Exchange is probably not installed'')))
           (returns (Some False))
     else
       bnd (first (response r)) (\<lambda>item.
       case item of
         None \<Rightarrow> raise (KeyError ''possSuperiors'')
       | Some possSuperiors \<Rightarrow>
           if ''computer'' \<notin> set possSuperiors then
             thn (logging ERROR (Str
                    ''Object `msExchStorageGroup` not vulnerable, was probably patched''))
                 (returns (Some False))
           else
             thn (logging INFO (Str ''Object `msExchStorageGroup` exists and is vulnerable!''))
            (bnd (gets self) (\<lambda>a.
             bnd (getUserInfo be (username a)) (\<lambda>res.
             case res of
               None \<Rightarrow>
                 thn (logging ERROR (Str ''Could not find target user in domain.''))
                     (returns (Some False))
             | Some (target_dn, sid) \<Rightarrow>
                 bnd (random_string (random_source be) ascii_uppercase 8) (\<lambda>mESG_name.
                 bnd (returns (''CN='' @ mESG_name @ '','' @ target_dn)) (\<lambda>mESG_dn.
                 thn (logging INFO (Str (''Attempting to add new `msExchStorageGroup` object `''
                        @ mESG_name @ ''` under `'' @ target_dn @ ''`'')))
                (bnd (call (ret_result be)
                       (LdapAdd mESG_dn [''top'', ''container'', ''msExchStorageGroup'']
                          SecurityDescriptorAttrs)) (\<lambda>(ok, res).
                 if \<not> ok then
                   thn (logging ERROR
                          (StrWithResult ''Failed to add `msExchStorageGroup` object: '' res))
                       (returns (Some False))
                 else
                   thn (logging INFO (Str (''Added `msExchStorageGroup` object at `'' @ mESG_dn
                          @ ''`. DON'T FORGET TO CLEANUP'')))
                  (case computerName a of
                     None \<Rightarrow> raise (TypeError ''NoneType object is not subscriptable'')
                   | Some n \<Rightarrow>
                       thn (logging INFO (Str (''Attempting to create computer in `'' @
                              mESG_dn @ ''`'')))
                      (bnd (call (ret_result be)
                             (LdapAdd (''CN='' @ butlast n @ '','' @ mESG_dn) computer_classes
                                (ComputerAttrs ucd'))) (\<lambda>(ok, res).
                       if \<not> ok then
                         thn (logging ERROR
                                (StrWithResult ''Failed to add a new computer: '' res))
                             (returns (Some False))
                       else
                         thn (logging INFO (Str (''Adding new computer with username: '' @ n
                                @ '' and password: '' @ fmt (computerPassword a) @
                                '' result: OK'')))
                             (returns None)))))))))))))))"

text \<open>Lines 253--275: SetPassword and Delete.\<close>

definition ldaps_change :: "backend \<Rightarrow> unit comp" where
  "ldaps_change be =
     bnd (gets self) (\<lambda>a.
     bnd (LDAPComputerExists be (computerName a)) (\<lambda>ex.
     if \<not> ex then
       raise (Exception (Str (''Account '' @ fmt (computerName a) @ '' not found in '' @
                fmt (baseDN a) @ ''!'')))
     else
       bnd (LDAPGetComputer be (computerName a)) (\<lambda>computer.
       bnd (if delete a then
              bnd (call (ret_result be) (LdapDelete (entry_dn computer))) (\<lambda>r.
              returns (r, ''delete''))
            else
              bnd (call (ret_result be) (LdapModify (entry_dn computer) (computerPassword a)))
                (\<lambda>r.
              returns (r, ''set password for''))) (\<lambda>(r, message).
       case r of (ok, res) \<Rightarrow>
       if \<not> ok then
         (if result res = RESULT_INSUFFICIENT_ACCESS_RIGHTS then
            raise (Exception (Str (''User '' @ username a @ '' doesn't have right to '' @
                     message @ '' '' @ fmt (computerName a) @ ''!'')))
          else raise (Exception (StrOfResult res)))
       else if noAdd a then
         logging INFO (Str (''Succesfully set password of '' @ fmt (computerName a) @
           '' to '' @ fmt (computerPassword a) @ ''.''))
       else
         logging INFO (Str (''Succesfully deleted '' @ fmt (computerName a) @ ''.''))))))"

text \<open>Lines 282--285: \<open>while True\<close>, one round; returns whether to \<open>break\<close>.\<close>

definition ldap_probe_once :: "backend \<Rightarrow> bool comp" where
  "ldap_probe_once be =
     bnd (generateComputerName be) (\<lambda>n.
     thn (set_self (\<lambda>a. a\<lparr>computerName := Some n\<rparr>))
    (bnd (LDAPComputerExists be (Some n)) (\<lambda>ex.
     returns (\<not> ex))))"

partial_function (option) ldap_probe ::
    "backend \<Rightarrow> state \<Rightarrow> ((exn + unit) \<times> state) option" where
  "ldap_probe be s =
     (case ldap_probe_once be s of
        None \<Rightarrow> None
      | Some (r, s') \<Rightarrow>
          (case r of
             Inl e \<Rightarrow> Some (Inl e, s')
           | Inr stop \<Rightarrow> if stop then Some (Inr (), s') else ldap_probe be s'))"

text \<open>
  Line 309: \<open>int(ldapConn.result['message'].split(':')[0].strip(), 16)\<close>, the
  sub-code at the head of the message.
\<close>

definition sub_code :: "ldap_result \<Rightarrow> int comp" where
  "sub_code res = bnd (first (py_split CHR '':'' (message res))) (\<lambda>w. int16 (py_strip w))"

text \<open>Lines 307--322: what follows the \<open>add\<close> of the computer entry.\<close>

definition ldaps_added :: "backend \<Rightarrow> ucd \<Rightarrow> bool \<times> ldap_result \<Rightarrow> unit comp" where
  "ldaps_added be ucd' r =
     bnd (gets self) (\<lambda>a.
     case r of (ok, res) \<Rightarrow>
     if \<not> ok then
       (if result res = RESULT_UNWILLING_TO_PERFORM then
          bnd (sub_code res) (\<lambda>error_code.
          if error_code = 0x216D then
            thn (logging CRITICAL (Str (''User '' @ username a @
                   '' machine quota exceeded!'')))
                (if_then (endswith (username a) CHR ''$'')
                   (thn (logging INFO (Str
                           ''Trying to bypass machine quota with `msExchStorageGroup` object''))
                        (bnd (bypass_with_msExchStorageGroup be ucd') (\<lambda>_. returns ()))))
          else raise (Exception (StrOfResult res)))
        else if result res = RESULT_INSUFFICIENT_ACCESS_RIGHTS then
          raise (Exception (Str (''User '' @ username a @
                   '' doesn't have right to create a machine account!'')))
        else raise (Exception (StrOfResult res)))
     else
       logging INFO (Str (''Successfully added machine account '' @ fmt (computerName a) @
         '' with password '' @ fmt (computerPassword a) @ ''.'')))"

text \<open>Lines 278--322: Create.\<close>

definition ldaps_create :: "backend \<Rightarrow> unit comp" where
  "ldaps_create be =
     bnd (gets self) (\<lambda>a.
     thn (if computerName a \<noteq> None then
            bnd (LDAPComputerExists be (computerName a)) (\<lambda>ex.
            if_then ex
              (raise (Exception (Str (''Account '' @ fmt (computerName a) @
                 '' already exists! If you just want to set a password, use -no-add.'')))))
          else ldap_probe be)
    (bnd (gets self) (\<lambda>a.
     case computerName a of
       None \<Rightarrow> raise (TypeError ''NoneType object is not subscriptable'')
     | Some n \<Rightarrow>
         bnd (returns (butlast n)) (\<lambda>computerHostname.
         bnd (returns (''CN='' @ computerHostname @ '','' @ fmt (computerGroup a))) (\<lambda>computerDn.
         bnd (returns
                \<lparr> dnsHostName = computerHostname @ ''.'' @ domain a,
                  userAccountControl = 0x1000,
                  servicePrincipalName =
                    [''HOST/'' @ computerHostname,
                     ''HOST/'' @ computerHostname @ ''.'' @ domain a,
                     ''RestrictedKrbHost/'' @ computerHostname,
                     ''RestrictedKrbHost/'' @ computerHostname @ ''.'' @ domain a],
                  sAMAccountName = n,
                  unicodePwd = [CHR 0x22] @ fmt (computerPassword a) @ [CHR 0x22] \<rparr>) (\<lambda>ucd'.
         bnd (call (ret_result be) (LdapAdd computerDn computer_classes (ComputerAttrs ucd')))
           (\<lambda>r.
         ldaps_added be ucd' r)))))))"

text \<open>Lines 217--322: the body of the \<open>try\<close>.\<close>

definition ldaps_try :: "backend \<Rightarrow> string option \<Rightarrow> unit comp" where
  "ldaps_try be connectTo =
     thn (ldap_session be connectTo)
    (bnd (gets self) (\<lambda>a.
     if noAdd a \<or> delete a then ldaps_change be else ldaps_create be))"

text \<open>Lines 213--328.\<close>

definition run_ldaps :: "backend \<Rightarrow> unit comp" where
  "run_ldaps be =
     bnd (gets self) (\<lambda>a.
     bnd (returns (if targetIp a \<noteq> None then targetIp a else target a)) (\<lambda>connectTo.
     try_except (ldaps_try be connectTo) (except_handler be)))"

text \<open>Lines 463--467.\<close>

definition run :: "backend \<Rightarrow> unit comp" where
  "run be =
     bnd (gets self) (\<lambda>a.
     if methodName a = ''SAMR'' then run_samr be
     else if methodName a = ''LDAPS'' then run_ldaps be
     else returns ())"

section \<open>Assertions about runs\<close>

text \<open>
  \<open>triple P m Q E\<close>: from a state satisfying \<open>P\<close>, a run of \<open>m\<close> that returns
  \<open>x\<close> ends in a state satisfying \<open>Q x\<close>, and one that raises \<open>e\<close> ends in a state
  satisfying \<open>E e\<close>. \<open>total m\<close>: \<open>m\<close> always returns or raises.
\<close>

definition triple :: "(state \<Rightarrow> bool) \<Rightarrow> 'a comp \<Rightarrow> ('a \<Rightarrow> state \<Rightarrow> bool) \<Rightarrow> (exn \<Rightarrow> state \<Rightarrow> bool) \<Rightarrow> bool" where
  "triple P m Q E =
     (\<forall>s. P s \<longrightarrow> (case m s of None \<Rightarrow> True
                      | Some (Inl e, s') \<Rightarrow> E e s'
                      | Some (Inr x, s') \<Rightarrow> Q x s'))"

definition total :: "'a comp \<Rightarrow> bool" where
  "total m = (\<forall>s. m s \<noteq> None)"

fun is_log :: "event \<Rightarrow> bool" where
  "is_log (Log l t) = True"
| "is_log _ = False"

definition logs_since :: "event list \<Rightarrow> state \<Rightarrow> bool" where
  "logs_since t0 s = (\<exists>ws. trace s = t0 @ ws \<and> list_all is_log ws)"

definition unnamed :: "event list \<Rightarrow> state \<Rightarrow> bool" where
  "unnamed t0 s = (computerName (self s) = None \<and> (noAdd (self s) \<or> delete (self s)) \<and> logs_since t0 s)"

definition value_error :: "event list \<Rightarrow> exn \<Rightarrow> state \<Rightarrow> bool" where
  "value_error t0 e s = ((\<exists>m. e = ValueError m) \<and> logs_since t0 s)"

section \<open>Concrete inputs\<close>

text \<open>A blank object and an empty run, before \<open>__init__\<close>.\<close>

definition blank :: addcomputer where
  "blank = init_fields [] [] []
     \<lparr> opt_hashes = None, opt_aesKey = None, opt_k = False, opt_dc_host = None,
       opt_computer_name = None, opt_computer_pass = None, opt_method = [],
       opt_port = None, opt_domain_netbios = None, opt_no_add = False,
       opt_delete = False, opt_dc_ip = None, opt_baseDN = None,
       opt_computer_group = None \<rparr>"

definition start :: state where
  "start = \<lparr> self = blank, trace = [], rng = 0, servHandle = None, domainHandle = None,
             userHandle = None \<rparr>"

text \<open>\<open>addcomputer.py -method SAMR corp.local/user:pw\<close>\<close>

definition plain_options :: options where
  "plain_options =
     \<lparr> opt_hashes = None, opt_aesKey = None, opt_k = False, opt_dc_host = None,
       opt_computer_name = None, opt_computer_pass = None, opt_method = ''SAMR'',
       opt_port = None, opt_domain_netbios = None, opt_no_add = False,
       opt_delete = False, opt_dc_ip = None, opt_baseDN = None,
       opt_computer_group = None \<rparr>"

text \<open>Assertions on the computer name, and the name \<open>__init__\<close> leaves.\<close>

definition named :: "string option \<Rightarrow> state \<Rightarrow> bool" where
  "named c s = (computerName (self s) = c)"

definition anything :: "exn \<Rightarrow> state \<Rightarrow> bool" where
  "anything e s = True"

definition resolved :: "string \<Rightarrow> string" where
  "resolved n = (if last n \<noteq> CHR ''$'' then n @ ''$'' else n)"

text \<open>The pattern \<open>DESKTOP-[A-Z0-9]{8}$\<close>.\<close>

definition generated_name :: "string \<Rightarrow> bool" where
  "generated_name n =
     (length n = 17 \<and> take 8 n = ''DESKTOP-'' \<and>
      list_all (\<lambda>c. c \<in> set (ascii_uppercase @ digits)) (take 8 (drop 8 n)) \<and>
      drop 16 n = ''$'')"

text \<open>
  A server on which no account exists yet and every call succeeds: name lookups fail
  with \<open>0xc0000073\<close> until an account has been created, searches find nothing, handles
  are numbered by the length of the history.
\<close>

fun is_create :: "event \<Rightarrow> bool" where
  "is_create (HSamrCreateUser2InDomain h n) = True"
| "is_create _ = False"

definition fresh_server :: backend where
  "fresh_server =
     \<lparr> ret_unit = (\<lambda>tr. Inr ()),
       ret_string = (\<lambda>tr. Inr ''S-1-5-21''),
       ret_handle = (\<lambda>tr. Inr (length tr)),
       ret_names = (\<lambda>tr. Inr [''Builtin'', ''CORP'']),
       ret_rids = (\<lambda>tr. if list_ex is_create tr then Inr [1104]
                          else Inl (DCERPCSessionError 0xc0000073 ''STATUS_NONE_MAPPED'')),
       ret_search = (\<lambda>tr. Inr \<lparr> found = False, entries = [], response = [] \<rparr>),
       ret_result = (\<lambda>tr. Inr (True, \<lparr> result = 0, message = [] \<rparr>)),
       random_source = (\<lambda>i. 0),
       has_set_credentials = True,
       debug = False \<rparr>"

definition samr_absent :: "backend \<Rightarrow> handle \<Rightarrow> state \<Rightarrow> bool" where
  "samr_absent be dh s =
     (case computerName (self s) of
        None \<Rightarrow> False
      | Some n \<Rightarrow>
          generated_name n \<and> trace s \<noteq> [] \<and>
          last (trace s) = HSamrLookupNamesInDomain dh (Some n) \<and>
          (case ret_rids be (trace s) of
             Inl (DCERPCSessionError c m) \<Rightarrow> c = 0xc0000073
           | _ \<Rightarrow> False))"

definition ldap_absent :: "backend \<Rightarrow> state \<Rightarrow> bool" where
  "ldap_absent be s =
     (case computerName (self s) of
        None \<Rightarrow> False
      | Some n \<Rightarrow>
          generated_name n \<and> trace s \<noteq> [] \<and>
          last (trace s) = LdapSearch (baseDN (self s)) (''(sAMAccountName='' @ n @ '')'') \<and>
          (case ret_search be (trace s) of
             Inr r \<Rightarrow> length (entries r) \<noteq> 1
           | Inl e \<Rightarrow> False))"

text \<open>
  The first log record of \<open>bypass_with_msExchStorageGroup\<close> marks one attempt of the
  fallback.
\<close>

definition is_bypass_start :: "event \<Rightarrow> bool" where
  "is_bypass_start ev = (ev = Log INFO (Str
     ''Checking if `msExchStorageGroup` object exists within the schema and is vulnerable''))"

definition bypass_attempts :: "event list \<Rightarrow> nat" where
  "bypass_attempts tr = length (filter is_bypass_start tr)"

definition attempts :: "nat \<Rightarrow> state \<Rightarrow> bool" where
  "attempts k s = (bypass_attempts (trace s) = k)"

definition quota_message :: string where
  "quota_message = ''0000216D: SvcErr: DSID-031A1254, problem 5003 (WILL_NOT_PERFORM), data 0''"

definition no_ucd :: ucd where
  "no_ucd = \<lparr> dnsHostName = [], userAccountControl = 0, servicePrincipalName = [],
              sAMAccountName = [], unicodePwd = [] \<rparr>"

text \<open>The kinds of events, by the part of the script that makes them.\<close>

fun is_report :: "event \<Rightarrow> bool" where
  "is_report (Log l t) = True"
| "is_report (PrintExc e) = True"
| "is_report _ = False"

fun is_setup :: "event \<Rightarrow> bool" where
  "is_setup (Hept_map h) = True"
| "is_setup (DCERPCTransportFactory b) = True"
| "is_setup (Set_dport p) = True"
| "is_setup (SetRemoteHost h) = True"
| "is_setup (SetRemoteName h) = True"
| "is_setup (Set_credentials u p d l n a) = True"
| "is_setup (Set_kerberos k h) = True"
| "is_setup Get_dce_rpc = True"
| "is_setup _ = False"

fun is_open_domain_call :: "event \<Rightarrow> bool" where
  "is_open_domain_call Connect = True"
| "is_open_domain_call Bind = True"
| "is_open_domain_call (HSamrConnect5 n) = True"
| "is_open_domain_call (HSamrEnumerateDomainsInSamServer h) = True"
| "is_open_domain_call (HSamrLookupDomainInSamServer h n) = True"
| "is_open_domain_call (HSamrOpenDomain h sid) = True"
| "is_open_domain_call _ = False"

fun is_user_call :: "event \<Rightarrow> bool" where
  "is_user_call (HSamrLookupNamesInDomain h n) = True"
| "is_user_call (HSamrOpenUser h a r) = True"
| "is_user_call (HSamrCreateUser2InDomain h n) = True"
| "is_user_call (HSamrDeleteUser h) = True"
| "is_user_call (HSamrSetPasswordInternal4New h p) = True"
| "is_user_call (HSamrSetInformationUser2 h) = True"
| "is_user_call _ = False"

fun is_teardown :: "event \<Rightarrow> bool" where
  "is_teardown (HSamrCloseHandle h) = True"
| "is_teardown Disconnect = True"
| "is_teardown _ = False"

fun is_session_call :: "event \<Rightarrow> bool" where
  "is_session_call (LdapTls v) = True"
| "is_session_call (LdapServer h p) = True"
| "is_session_call (LdapConnection c) = True"
| "is_session_call Ldap3_kerberos_login = True"
| "is_session_call LdapBind = True"
| "is_session_call _ = False"

fun is_directory_call :: "event \<Rightarrow> bool" where
  "is_directory_call (LdapSearch b f) = True"
| "is_directory_call LdapSchemaNamingContext = True"
| "is_directory_call (LdapAdd dn cs as) = True"
| "is_directory_call (LdapModify dn p) = True"
| "is_directory_call (LdapDelete dn) = True"
| "is_directory_call _ = False"

text \<open>
  \<open>closed I A\<close>: the assertion \<open>I\<close> survives every event of kind \<open>A\<close> and every
  draw from the random source; \<open>closed_vars I\<close>: it survives every assignment to a
  handle variable; \<open>closed_name I\<close>: it survives the assignment of a computer name.
\<close>

definition closed :: "(state \<Rightarrow> bool) \<Rightarrow> (event \<Rightarrow> bool) \<Rightarrow> bool" where
  "closed I A =
     (\<forall>s. I s \<longrightarrow>
        (\<forall>ev. A ev \<longrightarrow> I (s\<lparr>trace := trace s @ [ev]\<rparr>)) \<and>
        (\<forall>i. I (s\<lparr>rng := i\<rparr>)))"

definition closed_vars :: "(state \<Rightarrow> bool) \<Rightarrow> bool" where
  "closed_vars I =
     (\<forall>s. I s \<longrightarrow>
        (\<forall>h. I (s\<lparr>servHandle := h\<rparr>)) \<and>
        (\<forall>h. I (s\<lparr>domainHandle := h\<rparr>)) \<and>
        (\<forall>h. I (s\<lparr>userHandle := h\<rparr>)))"

definition closed_name :: "(state \<Rightarrow> bool) \<Rightarrow> bool" where
  "closed_name I = (\<forall>s n. I s \<longrightarrow> I (s\<lparr>self := (self s)\<lparr>computerName := Some n\<rparr>\<rparr>))"

text \<open>
  \<open>same_but_name a s\<close>: the object of state \<open>s\<close> is \<open>a\<close>, the computer name apart;
  \<open>same_object a s\<close>: it is \<open>a\<close>.
\<close>

definition same_but_name :: "addcomputer \<Rightarrow> state \<Rightarrow> bool" where
  "same_but_name a s = (self s = a\<lparr>computerName := computerName (self s)\<rparr>)"

definition same_object :: "addcomputer \<Rightarrow> state \<Rightarrow> bool" where
  "same_object a s = (self s = a)"

definition any_event :: "event \<Rightarrow> bool" where
  "any_event e = True"

text \<open>
  The object that \<open>__init__\<close> leaves for
  \<open>addcomputer.py -computer-name PC1 corp.local/user:pw\<close> when every random choice
  takes the first element, and the same for \<open>-method LDAPS\<close> with and without a name.
\<close>

definition pc1 :: addcomputer where
  "pc1 = \<lparr> username = ''user'', password = ''pw'', domain = ''corp.local'', lmhash = [],
           nthash = [], hashes = None, aesKey = None, doKerberos = False,
           target = Some ''corp.local'', kdcHost = None, computerName = Some ''PC1$'',
           computerPassword = Some (replicate 32 CHR ''a''), methodName = ''SAMR'',
           port = Some 445, domainNetbios = Some ''corp.local'', noAdd = False, delete = False,
           targetIp = None, baseDN = None, computerGroup = None \<rparr>"

definition pc1_ldaps :: addcomputer where
  "pc1_ldaps = pc1\<lparr> methodName := ''LDAPS'', port := Some 636,
                     baseDN := Some ''dc=corp,dc=local'',
                     computerGroup := Some ''CN=Computers,dc=corp,dc=local'' \<rparr>"

definition unnamed_ldaps :: addcomputer where
  "unnamed_ldaps = pc1_ldaps\<lparr> computerName := None \<rparr>"

text \<open>
  A server whose connection breaks after \<open>k\<close> events: it behaves as
  \<open>fresh_server\<close> as long as the history has at most \<open>k\<close> events, and from then on
  every call raises.
\<close>

definition broken :: "nat \<Rightarrow> (event list \<Rightarrow> exn + 'a) \<Rightarrow> event list \<Rightarrow> exn + 'a" where
  "broken k oracle tr = (if length tr > k then Inl (LibraryError ''Broken pipe'') else oracle tr)"

definition drops_after :: "nat \<Rightarrow> backend" where
  "drops_after k =
     \<lparr> ret_unit = broken k (ret_unit fresh_server),
       ret_string = broken k (ret_string fresh_server),
       ret_handle = broken k (ret_handle fresh_server),
       ret_names = broken k (ret_names fresh_server),
       ret_rids = broken k (ret_rids fresh_server),
       ret_search = broken k (ret_search fresh_server),
       ret_result = broken k (ret_result fresh_server),
       random_source = random_source fresh_server,
       has_set_credentials = True,
       debug = False \<rparr>"

text \<open>A server on which the account \<open>PC1$\<close> exists.\<close>

definition existing_server :: backend where
  "existing_server =
     fresh_server
       \<lparr> ret_rids := (\<lambda>tr. Inr [1104]),
         ret_search := (\<lambda>tr. Inr \<lparr> found = True,
            entries = [\<lparr> entry_dn = ''CN=PC1,CN=Computers,dc=corp,dc=local'',
                         objectSid = Some ''S-1-5-21-1104'' \<rparr>],
            response = [] \<rparr>) \<rparr>"

text \<open>The calls of the \<open>finally\<close> block for given values of the three handle variables.\<close>

definition closes :: "handle option \<Rightarrow> event list" where
  "closes h = (case h of None \<Rightarrow> [] | Some x \<Rightarrow> [HSamrCloseHandle x])"

definition teardown :: "handle option \<Rightarrow> handle option \<Rightarrow> handle option \<Rightarrow> event list" where
  "teardown uh dh sh = closes uh @ closes dh @ closes sh @ [Disconnect]"

text \<open>\<open>since A t0 s\<close>: the trace of \<open>s\<close> is \<open>t0\<close> followed by events of kind \<open>A\<close>.\<close>

definition since :: "(event \<Rightarrow> bool) \<Rightarrow> event list \<Rightarrow> state \<Rightarrow> bool" where
  "since A t0 s = (\<exists>evs. trace s = t0 @ evs \<and> list_all A evs)"

definition not_teardown :: "event \<Rightarrow> bool" where
  "not_teardown e = (\<not> is_teardown e)"

text \<open>What the handler of \<open>except Exception\<close> appends to the trace.\<close>

definition reported :: "backend \<Rightarrow> exn \<Rightarrow> event list" where
  "reported be e = (if debug be then [PrintExc e] else []) @ [Log CRITICAL (str_exn e)]"

text \<open>
  The calls that create an entry or an account, and the error of lines 279 and 410.
\<close>

fun is_creation :: "event \<Rightarrow> bool" where
  "is_creation (LdapAdd dn cs as) = True"
| "is_creation (HSamrCreateUser2InDomain h n) = True"
| "is_creation _ = False"

definition already_exists :: "string \<Rightarrow> exn" where
  "already_exists n =
     Exception (Str (''Account '' @ n @
       '' already exists! If you just want to set a password, use -no-add.''))"

text \<open>
  \<open>user_phase s t\<close>: state \<open>t\<close> comes from \<open>s\<close> by events other than close-handle and
  disconnect and by assignments of the computer name.
\<close>

definition user_phase :: "state \<Rightarrow> state \<Rightarrow> bool" where
  "user_phase s t =
     (since not_teardown (trace s) t \<and> servHandle t = servHandle s \<and>
      domainHandle t = domainHandle s \<and> userHandle t = userHandle s \<and>
      same_but_name (self s) t)"

section \<open>Rules for the assertions\<close>

lemma tripleD:
  "triple P m Q E \<Longrightarrow> P s \<Longrightarrow> m s = Some (r, s') \<Longrightarrow> (case r of Inl e \<Rightarrow> E e s' | Inr x \<Rightarrow> Q x s')"
  by (auto simp: triple_def split: sum.splits)

lemma triple_bnd:
  "triple P m R E \<Longrightarrow> (\<And>x. triple (R x) (f x) Q E) \<Longrightarrow> triple P (bnd m f) Q E"
  unfolding triple_def bnd_def
  by (fastforce split: option.splits sum.splits prod.splits)

lemma triple_thn:
  "triple P m (\<lambda>_. R) E \<Longrightarrow> triple R n Q E \<Longrightarrow> triple P (thn m n) Q E"
  unfolding thn_def by (rule triple_bnd)

lemma triple_returns: "(\<And>s. P s \<Longrightarrow> Q x s) \<Longrightarrow> triple P (returns x) Q E"
  by (simp add: triple_def returns_def)

lemma triple_raise: "(\<And>s. P s \<Longrightarrow> E e s) \<Longrightarrow> triple P (raise e) Q E"
  by (simp add: triple_def raise_def)

lemma triple_gets: "(\<And>s. P s \<Longrightarrow> Q (f s) s) \<Longrightarrow> triple P (gets f) Q E"
  by (simp add: triple_def gets_def)

lemma triple_modify: "(\<And>s. P s \<Longrightarrow> Q () (f s)) \<Longrightarrow> triple P (modify f) Q E"
  by (simp add: triple_def modify_def)

lemma triple_if_then:
  "(c \<Longrightarrow> triple P m Q E) \<Longrightarrow> (\<And>s. \<not> c \<Longrightarrow> P s \<Longrightarrow> Q () s) \<Longrightarrow> triple P (if_then c m) Q E"
  by (simp add: triple_def if_then_def returns_def)

lemma triple_false: "triple (\<lambda>_. False) m Q E"
  by (simp add: triple_def)

lemma triple_pre: "triple P' m Q E \<Longrightarrow> (\<And>s. P s \<Longrightarrow> P' s) \<Longrightarrow> triple P m Q E"
  by (simp add: triple_def)

lemma total_bnd: "total m \<Longrightarrow> (\<And>x. total (f x)) \<Longrightarrow> total (bnd m f)"
  by (auto simp: total_def bnd_def split: option.splits sum.splits prod.splits)

lemma total_thn: "total m \<Longrightarrow> total n \<Longrightarrow> total (thn m n)"
  unfolding thn_def by (rule total_bnd)

lemma total_prims:
  "total (returns x)" "total (raise e)" "total (gets f)" "total (modify g)"
  "total (set_self h)" "total (logging l t)" "total (call oracle ev)" "total (random_choice rand seq)"
  by (simp_all add: total_def returns_def raise_def gets_def modify_def set_self_def logging_def
      call_def random_choice_def Let_def)

lemma total_if_then: "(c \<Longrightarrow> total m) \<Longrightarrow> total (if_then c m)"
  by (simp add: if_then_def total_prims)

lemma total_random_string: "total (random_string rand al n)"
  by (induction n) (auto intro!: total_bnd total_prims)

lemma logs_since_log: "logs_since t0 s \<Longrightarrow> logs_since t0 (s\<lparr>trace := trace s @ [Log l t]\<rparr>)"
  by (auto simp: logs_since_def)

lemma logs_since_self: "logs_since t0 (s\<lparr>self := a\<rparr>) = logs_since t0 s"
  by (simp add: logs_since_def)

lemma total_unpack_hashes: "total (unpack_hashes hs)"
  by (simp add: unpack_hashes_def total_prims split: list.splits)

lemma unpack_hashes_unnamed:
  "triple (unnamed t0) (unpack_hashes hs) (\<lambda>_. unnamed t0) (value_error t0)"
  by (auto simp: unpack_hashes_def triple_def returns_def raise_def unnamed_def value_error_def
      split: list.splits)

lemma init_hashes_unnamed:
  "triple (unnamed t0) init_hashes (\<lambda>_. unnamed t0) (value_error t0)"
  unfolding init_hashes_def
  apply (rule triple_bnd[where R = "\<lambda>_. unnamed t0"])
   apply (rule triple_gets, assumption)
  apply (rule triple_bnd[where R = "\<lambda>_. unnamed t0"])
   apply (simp split: option.splits add: unpack_hashes_unnamed triple_returns)
  apply (clarsimp simp: set_self_def)
  apply (rule triple_if_then)
   apply (rule triple_modify)
   apply (simp add: unnamed_def logs_since_self)
  apply assumption
  done

lemma total_init_hashes: "total init_hashes"
  unfolding init_hashes_def
  by (auto intro!: total_bnd total_prims total_if_then total_unpack_hashes split: option.splits)

lemma init_checks_unnamed:
  "triple (unnamed t0) (init_checks opts) (\<lambda>_. unnamed t0) (value_error t0)"
  unfolding init_checks_def
  apply (rule triple_bnd[where R = "\<lambda>_. unnamed t0"])
   apply (rule triple_gets, assumption)
  apply (rule triple_thn[where R = "unnamed t0"])
   apply (rule triple_if_then)
    apply (simp add: set_self_def)
    apply (rule triple_modify)
    apply (simp add: unnamed_def logs_since_self)
   apply assumption
  apply (rule triple_thn[where R = "unnamed t0"])
   apply (rule triple_if_then)
    apply (rule triple_raise)
    apply (simp add: unnamed_def value_error_def)
   apply assumption
  apply (rule triple_thn[where R = "unnamed t0"])
   apply (rule triple_if_then)
    apply (rule triple_raise)
    apply (simp add: unnamed_def value_error_def)
   apply assumption
  apply (rule triple_thn[where R = "unnamed t0"])
   apply (rule triple_if_then)
    apply (simp add: logging_def)
    apply (rule triple_modify)
    apply (simp add: unnamed_def logs_since_log)
   apply assumption
  apply (cases "opt_hashes opts")
   apply (simp add: triple_returns)
  apply simp
  apply (rule triple_bnd[where R = "\<lambda>_. unnamed t0"])
   apply (rule unpack_hashes_unnamed)
  apply (clarsimp simp: set_self_def)
  apply (rule triple_modify)
  apply (simp add: unnamed_def logs_since_self)
  done

lemma total_init_checks: "total (init_checks opts)"
  unfolding init_checks_def
  by (auto intro!: total_bnd total_thn total_prims total_if_then total_unpack_hashes split: option.splits)

lemma init_computerName_unnamed:
  "triple (unnamed t0) init_computerName (\<lambda>_ _. False) (value_error t0)"
  by (auto simp: triple_def init_computerName_def bnd_def gets_def raise_def unnamed_def value_error_def)

lemma total_init_computerName: "total init_computerName"
  unfolding init_computerName_def
  by (auto intro!: total_bnd total_prims total_if_then split: option.splits)

lemma total_init_defaults: "total (init_defaults rand)"
  unfolding init_defaults_def
  by (auto intro!: total_bnd total_thn total_prims total_if_then total_random_string split: option.splits)

lemma total_init: "total (init rand usr pwd dmn opts)"
  unfolding init_def
  by (intro total_thn total_prims total_init_hashes total_init_checks total_init_computerName total_init_defaults)

lemma init_unnamed:
  "triple (unnamed t0) (thn init_hashes (thn (init_checks opts) (thn init_computerName (init_defaults rand))))
     (\<lambda>_ _. False) (value_error t0)"
  by (intro triple_thn[where R = "unnamed t0"] triple_thn[where R = "\<lambda>_. False"]
      init_hashes_unnamed init_checks_unnamed init_computerName_unnamed triple_false)

section \<open>Resolution of the options\<close>

text \<open>
  C6. When the operation is SetPassword (\<open>-no-add\<close>) or Delete (\<open>-delete\<close>) and no
  computer name is given, \<open>__init__\<close> raises a \<open>ValueError\<close>, whatever the other
  options are, and up to that point it has only written log records: no call to a
  protocol collaborator is made.
\<close>

theorem init_requires_computer_name:
  assumes "opt_computer_name opts = None" and "opt_no_add opts \<or> opt_delete opts"
  shows "\<exists>m ws s'. init rand usr pwd dmn opts s = Some (Inl (ValueError m), s') \<and>
           trace s' = trace s @ ws \<and> list_all is_log ws"
proof -
  let ?s1 = "s\<lparr>self := init_fields usr pwd dmn opts\<rparr>"
  let ?rest = "thn init_hashes (thn (init_checks opts) (thn init_computerName (init_defaults rand)))"
  have eq: "init rand usr pwd dmn opts s = ?rest ?s1"
    by (simp add: init_def thn_def bnd_def set_self_def modify_def)
  have pre: "unnamed (trace s) ?s1"
    using assms by (simp add: unnamed_def logs_since_def init_fields_def)
  obtain r s' where run: "init rand usr pwd dmn opts s = Some (r, s')"
    using total_init[of rand usr pwd dmn opts] by (fastforce simp: total_def)
  from tripleD[OF init_unnamed pre] run eq
  have "case r of Inl e \<Rightarrow> value_error (trace s) e s' | Inr x \<Rightarrow> False"
    by simp
  then show ?thesis
    using run by (auto simp: value_error_def logs_since_def split: sum.splits)
qed

theorem init_requires_computer_name_witness:
  "opt_computer_name (plain_options\<lparr>opt_delete := True\<rparr>) = None \<and>
   (opt_no_add (plain_options\<lparr>opt_delete := True\<rparr>) \<or>
    opt_delete (plain_options\<lparr>opt_delete := True\<rparr>)) \<and>
   (\<exists>m ws s'. init (\<lambda>_. 0) ''user'' ''pw'' ''corp.local''
        (plain_options\<lparr>opt_delete := True\<rparr>) start = Some (Inl (ValueError m), s') \<and>
      trace s' = trace start @ ws \<and> list_all is_log ws)"
  using init_requires_computer_name
    [where opts = "plain_options\<lparr>opt_delete := True\<rparr>" and rand = "\<lambda>_. 0"
       and usr = "''user''" and pwd = "''pw''" and dmn = "''corp.local''" and s = start]
  by (simp add: plain_options_def)

lemma tripleI:
  "(\<And>s r s'. P s \<Longrightarrow> m s = Some (r, s') \<Longrightarrow> (case r of Inl e \<Rightarrow> E e s' | Inr x \<Rightarrow> Q x s'))
   \<Longrightarrow> triple P m Q E"
  unfolding triple_def
proof (intro allI impI)
  fix s assume a: "\<And>s r s'. P s \<Longrightarrow> m s = Some (r, s') \<Longrightarrow> (case r of Inl e \<Rightarrow> E e s' | Inr x \<Rightarrow> Q x s')"
    and p: "P s"
  show "case m s of None \<Rightarrow> True | Some (Inl e, s') \<Rightarrow> E e s' | Some (Inr x, s') \<Rightarrow> Q x s'"
  proof (cases "m s")
    case None then show ?thesis by simp
  next
    case (Some q)
    obtain r s' where q: "q = (r, s')" by (cases q)
    from a[OF p, of r s'] Some q show ?thesis by (cases r) simp_all
  qed
qed

lemma try_except_cases:
  assumes "try_except m h s = Some (r, s')"
  shows "(\<exists>x. m s = Some (Inr x, s') \<and> r = Inr x) \<or>
         (\<exists>e s1. m s = Some (Inl e, s1) \<and> h e s1 = Some (r, s'))"
proof (cases "m s")
  case None with assms show ?thesis by (simp add: try_except_def)
next
  case (Some q)
  obtain r1 s1 where q: "q = (r1, s1)" by (cases q)
  show ?thesis using assms Some q by (cases r1) (auto simp: try_except_def)
qed

lemma try_finally_cases:
  assumes "try_finally m fin s = Some (r, s')"
  shows "\<exists>r1 s1 r2. m s = Some (r1, s1) \<and> fin s1 = Some (r2, s') \<and>
           (case r2 of Inl e \<Rightarrow> r = Inl e | Inr _ \<Rightarrow> r = r1)"
proof (cases "m s")
  case None with assms show ?thesis by (simp add: try_finally_def)
next
  case (Some q)
  obtain r1 s1 where q: "q = (r1, s1)" by (cases q)
  show ?thesis
  proof (cases "fin s1")
    case None with assms Some q show ?thesis by (simp add: try_finally_def)
  next
    case fs: (Some q2)
    obtain r2 s2 where q2: "q2 = (r2, s2)" by (cases q2)
    show ?thesis using assms Some q fs q2 by (cases r2) (auto simp: try_finally_def)
  qed
qed

lemma bnd_cases:
  assumes "bnd m f s = Some (r, s')"
  shows "(\<exists>e. m s = Some (Inl e, s') \<and> r = Inl e) \<or>
         (\<exists>x s1. m s = Some (Inr x, s1) \<and> f x s1 = Some (r, s'))"
proof (cases "m s")
  case None with assms show ?thesis by (simp add: bnd_def)
next
  case (Some q)
  obtain r1 s1 where q: "q = (r1, s1)" by (cases q)
  show ?thesis using assms Some q by (cases r1) (auto simp: bnd_def)
qed

lemma inv_try_except:
  assumes "triple I m (\<lambda>_. I) (\<lambda>_. I)" and "\<And>e. triple I (h e) (\<lambda>_. I) E"
  shows "triple I (try_except m h) (\<lambda>_. I) E"
proof (rule tripleI)
  fix s r s' assume p: "I s" and run: "try_except m h s = Some (r, s')"
  from try_except_cases[OF run]
  show "case r of Inl e \<Rightarrow> E e s' | Inr x \<Rightarrow> I s'"
  proof
    assume "\<exists>x. m s = Some (Inr x, s') \<and> r = Inr x"
    then obtain x where "m s = Some (Inr x, s')" "r = Inr x" by blast
    with tripleD[OF assms(1) p, of "Inr x" s'] show ?thesis by simp
  next
    assume "\<exists>e s1. m s = Some (Inl e, s1) \<and> h e s1 = Some (r, s')"
    then obtain e s1 where 1: "m s = Some (Inl e, s1)" and 2: "h e s1 = Some (r, s')" by blast
    from tripleD[OF assms(1) p 1] have "I s1" by simp
    from tripleD[OF assms(2) this 2] show ?thesis .
  qed
qed

lemma inv_try_finally:
  assumes "triple I m (\<lambda>_. I) (\<lambda>_. I)" and "triple I fin (\<lambda>_. I) (\<lambda>_. I)"
  shows "triple I (try_finally m fin) (\<lambda>_. I) (\<lambda>_. I)"
proof (rule tripleI)
  fix s r s' assume p: "I s" and run: "try_finally m fin s = Some (r, s')"
  from try_finally_cases[OF run] obtain r1 s1 r2 where
    1: "m s = Some (r1, s1)" and 2: "fin s1 = Some (r2, s')" by blast
  from tripleD[OF assms(1) p 1] have "I s1" by (cases r1) simp_all
  from tripleD[OF assms(2) this 2] have "I s'" by (cases r2) simp_all
  then show "case r of Inl e \<Rightarrow> I s' | Inr x \<Rightarrow> I s'" by (cases r) simp_all
qed

lemma inv_call:
  assumes "\<And>s. I s \<Longrightarrow> I (s\<lparr>trace := trace s @ [ev]\<rparr>)"
  shows "triple I (call oracle ev) (\<lambda>_. I) (\<lambda>_. I)"
proof (rule tripleI)
  fix s r s' assume p: "I s" and run: "call oracle ev s = Some (r, s')"
  then have "s' = s\<lparr>trace := trace s @ [ev]\<rparr>" by (simp add: call_def Let_def)
  with assms[OF p] show "case r of Inl e \<Rightarrow> I s' | Inr x \<Rightarrow> I s'" by (cases r) simp_all
qed

lemma inv_bnd:
  "triple I m (\<lambda>_. I) E \<Longrightarrow> (\<And>x. triple I (f x) (\<lambda>_. I) E) \<Longrightarrow> triple I (bnd m f) (\<lambda>_. I) E"
  by (rule triple_bnd)

lemma inv_thn:
  "triple I m (\<lambda>_. I) E \<Longrightarrow> triple I n (\<lambda>_. I) E \<Longrightarrow> triple I (thn m n) (\<lambda>_. I) E"
  by (rule triple_thn)

lemma inv_returns: "triple I (returns x) (\<lambda>_. I) E"
  by (simp add: triple_def returns_def)

lemma inv_gets: "triple I (gets f) (\<lambda>_. I) E"
  by (simp add: triple_def gets_def)

lemma inv_if_then: "(c \<Longrightarrow> triple I m (\<lambda>_. I) E) \<Longrightarrow> triple I (if_then c m) (\<lambda>_. I) E"
  by (simp add: if_then_def inv_returns)

lemma inv_if:
  "(c \<Longrightarrow> triple I m Q E) \<Longrightarrow> (\<not> c \<Longrightarrow> triple I n Q E) \<Longrightarrow> triple I (if c then m else n) Q E"
  by simp

lemma inv_case_option:
  "(x = None \<Longrightarrow> triple I m Q E) \<Longrightarrow> (\<And>y. x = Some y \<Longrightarrow> triple I (f y) Q E)
   \<Longrightarrow> triple I (case x of None \<Rightarrow> m | Some y \<Rightarrow> f y) Q E"
  by (cases x) simp_all

lemma inv_case_list:
  "(xs = [] \<Longrightarrow> triple I m Q E) \<Longrightarrow> (\<And>y ys. xs = y # ys \<Longrightarrow> triple I (f y ys) Q E)
   \<Longrightarrow> triple I (case xs of [] \<Rightarrow> m | y # ys \<Rightarrow> f y ys) Q E"
  by (cases xs) simp_all

lemma inv_case_prod:
  "(\<And>a b. p = (a, b) \<Longrightarrow> triple I (f a b) Q E) \<Longrightarrow> triple I (case p of (a, b) \<Rightarrow> f a b) Q E"
  by (cases p) simp

lemma inv_raise: "(\<And>s. I s \<Longrightarrow> E e s) \<Longrightarrow> triple I (raise e) Q E"
  by (simp add: triple_def raise_def)

lemma inv_modify: "(\<And>s. I s \<Longrightarrow> I (f s)) \<Longrightarrow> triple I (modify f) (\<lambda>_. I) E"
  by (simp add: triple_def modify_def)

lemma inv_set_self:
  "(\<And>s. I s \<Longrightarrow> I (s\<lparr>self := f (self s)\<rparr>)) \<Longrightarrow> triple I (set_self f) (\<lambda>_. I) E"
  by (simp add: triple_def modify_def set_self_def)

lemma inv_logging:
  "(\<And>s. I s \<Longrightarrow> I (s\<lparr>trace := trace s @ [Log l t]\<rparr>)) \<Longrightarrow> triple I (logging l t) (\<lambda>_. I) E"
  by (simp add: triple_def modify_def logging_def)

lemma inv_random_choice:
  "(\<And>s. I s \<Longrightarrow> I (s\<lparr>rng := Suc (rng s)\<rparr>)) \<Longrightarrow> triple I (random_choice rand' seq) (\<lambda>_. I) E"
  by (simp add: triple_def random_choice_def)

lemma inv_random_string:
  assumes "\<And>s. I s \<Longrightarrow> I (s\<lparr>rng := Suc (rng s)\<rparr>)"
  shows "triple I (random_string rand' al n) (\<lambda>_. I) E"
proof (induction n)
  case 0
  show ?case by (simp add: inv_returns)
next
  case (Suc n)
  show ?case
    unfolding random_string.simps
    by (intro inv_bnd inv_returns inv_random_choice assms Suc)
qed

lemmas inv_rules = inv_bnd inv_thn inv_returns inv_gets inv_if_then inv_if inv_case_option
  inv_case_list inv_case_prod inv_modify inv_set_self inv_logging inv_random_string

lemma unpack_hashes_named: "triple (named c) (unpack_hashes hs) (\<lambda>_. named c) anything"
  unfolding unpack_hashes_def
  by (auto split: list.splits intro!: inv_returns inv_raise simp: anything_def)

lemma init_hashes_named: "triple (named c) init_hashes (\<lambda>_. named c) anything"
  unfolding init_hashes_def
  by (intro inv_rules unpack_hashes_named) (simp_all add: named_def)

lemma init_checks_named: "triple (named c) (init_checks opts) (\<lambda>_. named c) anything"
  unfolding init_checks_def
  by (intro inv_rules unpack_hashes_named inv_raise) (simp_all add: named_def anything_def)

lemma init_defaults_named: "triple (named c) (init_defaults rand') (\<lambda>_. named c) anything"
  unfolding init_defaults_def
  by (intro inv_rules inv_raise) (simp_all add: named_def anything_def)

lemma init_computerName_named:
  "n \<noteq> [] \<Longrightarrow>
   triple (named (Some n)) init_computerName (\<lambda>_. named (Some (resolved n))) anything"
  by (auto simp: triple_def init_computerName_def bnd_def gets_def raise_def returns_def
      if_then_def set_self_def modify_def named_def resolved_def)

lemma init_named:
  assumes "opt_computer_name opts = Some n" and "n \<noteq> []"
    and "init rand' usr pwd dmn opts s = Some (Inr (), s')"
  shows "computerName (self s') = Some (resolved n)"
proof -
  let ?s1 = "s\<lparr>self := init_fields usr pwd dmn opts\<rparr>"
  let ?rest = "thn init_hashes (thn (init_checks opts) (thn init_computerName (init_defaults rand')))"
  have eq: "init rand' usr pwd dmn opts s = ?rest ?s1"
    by (simp add: init_def thn_def bnd_def set_self_def modify_def)
  have pre: "named (Some n) ?s1"
    using assms(1) by (simp add: named_def init_fields_def)
  have "triple (named (Some n)) ?rest (\<lambda>_. named (Some (resolved n))) anything"
    by (intro triple_thn[where R = "named (Some n)"] triple_thn[where R = "named (Some (resolved n))"]
        init_hashes_named init_checks_named init_computerName_named init_defaults_named assms(2))
  from tripleD[OF this pre] assms(3) eq show ?thesis
    by (simp add: named_def)
qed

text \<open>
  Where \<open>__init__\<close> returns for a computer name that does not end in \<open>$\<close>, the name
  of the object is the given name with one \<open>$\<close> appended, and resolving the options
  again with that name leaves it as it is.
\<close>

theorem init_appends_marker:
  assumes "opt_computer_name opts = Some n" and "n \<noteq> []" and "last n \<noteq> CHR ''$''"
    and "init rand' usr pwd dmn opts s = Some (Inr (), s')"
  shows "computerName (self s') = Some (n @ ''$'') \<and>
         (\<forall>t t'. init rand' usr pwd dmn (opts\<lparr>opt_computer_name := computerName (self s')\<rparr>) t
                    = Some (Inr (), t') \<longrightarrow>
                  computerName (self t') = computerName (self s'))"
proof -
  have 1: "computerName (self s') = Some (n @ ''$'')"
    using init_named[OF assms(1,2,4)] assms(3) by (simp add: resolved_def)
  have 2: "computerName (self t') = Some (n @ ''$'')"
    if "init rand' usr pwd dmn (opts\<lparr>opt_computer_name := Some (n @ ''$'')\<rparr>) t = Some (Inr (), t')"
    for t t'
    using init_named[OF _ _ that] by (simp add: resolved_def)
  from 1 2 show ?thesis by simp
qed

text \<open>
  C9. The empty computer name lacks the trailing marker, so its resolved name should be
  \<open>''$''\<close>; but line 102 reads \<open>self.__computerName[-1]\<close>, which raises
  \<open>IndexError\<close> on the empty string: no descriptor is produced. (Line 312 makes the
  same test with \<open>endswith('$')\<close>, which the empty string passes through.)
\<close>

theorem init_empty_name_raises:
  "map_option fst (init (\<lambda>_. 0) ''user'' ''pw'' ''corp.local''
      (plain_options\<lparr>opt_computer_name := Some []\<rparr>) start)
   = Some (Inl (IndexError ''string index out of range''))"
  by (simp add: init_def init_hashes_def init_checks_def init_computerName_def
     thn_def bnd_def set_self_def modify_def gets_def if_then_def returns_def raise_def
      init_fields_def plain_options_def start_def)

theorem init_appends_marker_witness:
  "\<exists>s' t'. init (\<lambda>_. 0) ''user'' ''pw'' ''corp.local''
              (plain_options\<lparr>opt_computer_name := Some ''PC1''\<rparr>) start = Some (Inr (), s') \<and>
           computerName (self s') = Some ''PC1$'' \<and>
           init (\<lambda>_. 0) ''user'' ''pw'' ''corp.local''
              (plain_options\<lparr>opt_computer_name := Some ''PC1$''\<rparr>) start = Some (Inr (), t') \<and>
           computerName (self t') = Some ''PC1$''"
proof -
  let ?o = "plain_options\<lparr>opt_computer_name := Some ''PC1''\<rparr>"
  have "\<exists>s'. init (\<lambda>_. 0) ''user'' ''pw'' ''corp.local'' ?o start = Some (Inr (), s')"
    by (simp add: init_def init_hashes_def init_checks_def init_computerName_def
        init_defaults_def thn_def bnd_def set_self_def modify_def gets_def if_then_def
        returns_def raise_def logging_def init_fields_def plain_options_def start_def
        random_choice_def eval_nat_numeral)
  then obtain s' where run: "init (\<lambda>_. 0) ''user'' ''pw'' ''corp.local'' ?o start = Some (Inr (), s')"
    by blast
  have "\<exists>t'. init (\<lambda>_. 0) ''user'' ''pw'' ''corp.local''
              (plain_options\<lparr>opt_computer_name := Some ''PC1$''\<rparr>) start = Some (Inr (), t')"
    by (simp add: init_def init_hashes_def init_checks_def init_computerName_def
        init_defaults_def thn_def bnd_def set_self_def modify_def gets_def if_then_def
        returns_def raise_def logging_def init_fields_def plain_options_def start_def
        random_choice_def eval_nat_numeral)
  then obtain t' where run2: "init (\<lambda>_. 0) ''user'' ''pw'' ''corp.local''
              (plain_options\<lparr>opt_computer_name := Some ''PC1$''\<rparr>) start = Some (Inr (), t')"
    by blast
  have h1: "opt_computer_name ?o = Some ''PC1''" by (simp add: plain_options_def)
  have "computerName (self s') = Some ''PC1$'' \<and>
         (\<forall>t t'. init (\<lambda>_. 0) ''user'' ''pw'' ''corp.local'' (?o\<lparr>opt_computer_name := computerName (self s')\<rparr>) t
                    = Some (Inr (), t') \<longrightarrow>
                  computerName (self t') = computerName (self s'))"
    using init_appends_marker[OF h1 _ _ run] by simp
  with run run2 show ?thesis by auto
qed

lemma random_string_result:
  assumes "al \<noteq> []"
  shows "\<exists>cs. random_string rand' al n s = Some (Inr cs, s\<lparr>rng := rng s + n\<rparr>) \<and>
              length cs = n \<and> set cs \<subseteq> set al"
proof (induction n arbitrary: s)
  case 0
  show ?case by (simp add: returns_def)
next
  case (Suc n)
  let ?s1 = "s\<lparr>rng := Suc (rng s)\<rparr>"
  from Suc[of ?s1] obtain cs where
    cs: "random_string rand' al n ?s1 = Some (Inr cs, ?s1\<lparr>rng := rng ?s1 + n\<rparr>)"
      "length cs = n" "set cs \<subseteq> set al" by blast
  have "al ! (rand' (rng s) mod length al) \<in> set al"
    using assms by simp
  with cs show ?case
    by (simp add: bnd_def random_choice_def returns_def)
qed

lemma generateComputerName_result:
  "\<exists>n. generateComputerName be s = Some (Inr n, s\<lparr>rng := rng s + 8\<rparr>) \<and> generated_name n"
proof -
  have "ascii_uppercase @ digits \<noteq> []" by (simp add: ascii_uppercase_def)
  from random_string_result[OF this, of "random_source be" 8 s] obtain cs where
    cs: "random_string (random_source be) (ascii_uppercase @ digits) 8 s
           = Some (Inr cs, s\<lparr>rng := rng s + 8\<rparr>)"
      "length cs = 8" "set cs \<subseteq> set (ascii_uppercase @ digits)" by blast
  have "generated_name (''DESKTOP-'' @ (cs @ ''$''))"
    using cs(2,3) by (simp add: generated_name_def list_all_iff subset_iff)
  with cs(1) show ?thesis
    by (simp add: generateComputerName_def bnd_def returns_def)
qed

lemma samr_probe_once_found:
  assumes "samr_probe_once be dh s = Some (Inr True, s')"
  shows "samr_absent be dh s'"
proof -
  from generateComputerName_result[of be s] obtain n where
    n: "generateComputerName be s = Some (Inr n, s\<lparr>rng := rng s + 8\<rparr>)" "generated_name n"
    by blast
  show ?thesis
  proof (cases "ret_rids be (trace s @ [HSamrLookupNamesInDomain dh (Some n)])")
    case (Inr rids)
    with assms n show ?thesis
      by (simp add: samr_probe_once_def bnd_def thn_def set_self_def modify_def try_except_def
          call_def returns_def)
  next
    case (Inl e)
    with assms n show ?thesis
      by (cases e)
         (auto simp: samr_probe_once_def bnd_def thn_def set_self_def modify_def try_except_def
          call_def returns_def raise_def samr_absent_def split: if_splits)
  qed
qed

lemma samr_probe_absent_aux:
  assumes "samr_probe be dh s = Some y"
  shows "fst y = Inr () \<longrightarrow> samr_absent be dh (snd y)"
proof (rule samr_probe.raw_induct
    [where P = "\<lambda>be dh s y. fst y = Inr () \<longrightarrow> samr_absent be dh (snd y)", OF _ assms],
    goal_cases)
  case (1 probe be dh s y)
  show ?case
  proof (cases "samr_probe_once be dh s")
    case None
    with 1(2) show ?thesis by simp
  next
    case (Some q)
    obtain r s1 where q: "q = (r, s1)" by (cases q)
    show ?thesis
    proof (cases r)
      case (Inl e)
      with 1(2) Some q show ?thesis by auto
    next
      case (Inr b)
      show ?thesis
      proof (cases b)
        case True
        with 1(2) Some q Inr have "y = (Inr (), s1)" by simp
        with Some q Inr True samr_probe_once_found[of be dh s s1] show ?thesis by simp
      next
        case False
        with 1(2) Some q Inr have "probe be dh s1 = Some y" by simp
        from 1(1)[OF this] show ?thesis .
      qed
    qed
  qed
qed

lemma samr_probe_absent:
  "samr_probe be dh s = Some (Inr (), s') \<Longrightarrow> samr_absent be dh s'"
  using samr_probe_absent_aux[of be dh s "(Inr (), s')"] by simp

lemma ldap_probe_once_stop:
  assumes "ldap_probe_once be s = Some (Inr True, s')"
  shows "ldap_absent be s'"
proof -
  from generateComputerName_result[of be s] obtain n where
    n: "generateComputerName be s = Some (Inr n, s\<lparr>rng := rng s + 8\<rparr>)" "generated_name n"
    by blast
  show ?thesis
  proof (cases "ret_search be (trace s @
      [LdapSearch (baseDN (self s)) (''(sAMAccountName='' @ n @ '')'')])")
    case (Inl e)
    with assms n show ?thesis
      by (simp add: ldap_probe_once_def LDAPComputerExists_def bnd_def thn_def set_self_def
          modify_def gets_def call_def returns_def fmt_def)
  next
    case (Inr r)
    with assms n show ?thesis
      by (auto simp: ldap_probe_once_def LDAPComputerExists_def bnd_def thn_def set_self_def
          modify_def gets_def call_def returns_def fmt_def ldap_absent_def)
  qed
qed

lemma ldap_probe_absent_aux:
  assumes "ldap_probe be s = Some y"
  shows "fst y = Inr () \<longrightarrow> ldap_absent be (snd y)"
proof (rule ldap_probe.raw_induct
    [where P = "\<lambda>be s y. fst y = Inr () \<longrightarrow> ldap_absent be (snd y)", OF _ assms],
    goal_cases)
  case (1 probe be s y)
  show ?case
  proof (cases "ldap_probe_once be s")
    case None
    with 1(2) show ?thesis by simp
  next
    case (Some q)
    obtain r s1 where q: "q = (r, s1)" by (cases q)
    show ?thesis
    proof (cases r)
      case (Inl e)
      with 1(2) Some q show ?thesis by auto
    next
      case (Inr b)
      show ?thesis
      proof (cases b)
        case True
        with 1(2) Some q Inr have "y = (Inr (), s1)" by simp
        with Some q Inr True ldap_probe_once_stop[of be s s1] show ?thesis by simp
      next
        case False
        with 1(2) Some q Inr have "probe be s1 = Some y" by simp
        from 1(1)[OF this] show ?thesis .
      qed
    qed
  qed
qed

lemma ldap_probe_absent:
  "ldap_probe be s = Some (Inr (), s') \<Longrightarrow> ldap_absent be s'"
  using ldap_probe_absent_aux[of be s "(Inr (), s')"] by simp

text \<open>
  C7. The name generator always returns, and what it returns matches
  \<open>DESKTOP-[A-Z0-9]{8}$\<close>. When the probing loop of either engine ends normally, the
  computer name is a generated name, the last event is the existence check of that
  very name, and that check reported the name absent: the RPC lookup raised
  \<open>0xc0000073\<close>, or the directory search did not return exactly one entry.
\<close>

theorem generated_names_absent:
  "(\<exists>n s'. generateComputerName be s = Some (Inr n, s') \<and> generated_name n) \<and>
   (\<forall>s'. samr_probe be dh s = Some (Inr (), s') \<longrightarrow> samr_absent be dh s') \<and>
   (\<forall>s'. ldap_probe be s = Some (Inr (), s') \<longrightarrow> ldap_absent be s')"
  using generateComputerName_result[of be s] samr_probe_absent[of be dh s]
    ldap_probe_absent[of be s]
  by blast

lemma samr_probe_fresh:
  assumes "\<not> list_ex is_create (trace s)"
  shows "\<exists>s'. samr_probe fresh_server dh s = Some (Inr (), s')"
proof -
  from generateComputerName_result[of fresh_server s] obtain n where
    n: "generateComputerName fresh_server s = Some (Inr n, s\<lparr>rng := rng s + 8\<rparr>)" by blast
  have "\<exists>s'. samr_probe_once fresh_server dh s = Some (Inr True, s')"
    using n assms
    by (simp add: samr_probe_once_def bnd_def thn_def set_self_def modify_def try_except_def
        call_def returns_def fresh_server_def)
  then show ?thesis
    by (subst samr_probe.simps) auto
qed

lemma ldap_probe_fresh:
  "\<exists>s'. ldap_probe fresh_server s = Some (Inr (), s')"
proof -
  from generateComputerName_result[of fresh_server s] obtain n where
    n: "generateComputerName fresh_server s = Some (Inr n, s\<lparr>rng := rng s + 8\<rparr>)" by blast
  have "\<exists>s'. ldap_probe_once fresh_server s = Some (Inr True, s')"
    using n
    by (simp add: ldap_probe_once_def LDAPComputerExists_def bnd_def thn_def set_self_def
        modify_def gets_def call_def returns_def fresh_server_def)
  then show ?thesis
    by (subst ldap_probe.simps) auto
qed

theorem generated_names_absent_witness:
  "(\<exists>s'. samr_probe fresh_server 7 start = Some (Inr (), s') \<and> samr_absent fresh_server 7 s') \<and>
   (\<exists>s'. ldap_probe fresh_server start = Some (Inr (), s') \<and> ldap_absent fresh_server s')"
proof -
  have "\<not> list_ex is_create (trace start)" by (simp add: start_def)
  from samr_probe_fresh[OF this, of 7] ldap_probe_fresh[of start]
    generated_names_absent[of fresh_server start 7]
  show ?thesis by blast
qed

lemma inv_raise_same: "triple I (raise e) Q (\<lambda>_. I)"
  by (simp add: triple_def raise_def)

lemma inv_first: "triple I (first xs) (\<lambda>_. I) (\<lambda>_. I)"
  by (cases xs) (simp_all add: first_def inv_returns inv_raise_same)

lemma total_first: "total (first xs)"
  by (cases xs) (simp_all add: first_def total_prims)

lemmas total_rules = total_bnd total_thn total_prims total_if_then total_random_string
  total_first

lemma total_case_option:
  "(x = None \<Longrightarrow> total m) \<Longrightarrow> (\<And>y. x = Some y \<Longrightarrow> total (f y))
   \<Longrightarrow> total (case x of None \<Rightarrow> m | Some y \<Rightarrow> f y)"
  by (cases x) simp_all

lemma total_case_list:
  "(xs = [] \<Longrightarrow> total m) \<Longrightarrow> (\<And>y ys. xs = y # ys \<Longrightarrow> total (f y ys))
   \<Longrightarrow> total (case xs of [] \<Rightarrow> m | y # ys \<Rightarrow> f y ys)"
  by (cases xs) simp_all

lemma total_case_prod:
  "(\<And>a b. p = (a, b) \<Longrightarrow> total (f a b)) \<Longrightarrow> total (case p of (a, b) \<Rightarrow> f a b)"
  by (cases p) simp

lemma total_if: "(c \<Longrightarrow> total m) \<Longrightarrow> (\<not> c \<Longrightarrow> total n) \<Longrightarrow> total (if c then m else n)"
  by simp

lemmas total_splits = total_case_option total_case_list total_case_prod total_if

lemma attempts_other:
  "\<not> is_bypass_start ev \<Longrightarrow> attempts k s \<Longrightarrow> attempts k (s\<lparr>trace := trace s @ [ev]\<rparr>)"
  by (simp add: attempts_def bypass_attempts_def)

lemma attempts_frame [simp]:
  "attempts k (s\<lparr>rng := i\<rparr>) = attempts k s"
  "attempts k (s\<lparr>self := a\<rparr>) = attempts k s"
  by (simp_all add: attempts_def)

lemma getUserInfo_attempts:
  "triple (attempts k) (getUserInfo be u) (\<lambda>_. attempts k) (\<lambda>_. attempts k)"
  unfolding getUserInfo_def
  by (intro inv_rules inv_call inv_raise_same attempts_other)
     (simp_all add: is_bypass_start_def)

lemma total_getUserInfo: "total (getUserInfo be u)"
  unfolding getUserInfo_def
  by (intro total_rules total_splits)

lemma bypass_attempts_once:
  "triple (attempts k) (bypass_with_msExchStorageGroup be ucd')
     (\<lambda>_. attempts (Suc k)) (\<lambda>_. attempts (Suc k))"
  unfolding bypass_with_msExchStorageGroup_def
  apply (rule triple_thn[where R = "attempts (Suc k)"])
   apply (simp add: triple_def logging_def modify_def attempts_def bypass_attempts_def
      is_bypass_start_def)
  apply (intro inv_rules inv_call inv_raise_same inv_first getUserInfo_attempts attempts_other)
                      apply (simp_all add: is_bypass_start_def)
  done

lemma total_bypass: "total (bypass_with_msExchStorageGroup be ucd')"
  unfolding bypass_with_msExchStorageGroup_def
  by (intro total_rules total_splits total_getUserInfo)

lemma ldaps_added_quota:
  assumes "result res = RESULT_UNWILLING_TO_PERFORM"
    and "sub_code res s = Some (Inr 0x216D, s)"
  shows "\<exists>r s'. ldaps_added be ucd' (False, res) s = Some (r, s') \<and>
           bypass_attempts (trace s') =
             bypass_attempts (trace s) + (if endswith (username (self s)) CHR ''$'' then 1 else 0)"
proof (cases "endswith (username (self s)) CHR ''$''")
  case False
  with assms show ?thesis
    by (simp add: ldaps_added_def bnd_def gets_def thn_def logging_def
        modify_def if_then_def returns_def bypass_attempts_def is_bypass_start_def)
next
  case True
  let ?s2 = "s\<lparr>trace := trace s @
      [Log CRITICAL (Str (''User '' @ username (self s) @ '' machine quota exceeded!'')),
       Log INFO (Str ''Trying to bypass machine quota with `msExchStorageGroup` object'')]\<rparr>"
  obtain r s3 where run: "bypass_with_msExchStorageGroup be ucd' ?s2 = Some (r, s3)"
    using total_bypass[of be ucd'] by (fastforce simp: total_def)
  have "attempts (bypass_attempts (trace s)) ?s2"
    by (simp add: attempts_def bypass_attempts_def is_bypass_start_def)
  from tripleD[OF bypass_attempts_once this run]
  have 3: "bypass_attempts (trace s3) = Suc (bypass_attempts (trace s))"
    by (cases r) (simp_all add: attempts_def)
  have "\<exists>r'. ldaps_added be ucd' (False, res) s = Some (r', s3)"
    using assms True run
    by (cases r)
       (simp_all add: ldaps_added_def bnd_def gets_def thn_def
        logging_def modify_def if_then_def returns_def)
  with 3 True show ?thesis by auto
qed

lemma ldaps_added_other:
  assumes "result res = RESULT_UNWILLING_TO_PERFORM"
    and "sub_code res s = Some (Inr code, s)" and "code \<noteq> 0x216D"
  shows "ldaps_added be ucd' (False, res) s = Some (Inl (Exception (StrOfResult res)), s)"
  using assms
  by (simp add: ldaps_added_def bnd_def gets_def raise_def)

text \<open>
  C2. After a failed \<open>add\<close> with the result "unwilling to perform" whose parsed
  sub-code is \<open>code\<close>: when \<open>code\<close> is \<open>0x216D\<close> the run returns, and the number of
  fallback attempts it made is one if the user name ends in \<open>$\<close> and zero otherwise;
  for any other code, an \<open>Exception\<close> carrying the result is raised and nothing else
  happens.
\<close>

theorem quota_fallback:
  assumes "result res = RESULT_UNWILLING_TO_PERFORM"
    and "sub_code res s = Some (Inr code, s)"
  shows "\<exists>r s'. ldaps_added be ucd' (False, res) s = Some (r, s') \<and>
          (if code = 0x216D then
             bypass_attempts (trace s') - bypass_attempts (trace s) =
               (if endswith (username (self s)) CHR ''$'' then 1 else 0)
           else r = Inl (Exception (StrOfResult res)) \<and> s' = s)"
proof (cases "code = 0x216D")
  case True
  with ldaps_added_quota[OF assms(1), of s be ucd'] assms(2) show ?thesis by auto
next
  case False
  with ldaps_added_other[OF assms, of be ucd'] show ?thesis by simp
qed

lemma sub_code_quota:
  "sub_code \<lparr> result = 53, message = quota_message \<rparr> s = Some (Inr 0x216D, s)"
proof -
  have "first (py_split CHR '':'' quota_message) = returns ''0000216D''"
    by (simp add: quota_message_def first_def)
  moreover have "int16 ''0000216D'' = returns 0x216D"
    by (simp add: int16_def py_strip_def is_space_def hex_digit_def)
  moreover have "py_strip ''0000216D'' = ''0000216D''"
    by (simp add: py_strip_def is_space_def)
  ultimately show ?thesis
    by (simp add: sub_code_def bnd_def returns_def)
qed

theorem quota_fallback_witness:
  "result \<lparr> result = 53, message = quota_message \<rparr> = RESULT_UNWILLING_TO_PERFORM \<and>
   sub_code \<lparr> result = 53, message = quota_message \<rparr>
     (start\<lparr>self := blank\<lparr>username := ''PC0$''\<rparr>\<rparr>)
     = Some (Inr 0x216D, start\<lparr>self := blank\<lparr>username := ''PC0$''\<rparr>\<rparr>) \<and>
   (\<exists>r s'. ldaps_added fresh_server no_ucd (False, \<lparr> result = 53, message = quota_message \<rparr>)
              (start\<lparr>self := blank\<lparr>username := ''PC0$''\<rparr>\<rparr>) = Some (r, s') \<and>
            bypass_attempts (trace s') = 1)"
proof -
  let ?res = "\<lparr> result = 53, message = quota_message \<rparr>"
  let ?s = "start\<lparr>self := blank\<lparr>username := ''PC0$''\<rparr>\<rparr>"
  have 1: "result ?res = RESULT_UNWILLING_TO_PERFORM"
    by (simp add: RESULT_UNWILLING_TO_PERFORM_def)
  have 2: "sub_code ?res ?s = Some (Inr 0x216D, ?s)" by (rule sub_code_quota)
  have 3: "bypass_attempts (trace ?s) = 0" "endswith (username (self ?s)) CHR ''$''"
    by (simp_all add: start_def bypass_attempts_def endswith_def)
  from quota_fallback[OF 1 2, of fresh_server no_ucd] 1 2 3 show ?thesis
    by auto
qed

text \<open>
  C5. The server enumerates \<open>Builtin\<close>, \<open>CORP\<close> and \<open>OTHER\<close>, and the configured
  NetBIOS name is \<open>CORP\<close>, which is exactly one of them: line 360 compares the
  lower-cased name \<open>corp\<close> with \<open>CORP\<close>, finds no match, and the engine raises instead
  of selecting \<open>CORP\<close>.
\<close>

theorem select_domain_uppercase_netbios:
  "map_option fst (select_domain (Some ''CORP'') [''Builtin'', ''CORP'', ''OTHER''] start)
   = Some (Inl (Exception (Str [])))"
  by code_simp

lemma select_domain_lowercase_netbios:
  "map_option fst (select_domain (Some ''corp'') [''Builtin'', ''CORP'', ''OTHER''] start)
   = Some (Inr ''CORP'')"
  by code_simp

lemma closed_call:
  "closed I A \<Longrightarrow> A ev \<Longrightarrow> triple I (call oracle ev) (\<lambda>_. I) (\<lambda>_. I)"
  by (rule inv_call) (simp add: closed_def)

lemma closed_logging:
  "closed I A \<Longrightarrow> A (Log l t) \<Longrightarrow> triple I (logging l t) (\<lambda>_. I) E"
  by (rule inv_logging) (simp add: closed_def)

lemma closed_print:
  "closed I A \<Longrightarrow> A (PrintExc e) \<Longrightarrow>
   triple I (modify (\<lambda>s. s\<lparr>trace := trace s @ [PrintExc e]\<rparr>)) (\<lambda>_. I) E"
  by (rule inv_modify) (simp add: closed_def)

lemma closed_servHandle:
  "closed_vars I \<Longrightarrow> triple I (modify (\<lambda>s. s\<lparr>servHandle := h\<rparr>)) (\<lambda>_. I) E"
  by (rule inv_modify) (simp add: closed_vars_def)

lemma closed_domainHandle:
  "closed_vars I \<Longrightarrow> triple I (modify (\<lambda>s. s\<lparr>domainHandle := h\<rparr>)) (\<lambda>_. I) E"
  by (rule inv_modify) (simp add: closed_vars_def)

lemma closed_userHandle:
  "closed_vars I \<Longrightarrow> triple I (modify (\<lambda>s. s\<lparr>userHandle := h\<rparr>)) (\<lambda>_. I) E"
  by (rule inv_modify) (simp add: closed_vars_def)

lemma closed_reset:
  assumes "closed_vars I"
  shows "triple I (modify (\<lambda>s. s\<lparr>servHandle := h1, domainHandle := h2, userHandle := h3\<rparr>))
           (\<lambda>_. I) E"
proof (rule inv_modify)
  fix s assume "I s"
  with assms have "I (s\<lparr>servHandle := h1\<rparr>)" by (simp add: closed_vars_def)
  with assms have "I (s\<lparr>servHandle := h1\<rparr>\<lparr>domainHandle := h2\<rparr>)"
    unfolding closed_vars_def by blast
  with assms have "I (s\<lparr>servHandle := h1\<rparr>\<lparr>domainHandle := h2\<rparr>\<lparr>userHandle := h3\<rparr>)"
    unfolding closed_vars_def by blast
  then show "I (s\<lparr>servHandle := h1, domainHandle := h2, userHandle := h3\<rparr>)" by simp
qed

lemmas closed_handles = closed_servHandle closed_domainHandle closed_userHandle closed_reset

lemma closed_random_string:
  "closed I A \<Longrightarrow> triple I (random_string rand' al n) (\<lambda>_. I) E"
  by (rule inv_random_string) (simp add: closed_def)

lemma closed_generateComputerName:
  "closed I A \<Longrightarrow> triple I (generateComputerName be) (\<lambda>_. I) E"
  unfolding generateComputerName_def
  by (intro inv_bnd inv_returns closed_random_string)

lemma closed_set_name:
  "closed_name I \<Longrightarrow> triple I (set_self (\<lambda>a. a\<lparr>computerName := Some n\<rparr>)) (\<lambda>_. I) E"
  by (rule inv_set_self) (simp add: closed_name_def)

lemma inv_dcerpc_handler:
  "(\<And>c m. e = DCERPCSessionError c m \<Longrightarrow> triple I (f c m) Q E) \<Longrightarrow> triple I g Q E \<Longrightarrow>
   triple I (case e of DCERPCSessionError c m \<Rightarrow> f c m | _ \<Rightarrow> g) Q E"
  by (cases e) simp_all

lemma inv_socket_handler:
  "(\<And>m. e = LDAPSocketOpenError m \<Longrightarrow> triple I (f m) Q E) \<Longrightarrow> triple I g Q E \<Longrightarrow>
   triple I (case e of LDAPSocketOpenError m \<Rightarrow> f m | _ \<Rightarrow> g) Q E"
  by (cases e) simp_all

lemmas closed_rules = inv_bnd inv_thn inv_returns inv_gets inv_if_then inv_if inv_case_option
  inv_case_list inv_case_prod inv_try_except inv_try_finally inv_raise_same inv_first
  inv_dcerpc_handler inv_socket_handler

lemma closed_log_each:
  assumes "closed I A" and "\<And>e. is_report e \<Longrightarrow> A e"
  shows "triple I (log_each l ts) (\<lambda>_. I) E"
proof (induction ts)
  case Nil
  show ?case by (simp add: inv_returns)
next
  case (Cons t ts)
  show ?case
    unfolding log_each.simps
    by (intro inv_thn closed_logging[OF assms(1)] assms(2) Cons) simp
qed

lemma closed_select_domain:
  assumes "closed I A" and "\<And>e. is_report e \<Longrightarrow> A e"
  shows "triple I (select_domain nb ds) (\<lambda>_. I) (\<lambda>_. I)"
  unfolding select_domain_def Let_def
  by (intro closed_rules closed_logging[OF assms(1)] closed_log_each[OF assms] assms(2))
     simp_all

lemma closed_samr_open_domain:
  assumes "closed I A" and "\<And>e. is_report e \<or> is_open_domain_call e \<Longrightarrow> A e"
    and vars: "closed_vars I"
  shows "triple I (samr_open_domain be) (\<lambda>_. I) (\<lambda>_. I)"
  unfolding samr_open_domain_def
  by (intro closed_rules closed_call[OF assms(1)] closed_logging[OF assms(1)]
      closed_handles[OF vars] closed_select_domain[OF assms(1)] assms(2))
     simp_all

lemma closed_samr_open_existing:
  assumes "closed I A" and "\<And>e. is_report e \<or> is_user_call e \<Longrightarrow> A e"
    and vars: "closed_vars I"
  shows "triple I (samr_open_existing be sel dh) (\<lambda>_. I) (\<lambda>_. I)"
  unfolding samr_open_existing_def
  by (intro closed_rules closed_call[OF assms(1)] closed_handles[OF vars] assms(2))
     simp_all

lemma closed_samr_check_absent:
  assumes "closed I A" and "\<And>e. is_report e \<or> is_user_call e \<Longrightarrow> A e"
  shows "triple I (samr_check_absent be dh) (\<lambda>_. I) (\<lambda>_. I)"
  unfolding samr_check_absent_def
  by (intro closed_rules closed_call[OF assms(1)] assms(2))
     simp_all

lemma closed_samr_probe_once:
  assumes "closed I A" and "\<And>e. is_report e \<or> is_user_call e \<Longrightarrow> A e" and "closed_name I"
  shows "triple I (samr_probe_once be dh) (\<lambda>_. I) (\<lambda>_. I)"
  unfolding samr_probe_once_def
  by (intro closed_rules closed_call[OF assms(1)] closed_generateComputerName[OF assms(1)]
      closed_set_name[OF assms(3)] assms(2))
     simp_all

lemma samr_probe_inv_aux:
  assumes once: "\<And>be dh. triple I (samr_probe_once be dh) (\<lambda>_. I) (\<lambda>_. I)"
    and run: "samr_probe be dh s = Some y"
  shows "I s \<longrightarrow> I (snd y)"
proof (rule samr_probe.raw_induct
    [where P = "\<lambda>be dh s y. I s \<longrightarrow> I (snd y)", OF _ run], goal_cases)
  case (1 probe be dh s y)
  show ?case
  proof (intro impI)
    assume "I s"
    show "I (snd y)"
    proof (cases "samr_probe_once be dh s")
      case None
      with 1(2) show ?thesis by simp
    next
      case (Some q)
      obtain r s1 where q: "q = (r, s1)" by (cases q)
      from tripleD[OF once \<open>I s\<close>, of be dh r s1] Some q have s1: "I s1" by (cases r) simp_all
      show ?thesis
      proof (cases r)
        case (Inl e)
        with 1(2) Some q s1 show ?thesis by auto
      next
        case (Inr b)
        show ?thesis
        proof (cases b)
          case True
          with 1(2) Some q Inr s1 show ?thesis by auto
        next
          case False
          with 1(2) Some q Inr have "probe be dh s1 = Some y" by simp
          from 1(1)[OF this] s1 show ?thesis by simp
        qed
      qed
    qed
  qed
qed

lemma closed_samr_probe:
  assumes "closed I A" and "\<And>e. is_report e \<or> is_user_call e \<Longrightarrow> A e" and "closed_name I"
  shows "triple I (samr_probe be dh) (\<lambda>_. I) (\<lambda>_. I)"
proof (rule tripleI)
  fix s r s' assume "I s" and run: "samr_probe be dh s = Some (r, s')"
  from samr_probe_inv_aux[OF closed_samr_probe_once[OF assms] run] \<open>I s\<close>
  have "I s'" by simp
  then show "case r of Inl e \<Rightarrow> I s' | Inr x \<Rightarrow> I s'" by (cases r) simp_all
qed

lemma closed_samr_open_user:
  assumes "closed I A" and "\<And>e. is_report e \<or> is_user_call e \<Longrightarrow> A e" and "closed_name I"
    and vars: "closed_vars I"
  shows "triple I (samr_open_user be sel dh) (\<lambda>_. I) (\<lambda>_. I)"
  unfolding samr_open_user_def
  by (intro closed_rules closed_call[OF assms(1)] closed_handles[OF vars]
      closed_samr_open_existing[OF assms(1,2) vars] closed_samr_check_absent[OF assms(1,2)]
      closed_samr_probe[OF assms(1,2,3)] assms(2))
     simp_all

lemma closed_samr_apply:
  assumes "closed I A" and "\<And>e. is_report e \<or> is_user_call e \<Longrightarrow> A e"
    and vars: "closed_vars I"
  shows "triple I (samr_apply be dh uh) (\<lambda>_. I) (\<lambda>_. I)"
  unfolding samr_apply_def
  by (intro closed_rules closed_call[OF assms(1)] closed_handles[OF vars]
      closed_logging[OF assms(1)] assms(2))
     simp_all

text \<open>
  The rules for the whole engine take the assertion about \<open>samr_open_user\<close> as a
  premise: it is the only part that assigns the computer name.
\<close>

lemma closed_doSAMRAdd_try:
  assumes "closed I A" and "\<And>e. is_report e \<or> is_open_domain_call e \<or> is_user_call e \<Longrightarrow> A e"
    and vars: "closed_vars I"
    and user: "\<And>sel dh. triple I (samr_open_user be sel dh) (\<lambda>_. I) (\<lambda>_. I)"
  shows "triple I (doSAMRAdd_try be) (\<lambda>_. I) (\<lambda>_. I)"
  unfolding doSAMRAdd_try_def
  by (intro closed_rules closed_samr_open_domain[OF assms(1) _ vars] user
      closed_samr_apply[OF assms(1) _ vars] assms(2))
     auto

lemma closed_except_handler:
  assumes "closed I A" and "\<And>e. is_report e \<Longrightarrow> A e"
  shows "triple I (except_handler be e) (\<lambda>_. I) (\<lambda>_. I)"
  unfolding except_handler_def
  by (intro closed_rules closed_print[OF assms(1)] closed_logging[OF assms(1)] assms(2))
     simp_all

lemma closed_close_if_set:
  assumes "closed I A" and "\<And>e. is_teardown e \<Longrightarrow> A e"
  shows "triple I (close_if_set be h) (\<lambda>_. I) (\<lambda>_. I)"
  unfolding close_if_set_def
  by (intro closed_rules closed_call[OF assms(1)] assms(2)) simp_all

lemma closed_doSAMRAdd_finally:
  assumes "closed I A" and "\<And>e. is_teardown e \<Longrightarrow> A e"
  shows "triple I (doSAMRAdd_finally be) (\<lambda>_. I) (\<lambda>_. I)"
  unfolding doSAMRAdd_finally_def
  by (intro closed_rules closed_call[OF assms(1)] closed_close_if_set[OF assms] assms(2))
     simp_all

lemma closed_guarded:
  assumes "closed I A" and "\<And>e. is_report e \<or> is_open_domain_call e \<or> is_user_call e \<Longrightarrow> A e"
    and vars: "closed_vars I"
    and user: "\<And>sel dh. triple I (samr_open_user be sel dh) (\<lambda>_. I) (\<lambda>_. I)"
  shows "triple I (try_except (doSAMRAdd_try be) (except_handler be)) (\<lambda>_. I) (\<lambda>_. I)"
  by (intro closed_rules closed_doSAMRAdd_try[OF assms(1) _ vars user]
      closed_except_handler[OF assms(1)] assms(2))
     auto

lemma closed_doSAMRAdd:
  assumes "closed I A"
    and "\<And>e. is_report e \<or> is_setup e \<or> is_open_domain_call e \<or> is_user_call e \<or>
              is_teardown e \<Longrightarrow> A e"
    and vars: "closed_vars I"
    and user: "\<And>sel dh. triple I (samr_open_user be sel dh) (\<lambda>_. I) (\<lambda>_. I)"
  shows "triple I (doSAMRAdd be) (\<lambda>_. I) (\<lambda>_. I)"
  unfolding doSAMRAdd_def
  by (intro closed_rules closed_call[OF assms(1)] closed_handles[OF vars]
      closed_doSAMRAdd_try[OF assms(1) _ vars user] closed_except_handler[OF assms(1)]
      closed_doSAMRAdd_finally[OF assms(1)] assms(2))
     auto

lemma closed_run_samr:
  assumes "closed I A"
    and "\<And>e. is_report e \<or> is_setup e \<or> is_open_domain_call e \<or> is_user_call e \<or>
              is_teardown e \<Longrightarrow> A e"
    and vars: "closed_vars I"
    and user: "\<And>sel dh. triple I (samr_open_user be sel dh) (\<lambda>_. I) (\<lambda>_. I)"
  shows "triple I (run_samr be) (\<lambda>_. I) (\<lambda>_. I)"
  unfolding run_samr_def
  by (intro closed_rules closed_call[OF assms(1)] closed_doSAMRAdd[OF assms(1) _ vars user]
      assms(2))
     auto

lemma closed_ldap_login:
  assumes "closed I A" and "\<And>e. is_report e \<or> is_session_call e \<Longrightarrow> A e"
  shows "triple I (ldap_login be c second) (\<lambda>_. I) (\<lambda>_. I)"
  unfolding ldap_login_def
  by (intro closed_rules closed_call[OF assms(1)] assms(2)) simp_all

lemma closed_ldap_session:
  assumes "closed I A" and "\<And>e. is_report e \<or> is_session_call e \<Longrightarrow> A e"
  shows "triple I (ldap_session be c) (\<lambda>_. I) (\<lambda>_. I)"
  unfolding ldap_session_def
  by (intro closed_rules closed_call[OF assms(1)] closed_ldap_login[OF assms] assms(2)) simp_all

lemma closed_LDAPComputerExists:
  assumes "closed I A" and "\<And>e. is_report e \<or> is_directory_call e \<Longrightarrow> A e"
  shows "triple I (LDAPComputerExists be n) (\<lambda>_. I) (\<lambda>_. I)"
  unfolding LDAPComputerExists_def
  by (intro closed_rules closed_call[OF assms(1)] assms(2)) simp_all

lemma closed_LDAPGetComputer:
  assumes "closed I A" and "\<And>e. is_report e \<or> is_directory_call e \<Longrightarrow> A e"
  shows "triple I (LDAPGetComputer be n) (\<lambda>_. I) (\<lambda>_. I)"
  unfolding LDAPGetComputer_def
  by (intro closed_rules closed_call[OF assms(1)] assms(2)) simp_all

lemma closed_getUserInfo:
  assumes "closed I A" and "\<And>e. is_report e \<or> is_directory_call e \<Longrightarrow> A e"
  shows "triple I (getUserInfo be u) (\<lambda>_. I) (\<lambda>_. I)"
  unfolding getUserInfo_def
  by (intro closed_rules closed_call[OF assms(1)] closed_logging[OF assms(1)] assms(2)) simp_all

lemma closed_bypass:
  assumes "closed I A" and "\<And>e. is_report e \<or> is_directory_call e \<Longrightarrow> A e"
  shows "triple I (bypass_with_msExchStorageGroup be u) (\<lambda>_. I) (\<lambda>_. I)"
  unfolding bypass_with_msExchStorageGroup_def
  by (intro closed_rules closed_call[OF assms(1)] closed_logging[OF assms(1)]
      closed_getUserInfo[OF assms] closed_random_string[OF assms(1)] assms(2)) simp_all

lemma closed_ldaps_change:
  assumes "closed I A" and "\<And>e. is_report e \<or> is_directory_call e \<Longrightarrow> A e"
  shows "triple I (ldaps_change be) (\<lambda>_. I) (\<lambda>_. I)"
  unfolding ldaps_change_def
  by (intro closed_rules closed_call[OF assms(1)] closed_logging[OF assms(1)]
      closed_LDAPComputerExists[OF assms] closed_LDAPGetComputer[OF assms] assms(2)) simp_all

lemma closed_ldap_probe_once:
  assumes "closed I A" and "\<And>e. is_report e \<or> is_directory_call e \<Longrightarrow> A e"
    and "closed_name I"
  shows "triple I (ldap_probe_once be) (\<lambda>_. I) (\<lambda>_. I)"
  unfolding ldap_probe_once_def
  by (intro closed_rules closed_generateComputerName[OF assms(1)] closed_set_name[OF assms(3)]
      closed_LDAPComputerExists[OF assms(1,2)])

lemma ldap_probe_inv_aux:
  assumes once: "\<And>be. triple I (ldap_probe_once be) (\<lambda>_. I) (\<lambda>_. I)"
    and run: "ldap_probe be s = Some y"
  shows "I s \<longrightarrow> I (snd y)"
proof (rule ldap_probe.raw_induct
    [where P = "\<lambda>be s y. I s \<longrightarrow> I (snd y)", OF _ run], goal_cases)
  case (1 probe be s y)
  show ?case
  proof (intro impI)
    assume "I s"
    show "I (snd y)"
    proof (cases "ldap_probe_once be s")
      case None
      with 1(2) show ?thesis by simp
    next
      case (Some q)
      obtain r s1 where q: "q = (r, s1)" by (cases q)
      from tripleD[OF once \<open>I s\<close>, of be r s1] Some q have s1: "I s1" by (cases r) simp_all
      show ?thesis
      proof (cases r)
        case (Inl e)
        with 1(2) Some q s1 show ?thesis by auto
      next
        case (Inr b)
        show ?thesis
        proof (cases b)
          case True
          with 1(2) Some q Inr s1 show ?thesis by auto
        next
          case False
          with 1(2) Some q Inr have "probe be s1 = Some y" by simp
          from 1(1)[OF this] s1 show ?thesis by simp
        qed
      qed
    qed
  qed
qed

lemma closed_ldap_probe:
  assumes "closed I A" and "\<And>e. is_report e \<or> is_directory_call e \<Longrightarrow> A e"
    and "closed_name I"
  shows "triple I (ldap_probe be) (\<lambda>_. I) (\<lambda>_. I)"
proof (rule tripleI)
  fix s r s' assume "I s" and run: "ldap_probe be s = Some (r, s')"
  from ldap_probe_inv_aux[OF closed_ldap_probe_once[OF assms] run] \<open>I s\<close>
  have "I s'" by simp
  then show "case r of Inl e \<Rightarrow> I s' | Inr x \<Rightarrow> I s'" by (cases r) simp_all
qed

lemma closed_int16: "triple I (int16 w) (\<lambda>_. I) (\<lambda>_. I)"
  unfolding int16_def Let_def
  by (simp split: prod.splits option.splits add: inv_returns inv_raise_same)

lemma closed_sub_code: "triple I (sub_code res) (\<lambda>_. I) (\<lambda>_. I)"
  unfolding sub_code_def
  by (intro closed_rules closed_int16)

lemma closed_ldaps_added:
  assumes "closed I A" and "\<And>e. is_report e \<or> is_directory_call e \<Longrightarrow> A e"
  shows "triple I (ldaps_added be u r) (\<lambda>_. I) (\<lambda>_. I)"
  unfolding ldaps_added_def
  by (intro closed_rules closed_logging[OF assms(1)] closed_bypass[OF assms] closed_sub_code
      assms(2)) simp_all

lemma closed_ldaps_create:
  assumes "closed I A" and "\<And>e. is_report e \<or> is_directory_call e \<Longrightarrow> A e"
    and "closed_name I"
  shows "triple I (ldaps_create be) (\<lambda>_. I) (\<lambda>_. I)"
  unfolding ldaps_create_def
  by (intro closed_rules closed_call[OF assms(1)] closed_LDAPComputerExists[OF assms(1,2)]
      closed_ldap_probe[OF assms] closed_ldaps_added[OF assms(1,2)] assms(2)) simp_all

lemma closed_ldaps_try:
  assumes "closed I A"
    and "\<And>e. is_report e \<or> is_session_call e \<or> is_directory_call e \<Longrightarrow> A e"
    and create: "triple I (ldaps_create be) (\<lambda>_. I) (\<lambda>_. I)"
  shows "triple I (ldaps_try be c) (\<lambda>_. I) (\<lambda>_. I)"
  unfolding ldaps_try_def
  by (intro closed_rules closed_ldap_session[OF assms(1)] closed_ldaps_change[OF assms(1)]
      create assms(2)) auto

lemma closed_run_ldaps:
  assumes "closed I A"
    and "\<And>e. is_report e \<or> is_session_call e \<or> is_directory_call e \<Longrightarrow> A e"
    and create: "triple I (ldaps_create be) (\<lambda>_. I) (\<lambda>_. I)"
  shows "triple I (run_ldaps be) (\<lambda>_. I) (\<lambda>_. I)"
  unfolding run_ldaps_def
  by (intro closed_rules closed_ldaps_try[OF assms] closed_except_handler[OF assms(1)]
      assms(2)) auto

lemma triple_gets_bnd:
  assumes "\<And>x. triple (\<lambda>s. P s \<and> f s = x) (g x) Q E"
  shows "triple P (bnd (gets f) g) Q E"
proof (rule tripleI)
  fix s r s' assume "P s" and run: "bnd (gets f) g s = Some (r, s')"
  then have 1: "g (f s) s = Some (r, s')" by (simp add: bnd_def gets_def)
  have 2: "P s \<and> f s = f s" using \<open>P s\<close> by simp
  from tripleD[OF assms 2 1]
  show "case r of Inl e \<Rightarrow> E e s' | Inr x \<Rightarrow> Q x s'" .
qed

lemma rename_again:
  "b = a\<lparr>computerName := c\<rparr> \<Longrightarrow> b\<lparr>computerName := d\<rparr> = a\<lparr>computerName := d\<rparr>"
  by simp

lemma same_but_name_closed:
  "closed (same_but_name a) any_event" "closed_vars (same_but_name a)"
  "closed_name (same_but_name a)"
proof -
  show "closed (same_but_name a) any_event" "closed_vars (same_but_name a)"
    by (simp_all add: closed_def closed_vars_def same_but_name_def)
  show "closed_name (same_but_name a)"
    unfolding closed_name_def same_but_name_def
    by (auto dest: rename_again)
qed

lemma same_object_closed:
  "closed (same_object a) any_event" "closed_vars (same_object a)"
  by (simp_all add: closed_def closed_vars_def same_object_def)

lemma same_object_samr_open_user:
  assumes "computerName a \<noteq> None"
  shows "triple (same_object a) (samr_open_user be sel dh)
           (\<lambda>_. same_object a) (\<lambda>_. same_object a)"
  using assms unfolding samr_open_user_def
  apply -
  apply (rule triple_gets_bnd)
  apply (rule inv_if)
   apply (rule triple_pre[where P' = "same_object a"])
    apply (rule closed_samr_open_existing[OF same_object_closed(1) _ same_object_closed(2)])
    apply (simp add: any_event_def)
   apply simp
  apply (rule triple_thn[where R = "same_object a"])
   apply (rule inv_if)
    apply (rule triple_pre[where P' = "same_object a"])
     apply (rule closed_samr_check_absent[OF same_object_closed(1)])
     apply (simp add: any_event_def)
    apply simp
   apply (rule triple_pre[OF triple_false])
   apply (simp add: same_object_def)
  apply (intro closed_rules closed_call[OF same_object_closed(1)]
      closed_handles[OF same_object_closed(2)])
  apply (simp add: any_event_def)
  done

lemma same_object_ldaps_create:
  assumes "computerName a \<noteq> None"
  shows "triple (same_object a) (ldaps_create be) (\<lambda>_. same_object a) (\<lambda>_. same_object a)"
  using assms unfolding ldaps_create_def
  apply -
  apply (rule triple_gets_bnd)
  apply (rule triple_thn[where R = "same_object a"])
   apply (rule inv_if)
    apply (rule triple_pre[where P' = "same_object a"])
     apply (intro closed_rules closed_LDAPComputerExists[OF same_object_closed(1)])
     apply (simp add: any_event_def)
    apply simp
   apply (rule triple_pre[OF triple_false])
   apply (simp add: same_object_def)
  apply (intro closed_rules closed_call[OF same_object_closed(1)]
      closed_ldaps_added[OF same_object_closed(1)])
   apply (simp_all add: any_event_def)
  done

lemma frame_run_samr:
  assumes "run_samr be s = Some (r, s')"
  shows "self s' = (self s)\<lparr>computerName := computerName (self s')\<rparr> \<and>
         (computerName (self s) \<noteq> None \<longrightarrow> self s' = self s)"
proof
  have "triple (same_but_name (self s)) (run_samr be)
          (\<lambda>_. same_but_name (self s)) (\<lambda>_. same_but_name (self s))"
    by (rule closed_run_samr[OF same_but_name_closed(1) _ same_but_name_closed(2)
          closed_samr_open_user[OF same_but_name_closed(1) _ same_but_name_closed(3,2)]])
       (simp_all add: any_event_def)
  from tripleD[OF this _ assms]
  show "self s' = (self s)\<lparr>computerName := computerName (self s')\<rparr>"
    by (cases r) (simp_all add: same_but_name_def)
  show "computerName (self s) \<noteq> None \<longrightarrow> self s' = self s"
  proof
    assume n: "computerName (self s) \<noteq> None"
    have "triple (same_object (self s)) (run_samr be)
          (\<lambda>_. same_object (self s)) (\<lambda>_. same_object (self s))"
      by (rule closed_run_samr[OF same_object_closed(1) _ same_object_closed(2)
            same_object_samr_open_user[OF n]])
         (simp_all add: any_event_def)
    from tripleD[OF this _ assms]
    show "self s' = self s"
      by (cases r) (simp_all add: same_object_def)
  qed
qed

lemma frame_run_ldaps:
  assumes "run_ldaps be s = Some (r, s')"
  shows "self s' = (self s)\<lparr>computerName := computerName (self s')\<rparr> \<and>
         (computerName (self s) \<noteq> None \<longrightarrow> self s' = self s)"
proof
  have "triple (same_but_name (self s)) (run_ldaps be)
          (\<lambda>_. same_but_name (self s)) (\<lambda>_. same_but_name (self s))"
    by (rule closed_run_ldaps[OF same_but_name_closed(1) _
          closed_ldaps_create[OF same_but_name_closed(1) _ same_but_name_closed(3)]])
       (simp_all add: any_event_def)
  from tripleD[OF this _ assms]
  show "self s' = (self s)\<lparr>computerName := computerName (self s')\<rparr>"
    by (cases r) (simp_all add: same_but_name_def)
  show "computerName (self s) \<noteq> None \<longrightarrow> self s' = self s"
  proof
    assume n: "computerName (self s) \<noteq> None"
    have "triple (same_object (self s)) (run_ldaps be)
          (\<lambda>_. same_object (self s)) (\<lambda>_. same_object (self s))"
      by (rule closed_run_ldaps[OF same_object_closed(1) _ same_object_ldaps_create[OF n]])
         (simp_all add: any_event_def)
    from tripleD[OF this _ assms]
    show "self s' = self s"
      by (cases r) (simp_all add: same_object_def)
  qed
qed

text \<open>
  C3 (amended). Whatever the collaborators do, when either engine returns or raises,
  every attribute of the object other than the computer name has the value it had
  when the engine started; and when a computer name had been supplied, the computer
  name is unchanged too.
\<close>

theorem engines_keep_descriptor:
  "(\<forall>r s'. run_samr be s = Some (r, s') \<longrightarrow>
      self s' = (self s)\<lparr>computerName := computerName (self s')\<rparr> \<and>
      (computerName (self s) \<noteq> None \<longrightarrow> self s' = self s)) \<and>
   (\<forall>r s'. run_ldaps be s = Some (r, s') \<longrightarrow>
      self s' = (self s)\<lparr>computerName := computerName (self s')\<rparr> \<and>
      (computerName (self s) \<noteq> None \<longrightarrow> self s' = self s))"
  using frame_run_samr[of be s] frame_run_ldaps[of be s] by blast

lemma lower_names: "lower ''Builtin'' = ''builtin''" "lower ''CORP'' = ''corp''"
  by code_simp+

lemmas run_defs = returns_def raise_def bnd_def thn_def if_then_def try_except_def
  try_finally_def gets_def modify_def set_self_def logging_def call_def Let_def first_def

lemma random_string_zero:
  "al \<noteq> [] \<Longrightarrow>
   random_string (\<lambda>_. 0) al n s = Some (Inr (replicate n (al ! 0)), s\<lparr>rng := rng s + n\<rparr>)"
  by (induction n arbitrary: s) (simp_all add: returns_def bnd_def random_choice_def)

lemma init_pc1:
  "init (\<lambda>_. 0) ''user'' ''pw'' ''corp.local'' (plain_options\<lparr>opt_computer_name := Some ''PC1''\<rparr>)
     start = Some (Inr (), start\<lparr>self := pc1, rng := 32\<rparr>)"
  by (simp add: init_def init_hashes_def init_checks_def init_computerName_def
        init_defaults_def run_defs init_fields_def plain_options_def start_def
        random_string_zero pc1_def ascii_letters_def ascii_lowercase_def)

lemma init_unnamed_ldaps:
  "init (\<lambda>_. 0) ''user'' ''pw'' ''corp.local'' (plain_options\<lparr>opt_method := ''LDAPS''\<rparr>)
     start = Some (Inr (), start\<lparr>self := unnamed_ldaps, rng := 32\<rparr>)"
  by (simp add: init_def init_hashes_def init_checks_def init_computerName_def
        init_defaults_def run_defs init_fields_def plain_options_def start_def
        random_string_zero pc1_def pc1_ldaps_def unnamed_ldaps_def ascii_letters_def
        ascii_lowercase_def)

lemma since_closed: "closed (since A t0) A" "closed_vars (since A t0)" "closed_name (since A t0)"
  by (auto simp: closed_def closed_vars_def closed_name_def since_def)

lemma since_refl: "since A (trace s) s"
  by (simp add: since_def)

lemma except_handler_run:
  "except_handler be e s = Some (Inr (), s\<lparr>trace := trace s @ reported be e\<rparr>)"
  by (simp add: except_handler_def reported_def run_defs)

lemma guarded_cases:
  assumes "try_except m (except_handler be) s = Some (r, s')"
  shows "(m s = Some (Inr (), s') \<and> r = Inr ()) \<or>
         (\<exists>e s1. m s = Some (Inl e, s1) \<and> r = Inr () \<and>
                  s' = s1\<lparr>trace := trace s1 @ reported be e\<rparr>)"
  using try_except_cases[OF assms] by (auto simp: except_handler_run)

lemma close_if_set_cases:
  assumes "close_if_set be h s = Some (r, s')"
  shows "s' = s\<lparr>trace := trace s @ closes h\<rparr> \<and>
         (case r of Inr _ \<Rightarrow> True
          | Inl e \<Rightarrow> h \<noteq> None \<and> ret_unit be (trace s') = Inl e)"
  using assms
  by (cases h; cases r) (auto simp: close_if_set_def closes_def returns_def call_def Let_def)

lemma thn_cases:
  assumes "thn m n s = Some (r, s')"
  shows "(\<exists>e. m s = Some (Inl e, s') \<and> r = Inl e) \<or>
         (\<exists>x s1. m s = Some (Inr x, s1) \<and> n s1 = Some (r, s'))"
  using bnd_cases[OF assms[unfolded thn_def]] .

lemma bnd_gets: "bnd (gets f) g s = g (f s) s"
  by (simp add: bnd_def gets_def)

lemma call_cases:
  assumes "call oracle ev s = Some (r, s')"
  shows "s' = s\<lparr>trace := trace s @ [ev]\<rparr> \<and> r = oracle (trace s @ [ev])"
  using assms by (auto simp: call_def Let_def)

lemma finally_cases:
  assumes "doSAMRAdd_finally be s = Some (r, s')"
  shows "userHandle s' = userHandle s \<and> domainHandle s' = domainHandle s \<and>
         servHandle s' = servHandle s \<and> self s' = self s \<and>
         (case r of
            Inr _ \<Rightarrow> trace s' = trace s @ teardown (userHandle s) (domainHandle s) (servHandle s)
          | Inl e \<Rightarrow> ret_unit be (trace s') = Inl e \<and>
                     (\<exists>t ev. trace s' = trace s @ t @ [ev] \<and> is_teardown ev))"
proof -
  let ?u = "userHandle s" and ?d = "domainHandle s" and ?h = "servHandle s"
  let ?rest1 = "bnd (gets domainHandle) (\<lambda>dh. thn (close_if_set be dh)
     (bnd (gets servHandle) (\<lambda>sh. thn (close_if_set be sh) (call (ret_unit be) Disconnect))))"
  from assms have "thn (close_if_set be ?u) ?rest1 s = Some (r, s')"
    by (simp add: doSAMRAdd_finally_def bnd_gets)
  from thn_cases[OF this] show ?thesis
  proof (elim disjE exE conjE)
    fix e assume 1: "close_if_set be ?u s = Some (Inl e, s')" and r: "r = Inl e"
    from close_if_set_cases[OF 1] obtain x where "?u = Some x"
      "s' = s\<lparr>trace := trace s @ closes ?u\<rparr>" "ret_unit be (trace s') = Inl e" by auto
    with r show ?thesis by (auto simp: closes_def intro: exI[where x = "[]"])
  next
    fix x s1 assume 1: "close_if_set be ?u s = Some (Inr x, s1)" and 2: "?rest1 s1 = Some (r, s')"
    from close_if_set_cases[OF 1] have s1: "s1 = s\<lparr>trace := trace s @ closes ?u\<rparr>" by simp
    let ?rest2 = "bnd (gets servHandle) (\<lambda>sh. thn (close_if_set be sh)
        (call (ret_unit be) Disconnect))"
    from 2 s1 have "thn (close_if_set be ?d) ?rest2 s1 = Some (r, s')"
      by (simp add: bnd_gets)
    from thn_cases[OF this] show ?thesis
    proof (elim disjE exE conjE)
      fix e assume 3: "close_if_set be ?d s1 = Some (Inl e, s')" and r: "r = Inl e"
      from close_if_set_cases[OF 3] obtain y where "?d = Some y"
        "s' = s1\<lparr>trace := trace s1 @ closes ?d\<rparr>" "ret_unit be (trace s') = Inl e" by auto
      with r s1 show ?thesis by (auto simp: closes_def intro: exI[where x = "closes ?u"])
    next
      fix x2 s2 assume 3: "close_if_set be ?d s1 = Some (Inr x2, s2)"
        and 4: "?rest2 s2 = Some (r, s')"
      from close_if_set_cases[OF 3] have s2: "s2 = s1\<lparr>trace := trace s1 @ closes ?d\<rparr>" by simp
      from 4 s1 s2 have "thn (close_if_set be ?h) (call (ret_unit be) Disconnect) s2 = Some (r, s')"
        by (simp add: bnd_gets)
      from thn_cases[OF this] show ?thesis
      proof (elim disjE exE conjE)
        fix e assume 5: "close_if_set be ?h s2 = Some (Inl e, s')" and r: "r = Inl e"
        from close_if_set_cases[OF 5] obtain z where "?h = Some z"
          "s' = s2\<lparr>trace := trace s2 @ closes ?h\<rparr>" "ret_unit be (trace s') = Inl e" by auto
        with r s1 s2 show ?thesis
          by (auto simp: closes_def intro: exI[where x = "closes ?u @ closes ?d"])
      next
        fix x3 s3 assume 5: "close_if_set be ?h s2 = Some (Inr x3, s3)"
          and 6: "call (ret_unit be) Disconnect s3 = Some (r, s')"
        from close_if_set_cases[OF 5] have s3: "s3 = s2\<lparr>trace := trace s2 @ closes ?h\<rparr>" by simp
        from call_cases[OF 6] have s': "s' = s3\<lparr>trace := trace s3 @ [Disconnect]\<rparr>"
          and rr: "r = ret_unit be (trace s3 @ [Disconnect])" by simp_all
        show ?thesis
        proof (cases r)
          case (Inr u)
          with s1 s2 s3 s' show ?thesis by (simp add: teardown_def)
        next
          case (Inl e)
          with rr have "ret_unit be (trace s3 @ [Disconnect]) = Inl e" by simp
          with Inl s1 s2 s3 s' show ?thesis
            by (auto intro: exI[where x = "closes ?u @ closes ?d @ closes ?h"])
        qed
      qed
    qed
  qed
qed

lemma guarded_quiet:
  "triple (since not_teardown t0) (try_except (doSAMRAdd_try be) (except_handler be))
     (\<lambda>_. since not_teardown t0) (\<lambda>_. since not_teardown t0)"
  by (rule closed_guarded[OF since_closed(1) _ since_closed(2)
        closed_samr_open_user[OF since_closed(1) _ since_closed(3,2)]])
     (auto simp: not_teardown_def elim: is_report.elims is_open_domain_call.elims
        is_user_call.elims)

lemma doSAMRAdd_cases:
  assumes "doSAMRAdd be s = Some (r, s')"
  shows "(\<exists>e. ret_unit be (trace s @ [Get_dce_rpc]) = Inl e \<and> r = Inl e \<and>
              s' = s\<lparr>trace := trace s @ [Get_dce_rpc]\<rparr>) \<or>
         (\<exists>s1 r2. try_except (doSAMRAdd_try be) (except_handler be)
                     (s\<lparr>trace := trace s @ [Get_dce_rpc], servHandle := None,
                        domainHandle := None, userHandle := None\<rparr>) = Some (Inr (), s1) \<and>
                  doSAMRAdd_finally be s1 = Some (r2, s') \<and>
                  (case r2 of Inl e \<Rightarrow> r = Inl e | Inr _ \<Rightarrow> r = Inr ()))"
proof (cases "ret_unit be (trace s @ [Get_dce_rpc])")
  case (Inl e)
  from assms Inl have "r = Inl e" "s' = s\<lparr>trace := trace s @ [Get_dce_rpc]\<rparr>"
    by (simp_all add: doSAMRAdd_def thn_def bnd_def call_def Let_def)
  with Inl show ?thesis by blast
next
  case (Inr u)
  let ?s0 = "s\<lparr>trace := trace s @ [Get_dce_rpc], servHandle := None,
                domainHandle := None, userHandle := None\<rparr>"
  from assms Inr
  have "try_finally (try_except (doSAMRAdd_try be) (except_handler be))
          (doSAMRAdd_finally be) ?s0 = Some (r, s')"
    by (simp add: doSAMRAdd_def thn_def bnd_def call_def Let_def modify_def)
  from try_finally_cases[OF this] obtain r1 s1 r2 where
    1: "try_except (doSAMRAdd_try be) (except_handler be) ?s0 = Some (r1, s1)"
    and 2: "doSAMRAdd_finally be s1 = Some (r2, s')"
    and 3: "case r2 of Inl e \<Rightarrow> r = Inl e | Inr _ \<Rightarrow> r = r1" by blast
  from guarded_cases[OF 1] have "r1 = Inr ()" by auto
  with 1 2 3 show ?thesis by (cases r2) auto
qed

lemma doSAMRAdd_returns:
  assumes "doSAMRAdd be s = Some (Inr (), s')"
  shows "\<exists>s1. try_except (doSAMRAdd_try be) (except_handler be)
                (s\<lparr>trace := trace s @ [Get_dce_rpc], servHandle := None,
                   domainHandle := None, userHandle := None\<rparr>) = Some (Inr (), s1) \<and>
              doSAMRAdd_finally be s1 = Some (Inr (), s')"
  using doSAMRAdd_cases[OF assms]
proof (elim disjE exE conjE)
  fix e assume "(Inr () :: exn + unit) = Inl e"
  then show ?thesis by simp
next
  fix s1 r2
  assume 1: "try_except (doSAMRAdd_try be) (except_handler be)
                (s\<lparr>trace := trace s @ [Get_dce_rpc], servHandle := None,
                   domainHandle := None, userHandle := None\<rparr>) = Some (Inr (), s1)"
    and 2: "doSAMRAdd_finally be s1 = Some (r2, s')"
    and 3: "case r2 of Inl e \<Rightarrow> (Inr () :: exn + unit) = Inl e | Inr _ \<Rightarrow> (Inr () :: exn + unit) = Inr ()"
  from 3 have "r2 = Inr ()" by (cases r2) auto
  with 1 2 show ?thesis by blast
qed

text \<open>
  When \<open>doSAMRAdd\<close> returns normally, its trace ends with the calls of the
  \<open>finally\<close> block, in their order, and has no close-handle or disconnect before
  them.
\<close>

theorem teardown_in_order:
  assumes "doSAMRAdd be s = Some (Inr (), s')"
  shows "\<exists>body. trace s' = trace s @ body @
                   teardown (userHandle s') (domainHandle s') (servHandle s') \<and>
                 list_all not_teardown body"
proof -
  let ?s0 = "s\<lparr>trace := trace s @ [Get_dce_rpc], servHandle := None,
                domainHandle := None, userHandle := None\<rparr>"
  from doSAMRAdd_returns[OF assms] obtain s1 where
    1: "try_except (doSAMRAdd_try be) (except_handler be) ?s0 = Some (Inr (), s1)"
    and 2: "doSAMRAdd_finally be s1 = Some (Inr (), s')"
    by blast
  have "since not_teardown (trace ?s0) ?s0" by (rule since_refl)
  from tripleD[OF guarded_quiet this 1] obtain evs where
    evs: "trace s1 = trace s @ [Get_dce_rpc] @ evs" "list_all not_teardown evs"
    by (auto simp: since_def)
  from finally_cases[OF 2] have
    "trace s' = trace s1 @ teardown (userHandle s') (domainHandle s') (servHandle s')"
    by simp
  with evs have "trace s' = trace s @ (Get_dce_rpc # evs) @
      teardown (userHandle s') (domainHandle s') (servHandle s')"
    "list_all not_teardown (Get_dce_rpc # evs)"
    by (simp_all add: not_teardown_def)
  then show ?thesis by blast
qed

lemma samr_pc1:
  "map_option fst (doSAMRAdd fresh_server (start\<lparr>self := pc1\<rparr>)) = Some (Inr ())"
  by (simp add: doSAMRAdd_def doSAMRAdd_try_def samr_open_domain_def select_domain_def
      samr_open_user_def samr_check_absent_def samr_apply_def doSAMRAdd_finally_def
      close_if_set_def except_handler_def run_defs fresh_server_def pc1_def start_def
      lower_names fmt_def)

theorem teardown_in_order_witness:
  "\<exists>s' body. doSAMRAdd fresh_server (start\<lparr>self := pc1\<rparr>) = Some (Inr (), s') \<and>
      trace s' = trace (start\<lparr>self := pc1\<rparr>) @ body @
                   teardown (userHandle s') (domainHandle s') (servHandle s') \<and>
      list_all not_teardown body"
proof -
  from samr_pc1 obtain s' where
    1: "doSAMRAdd fresh_server (start\<lparr>self := pc1\<rparr>) = Some (Inr (), s')" by auto
  from teardown_in_order[OF 1] 1 show ?thesis by blast
qed

text \<open>
  C1. The connection breaks after the domain has been opened: the lookup of the name
  raises and the handler logs it; in the \<open>finally\<close> block the close of the domain
  handle \<open>7\<close> raises too, so the server handle \<open>4\<close> is never closed, the transport
  is never disconnected, and the error leaves \<open>doSAMRAdd\<close>: on this exit path the
  teardown is cut short.
\<close>

theorem teardown_cut_short:
  "map_option fst (doSAMRAdd (drops_after 7) (start\<lparr>self := pc1\<rparr>))
     = Some (Inl (LibraryError ''Broken pipe'')) \<and>
   map_option (servHandle \<circ> snd) (doSAMRAdd (drops_after 7) (start\<lparr>self := pc1\<rparr>))
     = Some (Some 4) \<and>
   map_option (filter is_teardown \<circ> trace \<circ> snd)
     (doSAMRAdd (drops_after 7) (start\<lparr>self := pc1\<rparr>))
     = Some [HSamrCloseHandle 7]"
  by (simp add: doSAMRAdd_def doSAMRAdd_try_def samr_open_domain_def select_domain_def
      samr_open_user_def samr_check_absent_def samr_apply_def doSAMRAdd_finally_def
      close_if_set_def except_handler_def run_defs fresh_server_def drops_after_def broken_def
      pc1_def start_def lower_names fmt_def)

lemma replicate_8: "replicate 8 x = [x, x, x, x, x, x, x, x]"
  by (simp add: eval_nat_numeral)

lemma fresh_simps:
  "ret_unit fresh_server tr = Inr ()"
  "ret_result fresh_server tr = Inr (True, \<lparr> result = 0, message = [] \<rparr>)"
  "ret_search fresh_server tr = Inr \<lparr> found = False, entries = [], response = [] \<rparr>"
  "debug fresh_server = False"
  by (simp_all add: fresh_server_def)

lemma ldap_probe_fresh_once:
  "ldap_probe fresh_server s =
     Some (Inr (), s\<lparr>rng := rng s + 8,
                      self := (self s)\<lparr>computerName := Some ''DESKTOP-AAAAAAAA$''\<rparr>,
                      trace := trace s @
                        [LdapSearch (baseDN (self s)) ''(sAMAccountName=DESKTOP-AAAAAAAA$)'']\<rparr>)"
  by (subst ldap_probe.simps)
     (simp add: ldap_probe_once_def generateComputerName_def LDAPComputerExists_def run_defs
       random_string_zero fresh_server_def ascii_uppercase_def replicate_8 fmt_def)

text \<open>
  C3 (as stated). Create over the directory path with no computer name: the name is
  \<open>None\<close> when the engine starts and a generated name when it ends.
\<close>

theorem run_ldaps_assigns_name_counterexample:
  "computerName (self (start\<lparr>self := unnamed_ldaps\<rparr>)) = None \<and>
   map_option (computerName \<circ> self \<circ> snd) (run_ldaps fresh_server (start\<lparr>self := unnamed_ldaps\<rparr>))
     = Some (Some ''DESKTOP-AAAAAAAA$'')"
  by (simp add: run_ldaps_def ldaps_try_def ldap_session_def ldap_login_def ldaps_create_def
      ldaps_added_def ldap_probe_fresh_once except_handler_def run_defs fresh_simps
      unnamed_ldaps_def pc1_ldaps_def pc1_def start_def fmt_def)

lemma run_samr_pc1:
  "map_option fst (run_samr fresh_server (start\<lparr>self := pc1\<rparr>)) = Some (Inr ())"
  by (simp add: run_samr_def doSAMRAdd_def doSAMRAdd_try_def samr_open_domain_def
      select_domain_def samr_open_user_def samr_check_absent_def samr_apply_def
      doSAMRAdd_finally_def close_if_set_def except_handler_def run_defs fresh_server_def
      pc1_def start_def lower_names fmt_def)

lemma run_ldaps_pc1:
  "map_option fst (run_ldaps fresh_server (start\<lparr>self := pc1_ldaps\<rparr>)) = Some (Inr ())"
  by (simp add: run_ldaps_def ldaps_try_def ldap_session_def ldap_login_def ldaps_create_def
      ldaps_added_def LDAPComputerExists_def except_handler_def run_defs fresh_server_def
      pc1_ldaps_def pc1_def start_def fmt_def)

theorem engines_keep_descriptor_witness:
  "(\<exists>s'. run_samr fresh_server (start\<lparr>self := pc1\<rparr>) = Some (Inr (), s') \<and> self s' = pc1) \<and>
   (\<exists>s'. run_ldaps fresh_server (start\<lparr>self := pc1_ldaps\<rparr>) = Some (Inr (), s') \<and>
          self s' = pc1_ldaps)"
proof -
  from run_samr_pc1 obtain s1 where
    1: "run_samr fresh_server (start\<lparr>self := pc1\<rparr>) = Some (Inr (), s1)" by auto
  from run_ldaps_pc1 obtain s2 where
    2: "run_ldaps fresh_server (start\<lparr>self := pc1_ldaps\<rparr>) = Some (Inr (), s2)" by auto
  have n: "computerName pc1 \<noteq> None" "computerName pc1_ldaps \<noteq> None"
    by (simp_all add: pc1_def pc1_ldaps_def)
  from engines_keep_descriptor[of fresh_server "start\<lparr>self := pc1\<rparr>"] 1 n
  have "self s1 = pc1" by auto
  moreover
  from engines_keep_descriptor[of fresh_server "start\<lparr>self := pc1_ldaps\<rparr>"] 2 n
  have "self s2 = pc1_ldaps" by auto
  ultimately show ?thesis using 1 2 by blast
qed

lemma guarded_never_raises:
  "try_except m (except_handler be) s = Some (r, s') \<Longrightarrow> r = Inr ()"
  using guarded_cases[of m be s r s'] by auto

lemma guarded_reports:
  "m s = Some (Inl e, s1) \<Longrightarrow>
   try_except m (except_handler be) s = Some (Inr (), s1\<lparr>trace := trace s1 @ reported be e\<rparr>)"
  by (simp add: try_except_def except_handler_run)

lemma run_ldaps_unfold:
  "run_ldaps be s =
     try_except (ldaps_try be (if targetIp (self s) \<noteq> None then targetIp (self s)
                               else target (self s)))
       (except_handler be) s"
  by (simp add: run_ldaps_def bnd_def gets_def returns_def)

lemma doSAMRAdd_raises:
  assumes "doSAMRAdd be s = Some (Inl e, s')"
  shows "ret_unit be (trace s') = Inl e \<and>
         (\<exists>t ev. trace s' = trace s @ t @ [ev] \<and> (ev = Get_dce_rpc \<or> is_teardown ev))"
  using doSAMRAdd_cases[OF assms]
proof (elim disjE exE conjE)
  fix e' assume "ret_unit be (trace s @ [Get_dce_rpc]) = Inl e'" "Inl e = Inl e'"
    "s' = s\<lparr>trace := trace s @ [Get_dce_rpc]\<rparr>"
  then show ?thesis by (auto intro: exI[where x = "[]"])
next
  fix s1 r2
  let ?s0 = "s\<lparr>trace := trace s @ [Get_dce_rpc], servHandle := None,
                domainHandle := None, userHandle := None\<rparr>"
  assume 1: "try_except (doSAMRAdd_try be) (except_handler be) ?s0 = Some (Inr (), s1)"
    and 2: "doSAMRAdd_finally be s1 = Some (r2, s')"
    and 3: "case r2 of Inl e' \<Rightarrow> Inl e = Inl e' | Inr _ \<Rightarrow> (Inl e :: exn + unit) = Inr ()"
  from 3 have r2: "r2 = Inl e" by (cases r2) auto
  have pre: "since any_event (trace ?s0) ?s0" by (rule since_refl)
  have tr: "triple (since any_event (trace ?s0))
      (try_except (doSAMRAdd_try be) (except_handler be))
      (\<lambda>_. since any_event (trace ?s0)) (\<lambda>_. since any_event (trace ?s0))"
    by (rule closed_guarded[OF since_closed(1) _ since_closed(2)
          closed_samr_open_user[OF since_closed(1) _ since_closed(3,2)]])
       (simp_all add: any_event_def)
  from tripleD[OF tr pre 1] have "since any_event (trace ?s0) s1" by simp
  then obtain evs where evs: "trace s1 = trace s @ [Get_dce_rpc] @ evs"
    by (auto simp: since_def)
  from finally_cases[OF 2] r2 obtain t ev where
    "ret_unit be (trace s') = Inl e" "trace s' = trace s1 @ t @ [ev]" "is_teardown ev"
    by auto
  with evs show ?thesis
    by (auto intro: exI[where x = "Get_dce_rpc # evs @ t"])
qed

text \<open>
  The directory run never lets an error out: an error raised in its \<open>try\<close> block is
  caught, printed with its trace in debug mode, and logged at critical severity. The
  same holds for an error raised in the \<open>try\<close> block of \<open>doSAMRAdd\<close>. An error
  leaves \<open>doSAMRAdd\<close> only when \<open>get_dce_rpc\<close> or a call of the \<open>finally\<close> block
  raised it.
\<close>

lemma errors_are_caught:
  "(\<forall>r s'. run_ldaps be s = Some (r, s') \<longrightarrow> r = Inr ()) \<and>
   (\<forall>e s1. ldaps_try be (if targetIp (self s) \<noteq> None then targetIp (self s)
                           else target (self s)) s = Some (Inl e, s1) \<longrightarrow>
      run_ldaps be s = Some (Inr (), s1\<lparr>trace := trace s1 @ reported be e\<rparr>)) \<and>
   (\<forall>e s1. doSAMRAdd_try be s = Some (Inl e, s1) \<longrightarrow>
      try_except (doSAMRAdd_try be) (except_handler be) s
        = Some (Inr (), s1\<lparr>trace := trace s1 @ reported be e\<rparr>)) \<and>
   (\<forall>e s'. doSAMRAdd be s = Some (Inl e, s') \<longrightarrow>
      ret_unit be (trace s') = Inl e \<and>
      (\<exists>t ev. trace s' = trace s @ t @ [ev] \<and> (ev = Get_dce_rpc \<or> is_teardown ev)))"
proof (intro conjI allI impI)
  fix r s' assume "run_ldaps be s = Some (r, s')"
  then show "r = Inr ()"
    unfolding run_ldaps_unfold by (rule guarded_never_raises)
next
  fix e s1
  assume "ldaps_try be (if targetIp (self s) \<noteq> None then targetIp (self s)
                        else target (self s)) s = Some (Inl e, s1)"
  then show "run_ldaps be s = Some (Inr (), s1\<lparr>trace := trace s1 @ reported be e\<rparr>)"
    unfolding run_ldaps_unfold by (rule guarded_reports)
next
  fix e s1 assume "doSAMRAdd_try be s = Some (Inl e, s1)"
  then show "try_except (doSAMRAdd_try be) (except_handler be) s
        = Some (Inr (), s1\<lparr>trace := trace s1 @ reported be e\<rparr>)"
    by (rule guarded_reports)
next
  fix e s' assume "doSAMRAdd be s = Some (Inl e, s')"
  from doSAMRAdd_raises[OF this]
  show "ret_unit be (trace s') = Inl e"
    and "\<exists>t ev. trace s' = trace s @ t @ [ev] \<and> (ev = Get_dce_rpc \<or> is_teardown ev)"
    by simp_all
qed

lemma drops_simps:
  "ret_unit (drops_after 0) (tr @ [ev]) = Inl (LibraryError ''Broken pipe'')"
  "ret_string (drops_after 0) (tr @ [ev]) = Inl (LibraryError ''Broken pipe'')"
  "debug (drops_after 0) = False"
  by (simp_all add: drops_after_def broken_def)

text \<open>
  C4. The target cannot be reached: the endpoint mapper lookup at the head of
  \<open>run_samr\<close> raises, outside any \<open>try\<close>; the error reaches the caller of \<open>run_samr\<close>
  and nothing is logged, at critical severity or any other: the only event of the run
  is the lookup itself.
\<close>

theorem run_samr_propagates:
  "map_option fst (run_samr (drops_after 0) (start\<lparr>self := pc1\<rparr>))
     = Some (Inl (LibraryError ''Broken pipe'')) \<and>
   map_option (trace \<circ> snd) (run_samr (drops_after 0) (start\<lparr>self := pc1\<rparr>))
     = Some [Hept_map (Some ''corp.local'')]"
  by (simp add: run_samr_def run_defs drops_simps pc1_def start_def)

lemma since_filter:
  assumes "since (\<lambda>e. \<not> A e) t0 s"
  shows "filter A (trace s) = filter A t0"
proof -
  from assms obtain evs where "trace s = t0 @ evs" "list_all (\<lambda>e. \<not> A e) evs"
    by (auto simp: since_def)
  then show ?thesis by (simp add: list_all_iff)
qed

lemma samr_open_domain_frame:
  assumes "samr_open_domain be s = Some (r, s1)"
  shows "self s1 = self s \<and> filter is_creation (trace s1) = filter is_creation (trace s)"
proof
  have "triple (same_object (self s)) (samr_open_domain be)
          (\<lambda>_. same_object (self s)) (\<lambda>_. same_object (self s))"
    by (rule closed_samr_open_domain[OF same_object_closed(1) _ same_object_closed(2)])
       (simp add: any_event_def)
  from tripleD[OF this _ assms] show "self s1 = self s"
    by (cases r) (simp_all add: same_object_def)
  have "triple (since (\<lambda>e. \<not> is_creation e) (trace s)) (samr_open_domain be)
          (\<lambda>_. since (\<lambda>e. \<not> is_creation e) (trace s))
          (\<lambda>_. since (\<lambda>e. \<not> is_creation e) (trace s))"
  proof (rule closed_samr_open_domain[OF since_closed(1) _ since_closed(2)])
    fix e assume "is_report e \<or> is_open_domain_call e"
    then show "\<not> is_creation e" by (cases e) simp_all
  qed
  from tripleD[OF this since_refl assms]
  have "since (\<lambda>e. \<not> is_creation e) (trace s) s1" by (cases r) simp_all
  then show "filter is_creation (trace s1) = filter is_creation (trace s)"
    by (rule since_filter)
qed

lemma ldap_session_frame:
  assumes "ldap_session be c s = Some (r, s1)"
  shows "self s1 = self s \<and> filter is_creation (trace s1) = filter is_creation (trace s)"
proof
  have "triple (same_object (self s)) (ldap_session be c)
          (\<lambda>_. same_object (self s)) (\<lambda>_. same_object (self s))"
    by (rule closed_ldap_session[OF same_object_closed(1)]) (simp add: any_event_def)
  from tripleD[OF this _ assms] show "self s1 = self s"
    by (cases r) (simp_all add: same_object_def)
  have "triple (since (\<lambda>e. \<not> is_creation e) (trace s)) (ldap_session be c)
          (\<lambda>_. since (\<lambda>e. \<not> is_creation e) (trace s))
          (\<lambda>_. since (\<lambda>e. \<not> is_creation e) (trace s))"
  proof (rule closed_ldap_session[OF since_closed(1)])
    fix e assume "is_report e \<or> is_session_call e"
    then show "\<not> is_creation e" by (cases e) simp_all
  qed
  from tripleD[OF this since_refl assms]
  have "since (\<lambda>e. \<not> is_creation e) (trace s) s1" by (cases r) simp_all
  then show "filter is_creation (trace s1) = filter is_creation (trace s)"
    by (rule since_filter)
qed

lemma samr_existing_aborts:
  assumes "\<not> noAdd (self s)" and "\<not> delete (self s)" and "computerName (self s) = Some n"
    and dom: "samr_open_domain be s = Some (Inr (sel, dh), s1)"
    and rids: "ret_rids be (trace s1 @ [HSamrLookupNamesInDomain dh (Some n)]) = Inr rids"
  shows "doSAMRAdd_try be s =
           Some (Inl (already_exists n),
                 s1\<lparr>trace := trace s1 @ [HSamrLookupNamesInDomain dh (Some n)]\<rparr>) \<and>
         filter is_creation (trace s1 @ [HSamrLookupNamesInDomain dh (Some n)]) =
           filter is_creation (trace s)"
proof -
  from samr_open_domain_frame[OF dom] have self: "self s1 = self s"
    and tr: "filter is_creation (trace s1) = filter is_creation (trace s)" by simp_all
  have chk: "samr_check_absent be dh s1 =
      Some (Inl (already_exists n),
            s1\<lparr>trace := trace s1 @ [HSamrLookupNamesInDomain dh (Some n)]\<rparr>)"
    using assms(3) self rids
    by (simp add: samr_check_absent_def run_defs already_exists_def fmt_def)
  have "samr_open_user be sel dh s1 =
      Some (Inl (already_exists n),
            s1\<lparr>trace := trace s1 @ [HSamrLookupNamesInDomain dh (Some n)]\<rparr>)"
    using assms(1,2,3) self chk
    by (simp add: samr_open_user_def bnd_def gets_def thn_def)
  with dom have "doSAMRAdd_try be s =
      Some (Inl (already_exists n),
            s1\<lparr>trace := trace s1 @ [HSamrLookupNamesInDomain dh (Some n)]\<rparr>)"
    by (simp add: doSAMRAdd_try_def bnd_def)
  with tr show ?thesis by simp
qed

lemma ldap_existing_aborts:
  assumes "\<not> noAdd (self s)" and "\<not> delete (self s)" and "computerName (self s) = Some n"
    and ses: "ldap_session be c s = Some (Inr (), s1)"
    and found: "ret_search be (trace s1 @
        [LdapSearch (baseDN (self s)) (''(sAMAccountName='' @ n @ '')'')]) = Inr res"
    and one: "length (entries res) = 1"
  shows "ldaps_try be c s =
           Some (Inl (already_exists n),
                 s1\<lparr>trace := trace s1 @
                   [LdapSearch (baseDN (self s)) (''(sAMAccountName='' @ n @ '')'')]\<rparr>) \<and>
         filter is_creation (trace s1 @
             [LdapSearch (baseDN (self s)) (''(sAMAccountName='' @ n @ '')'')]) =
           filter is_creation (trace s)"
proof -
  let ?ev = "LdapSearch (baseDN (self s)) (''(sAMAccountName='' @ n @ '')'')"
  from ldap_session_frame[OF ses] have self: "self s1 = self s"
    and tr: "filter is_creation (trace s1) = filter is_creation (trace s)" by simp_all
  have ex: "LDAPComputerExists be (Some n) s1 = Some (Inr True, s1\<lparr>trace := trace s1 @ [?ev]\<rparr>)"
    using self found one
    by (simp add: LDAPComputerExists_def run_defs fmt_def)
  have "ldaps_create be s1 = Some (Inl (already_exists n), s1\<lparr>trace := trace s1 @ [?ev]\<rparr>)"
    using assms(3) self ex
    by (simp add: ldaps_create_def run_defs already_exists_def fmt_def)
  with ses assms(1,2) self have "ldaps_try be c s =
      Some (Inl (already_exists n), s1\<lparr>trace := trace s1 @ [?ev]\<rparr>)"
    by (simp add: ldaps_try_def bnd_def thn_def gets_def)
  with tr show ?thesis by simp
qed

text \<open>
  C8. Create with a given computer name \<open>n\<close>. Over the RPC path, when the domain has
  been opened and the lookup of \<open>n\<close> succeeds, the \<open>try\<close> block raises the error
  "Account \<open>n\<close> already exists!" right after the lookup; over the directory path, when
  the session has been opened and the search for \<open>n\<close> returns exactly one entry, it
  raises the same error right after the search. In both cases no \<open>add\<close> and no
  create-user call has been made since the start of the run.
\<close>

theorem existing_account_aborts:
  assumes "\<not> noAdd (self s)" and "\<not> delete (self s)" and "computerName (self s) = Some n"
  shows "(\<forall>sel dh s1 rids.
            samr_open_domain be s = Some (Inr (sel, dh), s1) \<and>
            ret_rids be (trace s1 @ [HSamrLookupNamesInDomain dh (Some n)]) = Inr rids \<longrightarrow>
            doSAMRAdd_try be s =
              Some (Inl (already_exists n),
                    s1\<lparr>trace := trace s1 @ [HSamrLookupNamesInDomain dh (Some n)]\<rparr>) \<and>
            filter is_creation (trace s1 @ [HSamrLookupNamesInDomain dh (Some n)]) =
              filter is_creation (trace s)) \<and>
         (\<forall>c s1 res.
            ldap_session be c s = Some (Inr (), s1) \<and>
            ret_search be (trace s1 @
              [LdapSearch (baseDN (self s)) (''(sAMAccountName='' @ n @ '')'')]) = Inr res \<and>
            length (entries res) = 1 \<longrightarrow>
            ldaps_try be c s =
              Some (Inl (already_exists n),
                    s1\<lparr>trace := trace s1 @
                      [LdapSearch (baseDN (self s)) (''(sAMAccountName='' @ n @ '')'')]\<rparr>) \<and>
            filter is_creation (trace s1 @
                [LdapSearch (baseDN (self s)) (''(sAMAccountName='' @ n @ '')'')]) =
              filter is_creation (trace s))"
  using samr_existing_aborts[OF assms, of be] ldap_existing_aborts[OF assms, of be]
  by blast

lemma existing_account_reported:
  assumes "\<not> noAdd (self s)" and "\<not> delete (self s)" and "computerName (self s) = Some n"
    and "ldap_session be (if targetIp (self s) \<noteq> None then targetIp (self s)
                          else target (self s)) s = Some (Inr (), s1)"
    and "ret_search be (trace s1 @
        [LdapSearch (baseDN (self s)) (''(sAMAccountName='' @ n @ '')'')]) = Inr res"
    and "length (entries res) = 1"
  shows "run_ldaps be s =
           Some (Inr (), s1\<lparr>trace := trace s1 @
              [LdapSearch (baseDN (self s)) (''(sAMAccountName='' @ n @ '')'')] @
              reported be (already_exists n)\<rparr>)"
proof -
  let ?c = "if targetIp (self s) \<noteq> None then targetIp (self s) else target (self s)"
  from ldap_existing_aborts[OF assms] have "ldaps_try be ?c s =
      Some (Inl (already_exists n), s1\<lparr>trace := trace s1 @
         [LdapSearch (baseDN (self s)) (''(sAMAccountName='' @ n @ '')'')]\<rparr>)" by simp
  from guarded_reports[where m = "ldaps_try be ?c", OF this, of be]
  show ?thesis by (simp add: run_ldaps_unfold)
qed

lemma existing_simps:
  "ret_unit existing_server tr = Inr ()"
  "ret_string existing_server tr = Inr ''S-1-5-21''"
  "ret_handle existing_server tr = Inr (length tr)"
  "ret_names existing_server tr = Inr [''Builtin'', ''CORP'']"
  "ret_rids existing_server tr = Inr [1104]"
  "ret_result existing_server tr = Inr (True, \<lparr> result = 0, message = [] \<rparr>)"
  "debug existing_server = False"
  by (simp_all add: existing_server_def fresh_server_def)

theorem existing_account_aborts_witness:
  "map_option fst (doSAMRAdd_try existing_server (start\<lparr>self := pc1\<rparr>))
     = Some (Inl (already_exists ''PC1$'')) \<and>
   map_option (filter is_creation \<circ> trace \<circ> snd)
       (doSAMRAdd_try existing_server (start\<lparr>self := pc1\<rparr>)) = Some [] \<and>
   map_option fst (ldaps_try existing_server (Some ''corp.local'') (start\<lparr>self := pc1_ldaps\<rparr>))
     = Some (Inl (already_exists ''PC1$'')) \<and>
   map_option (filter is_creation \<circ> trace \<circ> snd)
       (ldaps_try existing_server (Some ''corp.local'') (start\<lparr>self := pc1_ldaps\<rparr>)) = Some []"
proof -
  let ?s = "start\<lparr>self := pc1\<rparr>" and ?t = "start\<lparr>self := pc1_ldaps\<rparr>"
  have a: "\<not> noAdd (self ?s)" "\<not> delete (self ?s)" "computerName (self ?s) = Some ''PC1$''"
    by (simp_all add: pc1_def)
  have b: "\<not> noAdd (self ?t)" "\<not> delete (self ?t)" "computerName (self ?t) = Some ''PC1$''"
    by (simp_all add: pc1_ldaps_def pc1_def)
  have "\<exists>s1. samr_open_domain existing_server ?s = Some (Inr (''CORP'', 6), s1)"
    by (simp add: samr_open_domain_def select_domain_def run_defs existing_simps pc1_def
        start_def lower_names fmt_def)
  then obtain s1 where 1:
    "samr_open_domain existing_server ?s = Some (Inr (''CORP'', 6), s1)" by blast
  have 2: "ret_rids existing_server (trace s1 @ [HSamrLookupNamesInDomain 6 (Some ''PC1$'')])
            = Inr [1104]"
    by (simp add: existing_simps)
  have "\<exists>s2. ldap_session existing_server (Some ''corp.local'') ?t = Some (Inr (), s2)"
    by (simp add: ldap_session_def ldap_login_def run_defs existing_simps pc1_ldaps_def pc1_def
        start_def)
  then obtain s2 where 3:
    "ldap_session existing_server (Some ''corp.local'') ?t = Some (Inr (), s2)" by blast
  obtain res where 4: "ret_search existing_server (trace s2 @
      [LdapSearch (baseDN (self ?t)) (''(sAMAccountName='' @ ''PC1$'' @ '')'')]) = Inr res"
    and 5: "length (entries res) = 1"
    by (simp add: existing_server_def)
  from existing_account_aborts[OF a, of existing_server] 1 2
  have x: "doSAMRAdd_try existing_server ?s =
              Some (Inl (already_exists ''PC1$''),
                    s1\<lparr>trace := trace s1 @ [HSamrLookupNamesInDomain 6 (Some ''PC1$'')]\<rparr>)"
    "filter is_creation (trace s1 @ [HSamrLookupNamesInDomain 6 (Some ''PC1$'')]) =
              filter is_creation (trace ?s)"
    by blast+
  from existing_account_aborts[OF b, of existing_server] 3 4 5
  have y: "ldaps_try existing_server (Some ''corp.local'') ?t =
              Some (Inl (already_exists ''PC1$''),
                    s2\<lparr>trace := trace s2 @
                      [LdapSearch (baseDN (self ?t)) (''(sAMAccountName='' @ ''PC1$'' @ '')'')]\<rparr>)"
    "filter is_creation (trace s2 @
                [LdapSearch (baseDN (self ?t)) (''(sAMAccountName='' @ ''PC1$'' @ '')'')]) =
              filter is_creation (trace ?t)"
    by blast+
  have z: "trace ?s = []" "trace ?t = []" by (simp_all add: start_def)
  from x y z show ?thesis by simp
qed

lemma log_each_run:
  "log_each l ts s = Some (Inr (), s\<lparr>trace := trace s @ map (Log l) ts\<rparr>)"
  by (induction ts arbitrary: s) (simp_all add: run_defs)

lemma select_domain_returns:
  assumes "select_domain nb ds s = Some (Inr sel, s2)"
  shows "s2 = s"
  using assms
  by (auto simp: select_domain_def run_defs log_each_run split: if_splits list.splits)

lemma samr_open_domain_returns:
  assumes "samr_open_domain be s = Some (Inr (sel, dh), s1)"
  shows "\<exists>sh sid mid.
     trace s1 = trace s @
        [Connect, Bind,
         HSamrConnect5 ([CHR 0x5C, CHR 0x5C] @ fmt (target (self s)) @ [CHR 0x00])] @
        mid @ [HSamrOpenDomain sh sid] \<and>
     list_all not_teardown mid \<and>
     ret_handle be (trace s @
        [Connect, Bind,
         HSamrConnect5 ([CHR 0x5C, CHR 0x5C] @ fmt (target (self s)) @ [CHR 0x00])]) = Inr sh \<and>
     ret_handle be (trace s1) = Inr dh \<and>
     servHandle s1 = Some sh \<and> domainHandle s1 = Some dh \<and> userHandle s1 = userHandle s \<and>
     self s1 = self s"
  using assms
  by (auto simp: samr_open_domain_def run_defs not_teardown_def
      split: sum.splits option.splits prod.splits if_splits
      dest!: select_domain_returns)

lemma user_phase_closed:
  "closed (user_phase s) not_teardown" "closed_name (user_phase s)"
proof -
  show "closed (user_phase s) not_teardown"
    using since_closed(1)[of not_teardown "trace s"] same_but_name_closed(1)[of "self s"]
    by (simp add: closed_def user_phase_def any_event_def)
  show "closed_name (user_phase s)"
    using since_closed(3)[of not_teardown "trace s"] same_but_name_closed(3)[of "self s"]
    by (simp add: closed_name_def user_phase_def)
qed

lemma user_phase_refl: "user_phase s s"
  by (simp add: user_phase_def since_refl same_but_name_def)

lemma samr_create_returns:
  assumes "\<not> noAdd (self s)" and "\<not> delete (self s)"
    and run: "samr_open_user be sel dh s = Some (Inr uh, s1)"
  shows "\<exists>mid.
     trace s1 = trace s @ mid @ [HSamrCreateUser2InDomain dh (computerName (self s1))] \<and>
     list_all not_teardown mid \<and>
     ret_handle be (trace s1) = Inr uh \<and>
     userHandle s1 = Some uh \<and> domainHandle s1 = domainHandle s \<and>
     servHandle s1 = servHandle s \<and>
     self s1 = (self s)\<lparr>computerName := computerName (self s1)\<rparr>"
proof -
  let ?find = "if computerName (self s) \<noteq> None then samr_check_absent be dh
               else samr_probe be dh"
  let ?make = "bnd (gets self) (\<lambda>a.
       bnd (call (ret_handle be) (HSamrCreateUser2InDomain dh (computerName a))) (\<lambda>uh.
       thn (modify (\<lambda>s. s\<lparr>userHandle := Some uh\<rparr>))
           (returns uh)))"
  from run assms(1,2) have "thn ?find ?make s = Some (Inr uh, s1)"
    by (simp add: samr_open_user_def bnd_gets)
  from thn_cases[OF this] obtain x s2 where
    1: "?find s = Some (Inr x, s2)" and 2: "?make s2 = Some (Inr uh, s1)"
    by auto
  have ok: "\<And>e. is_report e \<or> is_user_call e \<Longrightarrow> not_teardown e"
  proof -
    fix e assume "is_report e \<or> is_user_call e"
    then show "not_teardown e" by (cases e) (simp_all add: not_teardown_def)
  qed
  have "triple (user_phase s) ?find (\<lambda>_. user_phase s) (\<lambda>_. user_phase s)"
    by (rule inv_if)
       (rule closed_samr_check_absent[OF user_phase_closed(1) ok]
             closed_samr_probe[OF user_phase_closed(1) ok user_phase_closed(2)], assumption)+
  from tripleD[OF this user_phase_refl 1] have ph: "user_phase s s2" by simp
  then obtain mid where mid: "trace s2 = trace s @ mid" "list_all not_teardown mid"
    by (auto simp: user_phase_def since_def)
  from 2 have s1: "s1 = s2\<lparr>trace := trace s2 @ [HSamrCreateUser2InDomain dh (computerName (self s2))],
                           userHandle := Some uh\<rparr>"
    and uh: "ret_handle be (trace s2 @ [HSamrCreateUser2InDomain dh (computerName (self s2))])
               = Inr uh"
    by (auto simp: run_defs split: sum.splits)
  from s1 uh mid ph show ?thesis
    by (auto simp: user_phase_def same_but_name_def)
qed

lemma samr_apply_create_returns:
  assumes "\<not> noAdd (self s)" and "\<not> delete (self s)"
    and run: "samr_apply be dh uh s = Some (Inr (), s1)"
  shows "\<exists>rid uh2.
     trace s1 = trace s @
       [HSamrSetPasswordInternal4New uh (computerPassword (self s)),
        HSamrLookupNamesInDomain dh (computerName (self s)),
        HSamrOpenUser dh MAXIMUM_ALLOWED rid,
        HSamrSetInformationUser2 uh2,
        Log INFO (Str (''Successfully added machine account '' @ fmt (computerName (self s)) @
          '' with password '' @ fmt (computerPassword (self s)) @ ''.''))] \<and>
     ret_handle be (trace s @
       [HSamrSetPasswordInternal4New uh (computerPassword (self s)),
        HSamrLookupNamesInDomain dh (computerName (self s)),
        HSamrOpenUser dh MAXIMUM_ALLOWED rid]) = Inr uh2 \<and>
     userHandle s1 = Some uh2 \<and> domainHandle s1 = domainHandle s \<and>
     servHandle s1 = servHandle s \<and> self s1 = self s"
  using assms
  by (auto simp: samr_apply_def run_defs split: sum.splits list.splits)

lemma finally_all_set:
  assumes "userHandle s = Some u" and "domainHandle s = Some d" and "servHandle s = Some h"
  shows "\<exists>r s' k. doSAMRAdd_finally be s = Some (r, s') \<and> 0 < k \<and>
           trace s' = trace s @
             take k [HSamrCloseHandle u, HSamrCloseHandle d, HSamrCloseHandle h, Disconnect] \<and>
           (r = Inr () \<longrightarrow>
            trace s' = trace s @
              [HSamrCloseHandle u, HSamrCloseHandle d, HSamrCloseHandle h, Disconnect])"
proof (cases "ret_unit be (trace s @ [HSamrCloseHandle u])")
  case (Inl e)
  with assms show ?thesis
    by (intro exI[where x = "Inl e"] exI[where x = "s\<lparr>trace := trace s @ [HSamrCloseHandle u]\<rparr>"]
        exI[where x = 1])
       (simp add: doSAMRAdd_finally_def close_if_set_def run_defs)
next
  case a: (Inr x)
  show ?thesis
  proof (cases "ret_unit be (trace s @ [HSamrCloseHandle u, HSamrCloseHandle d])")
    case (Inl e)
    with a assms show ?thesis
      by (intro exI[where x = "Inl e"]
          exI[where x = "s\<lparr>trace := trace s @ [HSamrCloseHandle u, HSamrCloseHandle d]\<rparr>"]
          exI[where x = 2])
         (simp add: doSAMRAdd_finally_def close_if_set_def run_defs)
  next
    case b: (Inr y)
    show ?thesis
    proof (cases "ret_unit be (trace s @
        [HSamrCloseHandle u, HSamrCloseHandle d, HSamrCloseHandle h])")
      case (Inl e)
      with a b assms show ?thesis
        by (intro exI[where x = "Inl e"]
            exI[where x = "s\<lparr>trace := trace s @
               [HSamrCloseHandle u, HSamrCloseHandle d, HSamrCloseHandle h]\<rparr>"]
            exI[where x = 3])
           (simp add: doSAMRAdd_finally_def close_if_set_def run_defs)
    next
      case c: (Inr z)
      with a b assms show ?thesis
        by (intro exI[where x = "ret_unit be (trace s @
               [HSamrCloseHandle u, HSamrCloseHandle d, HSamrCloseHandle h, Disconnect])"]
            exI[where x = "s\<lparr>trace := trace s @
               [HSamrCloseHandle u, HSamrCloseHandle d, HSamrCloseHandle h, Disconnect]\<rparr>"]
            exI[where x = 4])
           (simp add: doSAMRAdd_finally_def close_if_set_def run_defs)
    qed
  qed
qed

text \<open>
  C10. A Create run over the RPC path whose \<open>try\<close> block returns normally. Its trace is:
  connect, bind and \<open>hSamrConnect5\<close>, which returns the server handle \<open>sh\<close>; further
  calls ending with \<open>hSamrOpenDomain\<close>, which returns the domain handle \<open>dh\<close>; the
  lookups of the name, ending with \<open>hSamrCreateUser2InDomain\<close>, which returns the user
  handle \<open>uh\<close>; the password is set through \<open>uh\<close>; the name is looked up and the user
  re-opened with \<open>MAXIMUM_ALLOWED\<close>, which returns \<open>uh2\<close>; the account type is set
  through \<open>uh2\<close> and the success is logged. No close-handle and no disconnect occurs
  in it. The \<open>finally\<close> block that follows calls close-handle on \<open>uh2\<close>, on \<open>dh\<close> and
  on \<open>sh\<close> and then disconnect, stopping at the first of these calls that raises. So
  close-handle is never called on \<open>uh\<close>, unless the server gave the same handle
  again.
\<close>

theorem create_closes_reopened_handle:
  assumes "\<not> noAdd (self s)" and "\<not> delete (self s)"
    and "doSAMRAdd_try be s = Some (Inr (), s1)"
  shows "\<exists>sh dh uh uh2 sid rid mid1 mid2.
     (let t1 = trace s @ [Connect, Bind,
            HSamrConnect5 ([CHR 0x5C, CHR 0x5C] @ fmt (target (self s1)) @ [CHR 0x00])];
          t2 = t1 @ mid1 @ [HSamrOpenDomain sh sid];
          t3 = t2 @ mid2 @ [HSamrCreateUser2InDomain dh (computerName (self s1))];
          t4 = t3 @ [HSamrSetPasswordInternal4New uh (computerPassword (self s1)),
                     HSamrLookupNamesInDomain dh (computerName (self s1)),
                     HSamrOpenUser dh MAXIMUM_ALLOWED rid];
          closing = [HSamrCloseHandle uh2, HSamrCloseHandle dh, HSamrCloseHandle sh,
                     Disconnect]
      in ret_handle be t1 = Inr sh \<and> ret_handle be t2 = Inr dh \<and>
         ret_handle be t3 = Inr uh \<and> ret_handle be t4 = Inr uh2 \<and>
         trace s1 = t4 @
           [HSamrSetInformationUser2 uh2,
            Log INFO (Str (''Successfully added machine account '' @
              fmt (computerName (self s1)) @ '' with password '' @
              fmt (computerPassword (self s1)) @ ''.''))] \<and>
         list_all not_teardown (drop (length (trace s)) (trace s1)) \<and>
         (\<exists>r s' k. doSAMRAdd_finally be s1 = Some (r, s') \<and> 0 < k \<and>
            trace s' = trace s1 @ take k closing \<and>
            (r = Inr () \<longrightarrow> trace s' = trace s1 @ closing) \<and>
            (uh \<notin> {uh2, dh, sh} \<longrightarrow>
               HSamrCloseHandle uh \<notin> set (drop (length (trace s)) (trace s')))))"
proof -
  from assms(3) have "bnd (samr_open_domain be) (\<lambda>(selectedDomain, dh).
     bnd (samr_open_user be selectedDomain dh) (\<lambda>uh. samr_apply be dh uh)) s = Some (Inr (), s1)"
    by (simp add: doSAMRAdd_try_def)
  from bnd_cases[OF this] obtain sel dh sa where
    a: "samr_open_domain be s = Some (Inr (sel, dh), sa)"
    and "bnd (samr_open_user be sel dh) (\<lambda>uh. samr_apply be dh uh) sa = Some (Inr (), s1)"
    by auto
  from bnd_cases[OF this(2)] obtain uh sb where
    b: "samr_open_user be sel dh sa = Some (Inr uh, sb)"
    and c: "samr_apply be dh uh sb = Some (Inr (), s1)"
    by auto
  let ?t1 = "trace s @ [Connect, Bind,
            HSamrConnect5 ([CHR 0x5C, CHR 0x5C] @ fmt (target (self s)) @ [CHR 0x00])]"
  from samr_open_domain_returns[OF a] obtain sh sid mid1 where
    a1: "trace sa = ?t1 @ mid1 @ [HSamrOpenDomain sh sid]"
    and a2: "list_all not_teardown mid1"
    and a3: "ret_handle be ?t1 = Inr sh"
    and a4: "ret_handle be (trace sa) = Inr dh"
    and a5: "servHandle sa = Some sh" "domainHandle sa = Some dh" "self sa = self s"
    by auto
  from assms(1,2) a5 have na: "\<not> noAdd (self sa)" "\<not> delete (self sa)" by simp_all
  from samr_create_returns[OF na b] obtain mid2 where
    b1: "trace sb = trace sa @ mid2 @ [HSamrCreateUser2InDomain dh (computerName (self sb))]"
    and b2: "list_all not_teardown mid2"
    and b3: "ret_handle be (trace sb) = Inr uh"
    and b4: "domainHandle sb = domainHandle sa" "servHandle sb = servHandle sa"
    and b5: "self sb = (self sa)\<lparr>computerName := computerName (self sb)\<rparr>"
    by blast
  from b5 na have nb: "\<not> noAdd (self sb)" "\<not> delete (self sb)"
    and tg: "target (self sb) = target (self sa)"
    by (cases "self sa", cases "self sb", simp)+
  from samr_apply_create_returns[OF nb c] obtain rid uh2 where
    c1: "trace s1 = trace sb @
       [HSamrSetPasswordInternal4New uh (computerPassword (self sb)),
        HSamrLookupNamesInDomain dh (computerName (self sb)),
        HSamrOpenUser dh MAXIMUM_ALLOWED rid,
        HSamrSetInformationUser2 uh2,
        Log INFO (Str (''Successfully added machine account '' @ fmt (computerName (self sb)) @
          '' with password '' @ fmt (computerPassword (self sb)) @ ''.''))]"
    and c2: "ret_handle be (trace sb @
       [HSamrSetPasswordInternal4New uh (computerPassword (self sb)),
        HSamrLookupNamesInDomain dh (computerName (self sb)),
        HSamrOpenUser dh MAXIMUM_ALLOWED rid]) = Inr uh2"
    and c3: "userHandle s1 = Some uh2" "domainHandle s1 = domainHandle sb"
      "servHandle s1 = servHandle sb" "self s1 = self sb"
    by blast
  let ?closing = "[HSamrCloseHandle uh2, HSamrCloseHandle dh, HSamrCloseHandle sh, Disconnect]"
  have hs: "userHandle s1 = Some uh2" "domainHandle s1 = Some dh" "servHandle s1 = Some sh"
    using a5 b4 c3 by simp_all
  from finally_all_set[OF hs, of be] obtain r s' k where
    f: "doSAMRAdd_finally be s1 = Some (r, s')" "0 < k"
      "trace s' = trace s1 @ take k ?closing"
      "r = Inr () \<longrightarrow> trace s' = trace s1 @ ?closing"
    by blast
  have quiet: "list_all not_teardown (drop (length (trace s)) (trace s1))"
    using a1 a2 b1 b2 c1 by (simp add: not_teardown_def)
  have never: "HSamrCloseHandle uh \<notin> set (drop (length (trace s)) (trace s'))"
    if "uh \<notin> {uh2, dh, sh}"
  proof
    assume "HSamrCloseHandle uh \<in> set (drop (length (trace s)) (trace s'))"
    moreover have "drop (length (trace s)) (trace s') =
        drop (length (trace s)) (trace s1) @ take k ?closing"
      using f(3) a1 b1 c1 by simp
    ultimately have "HSamrCloseHandle uh \<in> set (drop (length (trace s)) (trace s1)) \<or>
        HSamrCloseHandle uh \<in> set (take k ?closing)" by simp
    then show False
    proof
      assume "HSamrCloseHandle uh \<in> set (drop (length (trace s)) (trace s1))"
      with quiet show False by (auto simp: list_all_iff not_teardown_def)
    next
      assume "HSamrCloseHandle uh \<in> set (take k ?closing)"
      then have "HSamrCloseHandle uh \<in> set ?closing" by (rule in_set_takeD)
      with that show False by simp
    qed
  qed
  from a5 tg c3 have tgt: "target (self s1) = target (self s)" by simp
  let ?T1 = "trace s @ [Connect, Bind,
            HSamrConnect5 ([CHR 0x5C, CHR 0x5C] @ fmt (target (self s1)) @ [CHR 0x00])]"
  let ?T2 = "?T1 @ mid1 @ [HSamrOpenDomain sh sid]"
  let ?T3 = "?T2 @ mid2 @ [HSamrCreateUser2InDomain dh (computerName (self s1))]"
  let ?T4 = "?T3 @ [HSamrSetPasswordInternal4New uh (computerPassword (self s1)),
                     HSamrLookupNamesInDomain dh (computerName (self s1)),
                     HSamrOpenUser dh MAXIMUM_ALLOWED rid]"
  have e1: "ret_handle be ?T1 = Inr sh" using a3 tgt by simp
  have sa: "trace sa = ?T2" using a1 tgt by simp
  have e2: "ret_handle be ?T2 = Inr dh" using a4 unfolding sa .
  have sb: "trace sb = ?T3" using b1 c3 unfolding sa by simp
  have e3: "ret_handle be ?T3 = Inr uh" using b3 unfolding sb .
  have e4: "ret_handle be ?T4 = Inr uh2" using c2 c3 unfolding sb by simp
  have e5: "trace s1 = ?T4 @
           [HSamrSetInformationUser2 uh2,
            Log INFO (Str (''Successfully added machine account '' @
              fmt (computerName (self s1)) @ '' with password '' @
              fmt (computerPassword (self s1)) @ ''.''))]"
    using c1 c3 unfolding sb by simp
  have fin: "\<exists>r s' k. doSAMRAdd_finally be s1 = Some (r, s') \<and> 0 < k \<and>
            trace s' = trace s1 @ take k ?closing \<and>
            (r = Inr () \<longrightarrow> trace s' = trace s1 @ ?closing) \<and>
            (uh \<notin> {uh2, dh, sh} \<longrightarrow>
               HSamrCloseHandle uh \<notin> set (drop (length (trace s)) (trace s')))"
    using f never by blast
  from e1 e2 e3 e4 e5 quiet fin show ?thesis
    unfolding Let_def by blast
qed

text \<open>
  The Create of \<open>PC1$\<close> on a server without that account: the handle \<open>9\<close> that
  create-user returned is used to set the password and is never closed; the handles
  closed are \<open>12\<close> of the re-opened user, \<open>7\<close> of the domain and \<open>4\<close> of the server.
\<close>

lemma samr_pc1_trace:
  "map_option (trace \<circ> snd) (doSAMRAdd fresh_server (start\<lparr>self := pc1\<rparr>)) =
     Some [Get_dce_rpc, Connect, Bind,
           HSamrConnect5 ([CHR 0x5C, CHR 0x5C] @ ''corp.local'' @ [CHR 0x00]),
           HSamrEnumerateDomainsInSamServer 4,
           HSamrLookupDomainInSamServer 4 ''CORP'',
           HSamrOpenDomain 4 ''S-1-5-21'',
           HSamrLookupNamesInDomain 7 (Some ''PC1$''),
           HSamrCreateUser2InDomain 7 (Some ''PC1$''),
           HSamrSetPasswordInternal4New 9 (Some (replicate 32 CHR ''a'')),
           HSamrLookupNamesInDomain 7 (Some ''PC1$''),
           HSamrOpenUser 7 MAXIMUM_ALLOWED 1104,
           HSamrSetInformationUser2 12,
           Log INFO (Str (''Successfully added machine account PC1$ with password '' @
             replicate 32 CHR ''a'' @ ''.'')),
           HSamrCloseHandle 12, HSamrCloseHandle 7, HSamrCloseHandle 4, Disconnect]"
  by (simp add: doSAMRAdd_def doSAMRAdd_try_def samr_open_domain_def select_domain_def
      samr_open_user_def samr_check_absent_def samr_apply_def doSAMRAdd_finally_def
      close_if_set_def except_handler_def run_defs fresh_server_def pc1_def start_def
      lower_names fmt_def)

lemma samr_try_pc1:
  "map_option fst (doSAMRAdd_try fresh_server (start\<lparr>self := pc1\<rparr>)) = Some (Inr ())"
  by (simp add: doSAMRAdd_try_def samr_open_domain_def select_domain_def
      samr_open_user_def samr_check_absent_def samr_apply_def run_defs fresh_server_def
      pc1_def start_def lower_names fmt_def)

theorem create_closes_reopened_handle_witness:
  "\<not> noAdd (self (start\<lparr>self := pc1\<rparr>)) \<and> \<not> delete (self (start\<lparr>self := pc1\<rparr>)) \<and>
   (\<exists>s1. doSAMRAdd_try fresh_server (start\<lparr>self := pc1\<rparr>) = Some (Inr (), s1) \<and>
     (\<exists>sh dh uh uh2 sid rid mid1 mid2.
       (let t1 = trace (start\<lparr>self := pc1\<rparr>) @ [Connect, Bind,
              HSamrConnect5 ([CHR 0x5C, CHR 0x5C] @ fmt (target (self s1)) @ [CHR 0x00])];
            t2 = t1 @ mid1 @ [HSamrOpenDomain sh sid];
            t3 = t2 @ mid2 @ [HSamrCreateUser2InDomain dh (computerName (self s1))];
            t4 = t3 @ [HSamrSetPasswordInternal4New uh (computerPassword (self s1)),
                       HSamrLookupNamesInDomain dh (computerName (self s1)),
                       HSamrOpenUser dh MAXIMUM_ALLOWED rid];
            closing = [HSamrCloseHandle uh2, HSamrCloseHandle dh, HSamrCloseHandle sh,
                       Disconnect]
        in ret_handle fresh_server t1 = Inr sh \<and> ret_handle fresh_server t2 = Inr dh \<and>
           ret_handle fresh_server t3 = Inr uh \<and> ret_handle fresh_server t4 = Inr uh2 \<and>
           uh \<notin> {uh2, dh, sh} \<and>
           (\<exists>s'. doSAMRAdd_finally fresh_server s1 = Some (Inr (), s') \<and>
              trace s' = trace s1 @ closing \<and>
              HSamrCloseHandle uh \<notin>
                set (drop (length (trace (start\<lparr>self := pc1\<rparr>))) (trace s'))))))"
proof -
  let ?s = "start\<lparr>self := pc1\<rparr>"
  have a: "\<not> noAdd (self ?s)" "\<not> delete (self ?s)" by (simp_all add: pc1_def)
  from samr_try_pc1 obtain s1 where
    run: "doSAMRAdd_try fresh_server ?s = Some (Inr (), s1)" by auto
  have h: "\<And>t. ret_handle fresh_server t = Inr (length t)"
    and u: "\<And>t. ret_unit fresh_server t = Inr ()"
    by (simp_all add: fresh_server_def)
  from create_closes_reopened_handle[OF a run]
  obtain sh dh uh uh2 sid rid mid1 mid2 r s' where
    t: "ret_handle fresh_server (trace ?s @ [Connect, Bind,
              HSamrConnect5 ([CHR 0x5C, CHR 0x5C] @ fmt (target (self s1)) @ [CHR 0x00])]) = Inr sh"
      "ret_handle fresh_server ((trace ?s @ [Connect, Bind,
              HSamrConnect5 ([CHR 0x5C, CHR 0x5C] @ fmt (target (self s1)) @ [CHR 0x00])]) @
            mid1 @ [HSamrOpenDomain sh sid]) = Inr dh"
      "ret_handle fresh_server (((trace ?s @ [Connect, Bind,
              HSamrConnect5 ([CHR 0x5C, CHR 0x5C] @ fmt (target (self s1)) @ [CHR 0x00])]) @
            mid1 @ [HSamrOpenDomain sh sid]) @
            mid2 @ [HSamrCreateUser2InDomain dh (computerName (self s1))]) = Inr uh"
      "ret_handle fresh_server ((((trace ?s @ [Connect, Bind,
              HSamrConnect5 ([CHR 0x5C, CHR 0x5C] @ fmt (target (self s1)) @ [CHR 0x00])]) @
            mid1 @ [HSamrOpenDomain sh sid]) @
            mid2 @ [HSamrCreateUser2InDomain dh (computerName (self s1))]) @
            [HSamrSetPasswordInternal4New uh (computerPassword (self s1)),
             HSamrLookupNamesInDomain dh (computerName (self s1)),
             HSamrOpenUser dh MAXIMUM_ALLOWED rid]) = Inr uh2"
    and f: "doSAMRAdd_finally fresh_server s1 = Some (r, s')"
      "r = Inr () \<longrightarrow> trace s' = trace s1 @
         [HSamrCloseHandle uh2, HSamrCloseHandle dh, HSamrCloseHandle sh, Disconnect]"
      "uh \<notin> {uh2, dh, sh} \<longrightarrow>
         HSamrCloseHandle uh \<notin> set (drop (length (trace ?s)) (trace s'))"
    unfolding Let_def by blast
  from t have d: "uh \<notin> {uh2, dh, sh}" by (auto simp: h)
  from finally_cases[OF f(1)] have r: "r = Inr ()"
    by (cases r) (simp_all add: u)
  from a run t d f r show ?thesis
    unfolding Let_def by blast
qed

text \<open>
  The sub-code is read as Python reads it: a no-break space before it and a next-line
  control after it are white space for \<open>strip()\<close>.
\<close>

lemma sub_code_padded:
  "sub_code \<lparr> result = 53, message = [CHR 0xA0] @ ''0000216D'' @ [CHR 0x85] @ '': quota'' \<rparr> s
     = Some (Inr 0x216D, s)"
proof -
  have "first (py_split CHR '':'' ([CHR 0xA0] @ ''0000216D'' @ [CHR 0x85] @ '': quota''))
          = returns ([CHR 0xA0] @ ''0000216D'' @ [CHR 0x85])"
    by (simp add: first_def)
  moreover have "py_strip ([CHR 0xA0] @ ''0000216D'' @ [CHR 0x85]) = ''0000216D''"
    by (simp add: py_strip_def is_space_def)
  moreover have "int16 ''0000216D'' = returns 0x216D"
    by (simp add: int16_def py_strip_def is_space_def hex_digit_def)
  ultimately show ?thesis
    by (simp add: sub_code_def bnd_def returns_def)
qed

text \<open>The message of the \<open>ValueError\<close> quotes the literal.\<close>

lemma int16_message:
  "int16 ''zz'' s =
     Some (Inl (ValueError (''invalid literal for int() with base 16: '' @
                  [CHR 0x27] @ ''zz'' @ [CHR 0x27])), s)"
  by (simp add: int16_def py_strip_def is_space_def hex_digit_def py_repr_def repr_char_def
      is_printable_def raise_def Let_def)

text \<open>
  \<open>lower\<close> maps the capitals above \<open>0x7F\<close> too, and leaves the multiplication sign.
\<close>

lemma lower_latin1: "lower [CHR 0xC9, CHR 0xD7, CHR ''A''] = [CHR 0xE9, CHR 0xD7, CHR ''a'']"
  by code_simp

end
